(* ===== verification/Issuerd_Prelude.thy ===== *)
theory Issuerd_Prelude
  imports Main "HOL-Library.Word" "HOL-Library.Char_ord" "HOL-Library.List_Lexorder"
    "HOL-Library.Sublist"
begin

text \<open>
  Shared vocabulary of the development.  \<open>Result<T, E>\<close> of the source is the sum
  \<open>'e + 'a\<close> with \<open>Inl\<close> for \<open>Err\<close> and \<open>Inr\<close> for \<open>Ok\<close>; the question-mark
  operator and \<open>Result::and_then\<close> are \<open>and_then\<close>, \<open>Option::ok_or_else\<close> is
  \<open>ok_or\<close> and \<open>Option<Result<..>>::transpose\<close> after a \<open>map\<close> is \<open>opt_transpose\<close>.
  A \<open>HashMap<String, V>\<close> is a map \<open>string \<rightharpoonup> 'v\<close>.  The theory also holds the
  generic facts on lists and maps that several components use.
\<close>

section \<open>Collections of rewrite rules and introduction rules\<close>

named_theorems result_simps \<open>case analysis of the result combinators\<close>
named_theorems wf_intros \<open>preservation of well-formedness invariants\<close>

section \<open>Types\<close>

type_synonym u32 = "32 word"
type_synonym u64 = "64 word"
type_synonym params = "string \<rightharpoonup> string"
type_synonym bytes = string

section \<open>Results\<close>

definition and_then :: "'e + 'a \<Rightarrow> ('a \<Rightarrow> 'e + 'b) \<Rightarrow> 'e + 'b" where
  "and_then r f = (case r of Inl e \<Rightarrow> Inl e | Inr x \<Rightarrow> f x)"

definition ok_or :: "'e \<Rightarrow> 'a option \<Rightarrow> 'e + 'a" where
  "ok_or e x = (case x of None \<Rightarrow> Inl e | Some v \<Rightarrow> Inr v)"

definition opt_transpose :: "('a \<Rightarrow> 'e + 'b) \<Rightarrow> 'a option \<Rightarrow> 'e + 'b option" where
  "opt_transpose f x =
     (case x of None \<Rightarrow> Inr None
      | Some v \<Rightarrow> (case f v of Inl e \<Rightarrow> Inl e | Inr w \<Rightarrow> Inr (Some w)))"

definition map_err :: "('e \<Rightarrow> 'f) \<Rightarrow> 'e + 'a \<Rightarrow> 'f + 'a" where
  "map_err g r = (case r of Inl e \<Rightarrow> Inl (g e) | Inr x \<Rightarrow> Inr x)"

text \<open>\<open>Iterator::collect::<Result<Vec<_>, _>>\<close> over a mapped list: the first error wins.\<close>

fun collect_results :: "('a \<Rightarrow> 'e + 'b) \<Rightarrow> 'a list \<Rightarrow> 'e + 'b list" where
  "collect_results f [] = Inr []"
| "collect_results f (x # xs) =
     (case f x of Inl e \<Rightarrow> Inl e
      | Inr y \<Rightarrow> (case collect_results f xs of Inl e \<Rightarrow> Inl e | Inr ys \<Rightarrow> Inr (y # ys)))"

definition is_ok :: "'e + 'a \<Rightarrow> bool" where
  "is_ok r = (case r of Inl _ \<Rightarrow> False | Inr _ \<Rightarrow> True)"

lemma and_then_simps [simp]:
  "and_then (Inl e) f = Inl e"
  "and_then (Inr x) f = f x"
  by (simp_all add: and_then_def)

lemma and_then_weak_cong: "r = r' \<Longrightarrow> and_then r f = and_then r' f"
  by simp

lemma and_then_Inr_iff [result_simps]:
  "and_then r f = Inr y \<longleftrightarrow> (\<exists>x. r = Inr x \<and> f x = Inr y)"
  by (cases r) auto

lemma and_then_Inl_iff [result_simps]:
  "and_then r f = Inl e \<longleftrightarrow> r = Inl e \<or> (\<exists>x. r = Inr x \<and> f x = Inl e)"
  by (cases r) auto

lemma ok_or_simps [simp]:
  "ok_or e None = Inl e"
  "ok_or e (Some v) = Inr v"
  by (simp_all add: ok_or_def)

lemma ok_or_Inr_iff [result_simps]: "ok_or e x = Inr v \<longleftrightarrow> x = Some v"
  by (cases x) auto

lemma opt_transpose_simps [simp]:
  "opt_transpose f None = Inr None"
  "f v = Inr w \<Longrightarrow> opt_transpose f (Some v) = Inr (Some w)"
  "f v = Inl e \<Longrightarrow> opt_transpose f (Some v) = Inl e"
  by (simp_all add: opt_transpose_def)

lemma opt_transpose_Inr_iff [result_simps]:
  "opt_transpose f x = Inr y \<longleftrightarrow>
     (x = None \<and> y = None) \<or> (\<exists>v w. x = Some v \<and> f v = Inr w \<and> y = Some w)"
  by (cases x) (auto simp: opt_transpose_def split: sum.splits)

lemma map_err_simps [simp]:
  "map_err g (Inl e) = Inl (g e)"
  "map_err g (Inr x) = Inr x"
  by (simp_all add: map_err_def)

lemma map_err_Inr_iff [result_simps]: "map_err g r = Inr x \<longleftrightarrow> r = Inr x"
  by (cases r) auto

lemma is_ok_simps [simp]:
  "is_ok (Inl e) \<longleftrightarrow> False"
  "is_ok (Inr x) \<longleftrightarrow> True"
  by (simp_all add: is_ok_def)

lemma is_ok_iff: "is_ok r \<longleftrightarrow> (\<exists>x. r = Inr x)"
  by (cases r) auto

lemma if_Inl_eq_Inr_iff [result_simps]:
  "(if c then Inl e else r) = Inr x \<longleftrightarrow> \<not> c \<and> r = Inr x"
  by auto

lemma collect_results_Inr_iff:
  "collect_results f xs = Inr ys \<longleftrightarrow> list_all2 (\<lambda>x y. f x = Inr y) xs ys"
proof (induction xs arbitrary: ys)
  case Nil
  then show ?case by (cases ys) auto
next
  case (Cons x xs)
  show ?case
  proof (cases "collect_results f xs")
    case (Inl e)
    then have "\<not> list_all2 (\<lambda>x y. f x = Inr y) xs zs" for zs
      using Cons.IH [of zs] by simp
    with Inl show ?thesis by (cases ys) (auto split: sum.splits)
  next
    case (Inr zs)
    then have "list_all2 (\<lambda>x y. f x = Inr y) xs us \<longleftrightarrow> us = zs" for us
      using Cons.IH [of us] by auto
    with Inr show ?thesis by (cases ys) (auto split: sum.splits)
  qed
qed

section \<open>Lists and maps\<close>

text \<open>\<open>HashMap::retain\<close> on the keys of a map.\<close>

definition retain_keys :: "('k \<Rightarrow> bool) \<Rightarrow> ('k \<rightharpoonup> 'v) \<Rightarrow> ('k \<rightharpoonup> 'v)" where
  "retain_keys P m = (\<lambda>k. if P k then m k else None)"

lemma retain_keys_apply [simp]: "retain_keys P m k = (if P k then m k else None)"
  by (simp add: retain_keys_def)

lemma retain_keys_idem [simp]: "retain_keys P (retain_keys P m) = retain_keys P m"
  by (simp add: retain_keys_def fun_eq_iff)

lemma dom_retain_keys [simp]: "dom (retain_keys P m) = {k \<in> dom m. P k}"
  by (auto simp: dom_def)

text \<open>\<open>Vec::dedup\<close>: drop consecutive repetitions.  On a sorted list it is
  \<open>remdups_adj\<close> and leaves a strictly sorted list.\<close>

lemma sorted_distinct_remdups_adj:
  fixes xs :: "'a::linorder list"
  shows "sorted xs \<Longrightarrow> distinct (remdups_adj xs)"
  by (induction xs rule: remdups_adj.induct) fastforce+

lemma sorted_remdups_adj_strict:
  fixes xs :: "'a::linorder list"
  assumes "sorted xs"
  shows "sorted_wrt (<) (remdups_adj xs)"
  using assms by (simp add: strict_sorted_iff sorted_distinct_remdups_adj)

lemma strict_sorted_remdups_adj_sort_id:
  fixes xs :: "'a::linorder list"
  assumes "sorted_wrt (<) xs"
  shows "remdups_adj (sort xs) = xs"
  using assms
  by (simp add: strict_sorted_iff sorted_sort_id remdups_adj_distinct)

end
