(* ===== verification/Rust_Text.thy ===== *)
theory Rust_Text
  imports Issuerd_Prelude
begin

text \<open>
  The parts of Rust's \<open>str\<close> and integer libraries that the program uses.  A Rust
  \<open>String\<close> is its UTF-8 byte sequence, here a HOL \<open>string\<close> (a list of bytes), so
  \<open>str::len\<close> is \<open>length\<close>, byte-wise comparison is the lexicographic order and an ASCII
  literal is itself.  \<open>chars\<close> cuts a string before every byte that is not a UTF-8
  continuation byte, so each element is the encoding of one Unicode scalar value; the
  character predicates (\<open>char::is_whitespace\<close>, \<open>char::is_control\<close>) are on such
  encodings.
\<close>

section \<open>Characters of a string\<close>

type_synonym uchar = string

definition byte_val :: "char \<Rightarrow> nat" where
  "byte_val c = of_char c"

definition is_continuation :: "char \<Rightarrow> bool" where
  "is_continuation c \<longleftrightarrow> 128 \<le> byte_val c \<and> byte_val c < 192"

function chars :: "string \<Rightarrow> uchar list" where
  "chars [] = []"
| "chars (b # s) = (b # takeWhile is_continuation s) # chars (dropWhile is_continuation s)"
  by pat_completeness auto
termination
  by (relation "measure length") (auto simp: le_imp_less_Suc length_dropWhile_le)

text \<open>\<open>char::is_whitespace\<close>: the code points with property \<open>White_Space\<close>
  (U+0009..U+000D, U+0020, U+0085, U+00A0, U+1680, U+2000..U+200A, U+2028, U+2029,
  U+202F, U+205F, U+3000), written as their UTF-8 encodings.\<close>

definition is_whitespace :: "uchar \<Rightarrow> bool" where
  "is_whitespace c =
     (case map byte_val c of
        [a] \<Rightarrow> (9 \<le> a \<and> a \<le> 13) \<or> a = 32
      | [a, b] \<Rightarrow> a = 194 \<and> (b = 133 \<or> b = 160)
      | [a, b, d] \<Rightarrow>
          (a = 225 \<and> b = 154 \<and> d = 128)
          \<or> (a = 226 \<and> b = 128 \<and> ((128 \<le> d \<and> d \<le> 138) \<or> d = 168 \<or> d = 169 \<or> d = 175))
          \<or> (a = 226 \<and> b = 129 \<and> d = 159)
          \<or> (a = 227 \<and> b = 128 \<and> d = 128)
      | _ \<Rightarrow> False)"

text \<open>\<open>char::is_control\<close>: general category \<open>Cc\<close>, that is U+0000..U+001F and
  U+007F..U+009F.\<close>

definition is_control :: "uchar \<Rightarrow> bool" where
  "is_control c =
     (case map byte_val c of
        [a] \<Rightarrow> a < 32 \<or> a = 127
      | [a, b] \<Rightarrow> a = 194 \<and> 128 \<le> b \<and> b < 160
      | _ \<Rightarrow> False)"

definition is_ascii_char :: "char \<Rightarrow> bool" where
  "is_ascii_char c \<longleftrightarrow> byte_val c < 128"

definition is_ascii_digit :: "char \<Rightarrow> bool" where
  "is_ascii_digit c \<longleftrightarrow> 48 \<le> byte_val c \<and> byte_val c \<le> 57"

definition is_ascii_upper :: "char \<Rightarrow> bool" where
  "is_ascii_upper c \<longleftrightarrow> 65 \<le> byte_val c \<and> byte_val c \<le> 90"

definition is_ascii_lower :: "char \<Rightarrow> bool" where
  "is_ascii_lower c \<longleftrightarrow> 97 \<le> byte_val c \<and> byte_val c \<le> 122"

definition is_ascii_alphanumeric :: "char \<Rightarrow> bool" where
  "is_ascii_alphanumeric c \<longleftrightarrow> is_ascii_digit c \<or> is_ascii_upper c \<or> is_ascii_lower c"

definition ascii_lower :: "char \<Rightarrow> char" where
  "ascii_lower c = (if is_ascii_upper c then char_of (byte_val c + 32) else c)"

definition has_control :: "string \<Rightarrow> bool" where
  "has_control s \<longleftrightarrow> (\<exists>c \<in> set (chars s). is_control c)"

definition has_whitespace :: "string \<Rightarrow> bool" where
  "has_whitespace s \<longleftrightarrow> (\<exists>c \<in> set (chars s). is_whitespace c)"

section \<open>Trimming and splitting\<close>

definition trim_by :: "('a \<Rightarrow> bool) \<Rightarrow> 'a list \<Rightarrow> 'a list" where
  "trim_by P xs = rev (dropWhile P (rev (dropWhile P xs)))"

definition trim :: "string \<Rightarrow> string" where
  "trim s = concat (trim_by is_whitespace (chars s))"

function words_by :: "('a \<Rightarrow> bool) \<Rightarrow> 'a list \<Rightarrow> 'a list list" where
  "words_by P [] = []"
| "words_by P (x # xs) =
     (if P x then words_by P xs
      else (x # takeWhile (\<lambda>y. \<not> P y) xs) # words_by P (dropWhile (\<lambda>y. \<not> P y) xs))"
  by pat_completeness auto
termination
  by (relation "measure (\<lambda>(P, xs). length xs)")
     (auto simp: le_imp_less_Suc length_dropWhile_le)

definition split_whitespace :: "string \<Rightarrow> string list" where
  "split_whitespace s = map concat (words_by is_whitespace (chars s))"

text \<open>\<open>str::split\<close> at a one-byte separator: keeps empty pieces, never returns \<open>[]\<close>.\<close>

fun split_at :: "char \<Rightarrow> string \<Rightarrow> string list" where
  "split_at d [] = [[]]"
| "split_at d (c # s) =
     (if c = d then [] # split_at d s
      else (case split_at d s of [] \<Rightarrow> [[c]] | w # ws \<Rightarrow> (c # w) # ws))"

fun join :: "string \<Rightarrow> string list \<Rightarrow> string" where
  "join sep [] = []"
| "join sep [w] = w"
| "join sep (w # v # ws) = w @ sep @ join sep (v # ws)"

text \<open>\<open>str::strip_suffix\<close> with a one-byte pattern, \<open>str::starts_with\<close>,
  \<open>str::strip_prefix\<close> and \<open>str::contains\<close>.\<close>

definition strip_suffix_char :: "char \<Rightarrow> string \<Rightarrow> string option" where
  "strip_suffix_char d s = (if s \<noteq> [] \<and> last s = d then Some (butlast s) else None)"

definition starts_with :: "string \<Rightarrow> string \<Rightarrow> bool" where
  "starts_with s p \<longleftrightarrow> take (length p) s = p"

definition strip_prefix_str :: "string \<Rightarrow> string \<Rightarrow> string option" where
  "strip_prefix_str p s = (if starts_with s p then Some (drop (length p) s) else None)"

fun str_contains :: "string \<Rightarrow> string \<Rightarrow> bool" where
  "str_contains [] p = (p = [])"
| "str_contains (c # s) p = (starts_with (c # s) p \<or> str_contains s p)"

section \<open>Decimal numbers\<close>

definition digit_char :: "nat \<Rightarrow> char" where
  "digit_char d = char_of (48 + d)"

definition digit_val :: "char \<Rightarrow> nat" where
  "digit_val c = byte_val c - 48"

fun nat_to_string :: "nat \<Rightarrow> string" where
  "nat_to_string n =
     (if n < 10 then [digit_char n] else nat_to_string (n div 10) @ [digit_char (n mod 10)])"

declare nat_to_string.simps [simp del]

definition digits_val :: "string \<Rightarrow> nat" where
  "digits_val s = foldl (\<lambda>n c. 10 * n + digit_val c) 0 s"

text \<open>\<open>u64::from_str\<close>: an optional plus sign, at least one digit, no overflow.\<close>

definition parse_u64 :: "string \<Rightarrow> u64 option" where
  "parse_u64 s =
     (let ds = (case s of c # cs \<Rightarrow> if c = CHR ''+'' then cs else s | [] \<Rightarrow> [])
      in if ds = [] \<or> \<not> list_all is_ascii_digit ds \<or> 2 ^ 64 \<le> digits_val ds then None
         else Some (of_nat (digits_val ds)))"

definition u64_to_string :: "u64 \<Rightarrow> string" where
  "u64_to_string w = nat_to_string (unat w)"

section \<open>Facts on character sequences\<close>

text \<open>A sequence of chunks that \<open>chars\<close> can return: every chunk is one lead byte and
  its continuation bytes.  A string starts on a character boundary unless its first byte
  is a continuation byte; every Rust string does.\<close>

definition wf_chunks :: "uchar list \<Rightarrow> bool" where
  "wf_chunks cs \<longleftrightarrow>
     (\<forall>c \<in> set cs. c \<noteq> [] \<and> (\<forall>b \<in> set (tl c). is_continuation b))
     \<and> (\<forall>c \<in> set (tl cs). \<not> is_continuation (hd c))"

definition on_boundary :: "string \<Rightarrow> bool" where
  "on_boundary s \<longleftrightarrow> s = [] \<or> \<not> is_continuation (hd s)"

lemma on_boundary_Nil [simp]: "on_boundary []"
  by (simp add: on_boundary_def)

lemma concat_chars [simp]: "concat (chars s) = s"
  by (induction s rule: chars.induct) auto

lemma chars_eq_Nil_iff [simp]: "chars s = [] \<longleftrightarrow> s = []"
  by (cases s) auto

lemma hd_chars: "s \<noteq> [] \<Longrightarrow> hd (hd (chars s)) = hd s"
  by (cases s) auto

lemma chars_nonempty: "c \<in> set (chars s) \<Longrightarrow> c \<noteq> []"
  by (induction s rule: chars.induct) auto

lemma chars_tail_continuation:
  "c \<in> set (chars s) \<Longrightarrow> b \<in> set (tl c) \<Longrightarrow> is_continuation b"
  by (induction s rule: chars.induct) (auto dest: set_takeWhileD)

lemma chars_heads_boundary: "on_boundary s \<Longrightarrow> c \<in> set (chars s) \<Longrightarrow> \<not> is_continuation (hd c)"
proof (induction s rule: chars.induct)
  case 1
  then show ?case by simp
next
  case (2 b s)
  have "on_boundary (dropWhile is_continuation s)"
    using hd_dropWhile [of is_continuation s] by (auto simp: on_boundary_def)
  with 2 show ?case by (auto simp: on_boundary_def)
qed

lemma chars_tl_heads: "c \<in> set (tl (chars s)) \<Longrightarrow> \<not> is_continuation (hd c)"
proof (cases s)
  case Nil
  assume "c \<in> set (tl (chars s))"
  with Nil show ?thesis by simp
next
  case (Cons b t)
  assume "c \<in> set (tl (chars s))"
  moreover have "on_boundary (dropWhile is_continuation t)"
    using hd_dropWhile [of is_continuation t] by (auto simp: on_boundary_def)
  ultimately show ?thesis using Cons by (auto dest: chars_heads_boundary)
qed

lemma wf_chunks_chars [simp, intro]: "wf_chunks (chars s)"
  by (auto simp: wf_chunks_def dest: chars_nonempty chars_tail_continuation chars_tl_heads)

lemma wf_chunks_Cons:
  "wf_chunks (c # cs) \<longleftrightarrow>
     c \<noteq> [] \<and> (\<forall>b \<in> set (tl c). is_continuation b) \<and> wf_chunks cs
     \<and> (cs = [] \<or> \<not> is_continuation (hd (hd cs)))"
  by (cases cs) (auto simp: wf_chunks_def)

lemma chars_concat: "wf_chunks cs \<Longrightarrow> chars (concat cs) = cs"
proof (induction cs)
  case Nil
  then show ?case by simp
next
  case (Cons c cs)
  from Cons.prems obtain b t where c: "c = b # t" and t: "\<forall>x \<in> set t. is_continuation x"
    by (cases c) (auto simp: wf_chunks_Cons)
  have nb: "concat cs = [] \<or> \<not> is_continuation (hd (concat cs))"
    using Cons.prems by (cases cs) (auto simp: wf_chunks_Cons)
  have "takeWhile is_continuation (t @ u) = t \<and> dropWhile is_continuation (t @ u) = u"
    if "u = [] \<or> \<not> is_continuation (hd u)" for u
    using t that by (cases u) (simp_all add: takeWhile_append2 dropWhile_append2)
  with nb have "takeWhile is_continuation (t @ concat cs) = t"
    and "dropWhile is_continuation (t @ concat cs) = concat cs" by blast+
  moreover have "chars (concat cs) = cs"
    using Cons by (simp add: wf_chunks_Cons)
  ultimately show ?case by (simp add: c)
qed

lemma wf_chunks_append:
  "wf_chunks (xs @ ys) \<Longrightarrow> wf_chunks xs \<and> wf_chunks ys"
proof (induction xs)
  case Nil
  then show ?case by (simp add: wf_chunks_def)
next
  case (Cons x xs)
  then show ?case by (cases xs) (auto simp: wf_chunks_Cons)
qed

lemma wf_chunks_sublist: "wf_chunks cs \<Longrightarrow> sublist ys cs \<Longrightarrow> wf_chunks ys"
  by (auto simp: sublist_def dest!: wf_chunks_append)

lemma wf_chunks_appendI:
  "wf_chunks xs \<Longrightarrow> wf_chunks ys \<Longrightarrow> ys = [] \<or> \<not> is_continuation (hd (hd ys)) \<Longrightarrow>
     wf_chunks (xs @ ys)"
proof (induction xs)
  case Nil
  then show ?case by simp
next
  case (Cons x xs)
  then show ?case by (cases xs) (auto simp: wf_chunks_Cons)
qed

lemma chars_append:
  assumes "on_boundary t"
  shows "chars (s @ t) = chars s @ chars t"
proof -
  have "wf_chunks (chars s @ chars t)"
    using assms hd_chars [of t] by (intro wf_chunks_appendI) (auto simp: on_boundary_def)
  then have "chars (concat (chars s @ chars t)) = chars s @ chars t"
    by (rule chars_concat)
  then show ?thesis by simp
qed

section \<open>Facts on trimming\<close>

lemma sublist_trim_by: "sublist (trim_by P xs) xs"
proof -
  have "sublist (dropWhile P (rev (dropWhile P xs))) (rev (dropWhile P xs))"
    by (simp add: suffix_dropWhile)
  then have "sublist (trim_by P xs) (dropWhile P xs)"
    using sublist_rev [of "dropWhile P (rev (dropWhile P xs))" "rev (dropWhile P xs)"]
    by (simp add: trim_by_def)
  then show ?thesis
    by (meson sublist_order.order_trans suffix_dropWhile suffix_imp_sublist)
qed

lemma hd_trim_by: "trim_by P xs \<noteq> [] \<Longrightarrow> \<not> P (hd (trim_by P xs))"
proof -
  assume ne: "trim_by P xs \<noteq> []"
  let ?d = "dropWhile P xs"
  have d: "?d \<noteq> []"
  proof
    assume e: "?d = []"
    have "trim_by P xs = []" unfolding trim_by_def e by simp
    with ne show False by simp
  qed
  then have hd: "\<not> P (hd ?d)" by (rule hd_dropWhile)
  have "prefix (trim_by P xs) ?d"
    using suffix_dropWhile [of P "rev ?d"] by (simp add: trim_by_def suffix_to_prefix)
  with ne have "hd (trim_by P xs) = hd ?d" by (auto simp: prefix_def)
  with hd show ?thesis by simp
qed

lemma last_trim_by: "trim_by P xs \<noteq> [] \<Longrightarrow> \<not> P (last (trim_by P xs))"
  by (simp add: trim_by_def last_rev hd_dropWhile)

lemma trim_by_id: "xs = [] \<or> (\<not> P (hd xs) \<and> \<not> P (last xs)) \<Longrightarrow> trim_by P xs = xs"
proof (cases "xs = []")
  case True
  then show ?thesis by (simp add: trim_by_def)
next
  case False
  assume "xs = [] \<or> (\<not> P (hd xs) \<and> \<not> P (last xs))"
  with False have h: "\<not> P (hd xs)" and l: "\<not> P (last xs)" by auto
  from False h have "dropWhile P xs = xs" by (cases xs) auto
  moreover from False l have "dropWhile P (rev xs) = rev xs"
    by (cases xs rule: rev_cases) auto
  ultimately show ?thesis by (simp add: trim_by_def)
qed

lemma trim_by_idem [simp]: "trim_by P (trim_by P xs) = trim_by P xs"
  by (rule trim_by_id) (auto simp: hd_trim_by last_trim_by)

lemma chars_trim: "chars (trim s) = trim_by is_whitespace (chars s)"
  unfolding trim_def
  by (rule chars_concat, rule wf_chunks_sublist [OF wf_chunks_chars sublist_trim_by])

lemma trim_idem [simp]: "trim (trim s) = trim s"
  by (simp add: trim_def [of "trim s"] chars_trim) (simp add: trim_def)

lemma set_chars_trim: "set (chars (trim s)) \<subseteq> set (chars s)"
  unfolding chars_trim by (rule set_mono_sublist [OF sublist_trim_by])

lemma length_concat_sublist: "sublist xs ys \<Longrightarrow> length (concat xs) \<le> length (concat ys)"
  by (auto simp: sublist_def)

lemma length_trim_le: "length (trim s) \<le> length s"
  unfolding trim_def using length_concat_sublist [OF sublist_trim_by, of is_whitespace "chars s"] by simp

section \<open>Facts on splitting and joining\<close>

text \<open>A token as \<open>split_whitespace\<close> produces it from a Rust string.\<close>

definition is_token :: "string \<Rightarrow> bool" where
  "is_token t \<longleftrightarrow> t \<noteq> [] \<and> on_boundary t \<and> \<not> has_whitespace t"

lemma words_by_props:
  "w \<in> set (words_by P xs) \<Longrightarrow> w \<noteq> [] \<and> (\<forall>x \<in> set w. \<not> P x) \<and> sublist w xs"
proof (induction P xs rule: words_by.induct)
  case (1 P)
  then show ?case by simp
next
  case (2 P x xs)
  let ?t = "takeWhile (\<lambda>y. \<not> P y) xs" and ?d = "dropWhile (\<lambda>y. \<not> P y) xs"
  show ?case
  proof (cases "P x")
    case True
    with 2 show ?thesis by (auto simp: sublist_Cons_right)
  next
    case False
    with "2.prems" consider "w = x # ?t" | "w \<in> set (words_by P ?d)" by auto
    then show ?thesis
    proof cases
      case 1
      have "prefix (x # ?t) (x # xs)" by (simp add: takeWhile_is_prefix)
      with 1 False show ?thesis by (auto dest: set_takeWhileD)
    next
      case 2
      with "2.IH"(2) [OF False 2] show ?thesis
        by (meson sublist_Cons_right sublist_order.order_trans suffix_dropWhile suffix_imp_sublist)
    qed
  qed
qed

lemma words_by_single: "w \<noteq> [] \<Longrightarrow> \<forall>x \<in> set w. \<not> P x \<Longrightarrow> words_by P w = [w]"
proof (cases w)
  case (Cons x w')
  assume "\<forall>x \<in> set w. \<not> P x"
  then have "takeWhile (\<lambda>y. \<not> P y) w' = w'" and "dropWhile (\<lambda>y. \<not> P y) w' = []"
    using Cons by simp_all
  with Cons \<open>\<forall>x \<in> set w. \<not> P x\<close> show ?thesis by (simp del: dropWhile_eq_Nil_conv)
qed simp

lemma words_by_append:
  assumes "w \<noteq> []" and "\<forall>x \<in> set w. \<not> P x" and "P d"
  shows "words_by P (w @ d # rest) = w # words_by P rest"
proof -
  from assms obtain x w' where w: "w = x # w'" by (cases w) auto
  have "takeWhile (\<lambda>y. \<not> P y) (w' @ d # rest) = w'"
    and "dropWhile (\<lambda>y. \<not> P y) (w' @ d # rest) = d # rest"
    using assms w by (simp_all add: takeWhile_append2 dropWhile_append2)
  then show ?thesis using assms w by simp
qed

lemma chars_word:
  "w \<in> set (words_by is_whitespace (chars s)) \<Longrightarrow> chars (concat w) = w"
  by (rule chars_concat, rule wf_chunks_sublist [OF wf_chunks_chars]) (blast dest: words_by_props)

lemma split_whitespace_no_whitespace:
  "t \<in> set (split_whitespace s) \<Longrightarrow> t \<noteq> [] \<and> \<not> has_whitespace t"
proof -
  assume "t \<in> set (split_whitespace s)"
  then obtain w where w: "w \<in> set (words_by is_whitespace (chars s))" and t: "t = concat w"
    by (auto simp: split_whitespace_def)
  have "chars t = w" using chars_word [OF w] t by simp
  with words_by_props [OF w] show ?thesis
    by (auto simp: has_whitespace_def simp flip: chars_eq_Nil_iff)
qed

lemma split_whitespace_tokens:
  assumes "on_boundary s" and "t \<in> set (split_whitespace s)"
  shows "is_token t"
proof -
  from assms(2) obtain w where w: "w \<in> set (words_by is_whitespace (chars s))" and t: "t = concat w"
    by (auto simp: split_whitespace_def)
  from words_by_props [OF w] have ne: "w \<noteq> []" and sub: "sublist w (chars s)" by auto
  from ne have "hd w \<in> set (chars s)"
    using set_mono_sublist [OF sub] by auto
  then have h: "\<not> is_continuation (hd (hd w))" "hd w \<noteq> []"
    using chars_heads_boundary [OF assms(1)] chars_nonempty by auto
  then have "hd t = hd (hd w)" using ne t by (cases w) auto
  with h have "on_boundary t" by (simp add: on_boundary_def)
  with split_whitespace_no_whitespace [OF assms(2)] show ?thesis by (simp add: is_token_def)
qed

lemma byte_val_less: "byte_val c < 256"
  by (simp add: byte_val_def)

lemma is_whitespace_space [simp]: "is_whitespace '' ''"
  by (simp add: is_whitespace_def byte_val_def)

lemma chars_token_word:
  "is_token t \<Longrightarrow> chars t \<noteq> [] \<and> (\<forall>c \<in> set (chars t). \<not> is_whitespace c)"
  by (auto simp: is_token_def has_whitespace_def)

lemma split_whitespace_single: "is_token t \<Longrightarrow> split_whitespace t = [t]"
  using chars_token_word [of t] by (simp add: split_whitespace_def words_by_single)

lemma on_boundary_space [simp]: "on_boundary (CHR '' '' # s)"
  by (simp add: on_boundary_def is_continuation_def byte_val_def)

lemma split_whitespace_Cons:
  assumes "is_token t" and "on_boundary s"
  shows "split_whitespace (t @ '' '' @ s) = t # split_whitespace s"
proof -
  have "chars ('' '' @ s) = [CHR '' ''] # chars s"
    using assms(2) chars_append [of s "'' ''"] by simp
  then have "chars (t @ '' '' @ s) = chars t @ '' '' # chars s"
    by (simp add: chars_append [of "CHR '' '' # s"])
  with chars_token_word [OF assms(1)] show ?thesis
    by (simp add: split_whitespace_def words_by_append)
qed

lemma on_boundary_join:
  "\<forall>t \<in> set ws. is_token t \<Longrightarrow> on_boundary (join sep ws)"
  by (induction sep ws rule: join.induct) (auto simp: is_token_def on_boundary_def)

lemma split_whitespace_join:
  "\<forall>t \<in> set ws. is_token t \<Longrightarrow> split_whitespace (join '' '' ws) = ws"
proof (induction "'' ''" ws rule: join.induct)
  case 1
  then show ?case by (simp add: split_whitespace_def)
next
  case (2 w)
  then show ?case by (simp add: split_whitespace_single)
next
  case (3 w v ws)
  have "on_boundary (join '' '' (v # ws))"
    using 3 by (intro on_boundary_join) auto
  with 3 show ?case by (simp add: split_whitespace_Cons [simplified])
qed

section \<open>Facts on decimal numbers\<close>

lemma digit_val_digit_char [simp]: "d < 10 \<Longrightarrow> digit_val (digit_char d) = d"
  by (simp add: digit_val_def digit_char_def byte_val_def)

lemma is_ascii_digit_digit_char [simp]: "d < 10 \<Longrightarrow> is_ascii_digit (digit_char d)"
  by (simp add: is_ascii_digit_def digit_char_def byte_val_def)

lemma nat_to_string_nonempty [simp]: "nat_to_string n \<noteq> []"
  by (subst nat_to_string.simps) simp

lemma nat_to_string_digits: "list_all is_ascii_digit (nat_to_string n)"
proof (induction n rule: nat_to_string.induct)
  case (1 n)
  then show ?case by (subst nat_to_string.simps) simp
qed

lemma digits_val_nat_to_string [simp]: "digits_val (nat_to_string n) = n"
proof (induction n rule: nat_to_string.induct)
  case (1 n)
  show ?case
  proof (cases "n < 10")
    case True
    then show ?thesis by (subst nat_to_string.simps) (simp add: digits_val_def)
  next
    case False
    with 1 have "digits_val (nat_to_string (n div 10)) = n div 10" by simp
    with False show ?thesis
      by (subst nat_to_string.simps) (simp add: digits_val_def)
  qed
qed

lemma parse_u64_to_string [simp]: "parse_u64 (u64_to_string w) = Some w"
proof -
  obtain c cs where s: "nat_to_string (unat w) = c # cs"
    by (cases "nat_to_string (unat w)") auto
  have "is_ascii_digit c" using nat_to_string_digits [of "unat w"] by (simp add: s)
  then have "c \<noteq> CHR ''+''" by (auto simp: is_ascii_digit_def byte_val_def)
  moreover have "digits_val (c # cs) = unat w" by (simp flip: s)
  moreover have "list_all is_ascii_digit (c # cs)"
    using nat_to_string_digits [of "unat w"] by (simp add: s)
  moreover have "unat w < 2 ^ 64" using unsigned_less [of w] by simp
  ultimately show ?thesis
    by (simp add: parse_u64_def u64_to_string_def s)
qed

end
