(* ===== verification/Errors.thy ===== *)
theory Errors
  imports Rust_Text
begin

text \<open>
  \<^verbatim>\<open>issuerd-core/src/error.rs\<close> and \<^verbatim>\<open>issuerd-protocol/src/error.rs\<close>: the
  OAuth2 error codes, the program's error type \<open>issuerd_error\<close>, its rendering
  (\<open>Display\<close>, from the \<open>#[error]\<close> attributes), its mapping to an OAuth2 code and to an
  HTTP status, and the JSON error response of the token endpoint.  The constructors of
  \<open>OAuth2ErrorCode\<close> carry the prefix \<open>OAuth_\<close>, since several names are shared with
  \<open>IssuerdError\<close>.
\<close>

section \<open>OAuth2 error codes\<close>

datatype oauth2_error_code =
    OAuth_InvalidRequest
  | OAuth_UnauthorizedClient
  | OAuth_AccessDenied
  | OAuth_UnsupportedResponseType
  | OAuth_InvalidScope
  | OAuth_ServerError
  | OAuth_TemporarilyUnavailable
  | OAuth_InvalidGrant
  | OAuth_InvalidToken
  | OAuth_InsufficientScope
  | OAuth_UnsupportedOperation
  | OAuth_LoginRequired
  | OAuth_ConsentRequired
  | OAuth_RequestNotSupported
  | OAuth_InvalidDpopProof
  | OAuth_InvalidAuthorizationDetails
  | OAuth_InvalidTarget
  | OAuth_InvalidBindingMessage

fun code_as_ref :: "oauth2_error_code \<Rightarrow> string" where
  "code_as_ref OAuth_InvalidRequest = ''invalid_request''"
| "code_as_ref OAuth_UnauthorizedClient = ''unauthorized_client''"
| "code_as_ref OAuth_AccessDenied = ''access_denied''"
| "code_as_ref OAuth_UnsupportedResponseType = ''unsupported_response_type''"
| "code_as_ref OAuth_InvalidScope = ''invalid_scope''"
| "code_as_ref OAuth_ServerError = ''server_error''"
| "code_as_ref OAuth_TemporarilyUnavailable = ''temporarily_unavailable''"
| "code_as_ref OAuth_InvalidGrant = ''invalid_grant''"
| "code_as_ref OAuth_InvalidToken = ''invalid_token''"
| "code_as_ref OAuth_InsufficientScope = ''insufficient_scope''"
| "code_as_ref OAuth_UnsupportedOperation = ''unsupported_operation''"
| "code_as_ref OAuth_LoginRequired = ''login_required''"
| "code_as_ref OAuth_ConsentRequired = ''consent_required''"
| "code_as_ref OAuth_RequestNotSupported = ''request_not_supported''"
| "code_as_ref OAuth_InvalidDpopProof = ''invalid_dpop_proof''"
| "code_as_ref OAuth_InvalidAuthorizationDetails = ''invalid_authorization_details''"
| "code_as_ref OAuth_InvalidTarget = ''invalid_target''"
| "code_as_ref OAuth_InvalidBindingMessage = ''invalid_binding_message''"

record oauth2_error =
  oe_error :: oauth2_error_code
  oe_description :: "string option"
  oe_uri :: "string option"
  oe_extra_params :: params

definition oauth2_error_new :: "oauth2_error_code \<Rightarrow> oauth2_error" where
  "oauth2_error_new c =
     \<lparr> oe_error = c, oe_description = None, oe_uri = None, oe_extra_params = Map.empty \<rparr>"

definition with_description :: "string \<Rightarrow> oauth2_error \<Rightarrow> oauth2_error" where
  "with_description d e = e\<lparr> oe_description := Some d \<rparr>"

section \<open>The program's error type\<close>

datatype issuerd_error =
    InvalidRequest string
  | UnauthorizedClient
  | AccessDenied
  | UnsupportedResponseType
  | InvalidGrant
  | InvalidScope
  | InvalidToken
  | InsufficientScope
  | ServerError string
  | TemporarilyUnavailable
  | NotFound
  | Conflict
  | UnsupportedOperation
  | LoginRequired
  | ConsentRequired
  | RequestNotSupported
  | InvalidDpopProof
  | InvalidAuthorizationDetails string
  | InvalidTarget string
  | InvalidBindingMessage string
  | KeyEncryption string

fun error_display :: "issuerd_error \<Rightarrow> string" where
  "error_display (InvalidRequest m) = ''invalid request: '' @ m"
| "error_display UnauthorizedClient = ''unauthorized client''"
| "error_display AccessDenied = ''access denied''"
| "error_display UnsupportedResponseType = ''unsupported response type''"
| "error_display InvalidGrant = ''invalid grant''"
| "error_display InvalidScope = ''invalid scope''"
| "error_display InvalidToken = ''invalid token''"
| "error_display InsufficientScope = ''insufficient scope''"
| "error_display (ServerError m) = ''server error: '' @ m"
| "error_display TemporarilyUnavailable = ''temporarily unavailable''"
| "error_display NotFound = ''not found''"
| "error_display Conflict = ''conflict''"
| "error_display UnsupportedOperation = ''unsupported operation''"
| "error_display LoginRequired = ''login required''"
| "error_display ConsentRequired = ''consent required''"
| "error_display RequestNotSupported = ''request not supported''"
| "error_display InvalidDpopProof = ''invalid DPoP proof''"
| "error_display (InvalidAuthorizationDetails m) = ''invalid authorization details: '' @ m"
| "error_display (InvalidTarget m) = ''invalid target: '' @ m"
| "error_display (InvalidBindingMessage m) = ''invalid binding message: '' @ m"
| "error_display (KeyEncryption m) = ''signing-key encryption error: '' @ m"

fun oauth_error_code :: "issuerd_error \<Rightarrow> oauth2_error_code" where
  "oauth_error_code (InvalidRequest _) = OAuth_InvalidRequest"
| "oauth_error_code UnauthorizedClient = OAuth_UnauthorizedClient"
| "oauth_error_code AccessDenied = OAuth_AccessDenied"
| "oauth_error_code UnsupportedResponseType = OAuth_UnsupportedResponseType"
| "oauth_error_code InvalidGrant = OAuth_InvalidGrant"
| "oauth_error_code InvalidScope = OAuth_InvalidScope"
| "oauth_error_code InvalidToken = OAuth_InvalidToken"
| "oauth_error_code InsufficientScope = OAuth_InsufficientScope"
| "oauth_error_code (ServerError _) = OAuth_ServerError"
| "oauth_error_code TemporarilyUnavailable = OAuth_TemporarilyUnavailable"
| "oauth_error_code NotFound = OAuth_ServerError"
| "oauth_error_code Conflict = OAuth_ServerError"
| "oauth_error_code UnsupportedOperation = OAuth_UnsupportedOperation"
| "oauth_error_code LoginRequired = OAuth_LoginRequired"
| "oauth_error_code ConsentRequired = OAuth_ConsentRequired"
| "oauth_error_code RequestNotSupported = OAuth_RequestNotSupported"
| "oauth_error_code InvalidDpopProof = OAuth_InvalidDpopProof"
| "oauth_error_code (InvalidAuthorizationDetails _) = OAuth_InvalidAuthorizationDetails"
| "oauth_error_code (InvalidTarget _) = OAuth_InvalidTarget"
| "oauth_error_code (InvalidBindingMessage _) = OAuth_InvalidBindingMessage"
| "oauth_error_code (KeyEncryption _) = OAuth_ServerError"

fun http_status :: "issuerd_error \<Rightarrow> nat" where
  "http_status (InvalidRequest _) = 400"
| "http_status UnauthorizedClient = 400"
| "http_status AccessDenied = 403"
| "http_status UnsupportedResponseType = 400"
| "http_status InvalidGrant = 400"
| "http_status InvalidScope = 400"
| "http_status InvalidToken = 401"
| "http_status InsufficientScope = 403"
| "http_status (ServerError _) = 500"
| "http_status TemporarilyUnavailable = 503"
| "http_status NotFound = 404"
| "http_status Conflict = 409"
| "http_status UnsupportedOperation = 501"
| "http_status LoginRequired = 400"
| "http_status ConsentRequired = 400"
| "http_status RequestNotSupported = 400"
| "http_status InvalidDpopProof = 400"
| "http_status (InvalidAuthorizationDetails _) = 400"
| "http_status (InvalidTarget _) = 400"
| "http_status (InvalidBindingMessage _) = 400"
| "http_status (KeyEncryption _) = 500"

definition to_oauth2_error :: "issuerd_error \<Rightarrow> oauth2_error" where
  "to_oauth2_error e = with_description (error_display e) (oauth2_error_new (oauth_error_code e))"

section \<open>The JSON error response of the protocol endpoints\<close>

record oauth2_error_response =
  er_error :: oauth2_error_code
  er_description :: "string option"
  er_uri :: "string option"
  er_state :: "string option"

definition error_response_from :: "issuerd_error \<Rightarrow> oauth2_error_response" where
  "error_response_from e =
     \<lparr> er_error = oauth_error_code e, er_description = Some (error_display e),
       er_uri = None, er_state = None \<rparr>"

section \<open>Facts\<close>

lemma code_as_ref_inj: "code_as_ref a = code_as_ref b \<longleftrightarrow> a = b"
  by (cases a; cases b) simp_all

lemma error_response_agrees:
  "er_error (error_response_from e) = oe_error (to_oauth2_error e)"
  "er_description (error_response_from e) = oe_description (to_oauth2_error e)"
  by (simp_all add: error_response_from_def to_oauth2_error_def with_description_def
      oauth2_error_new_def)

lemma http_status_server_error:
  "500 \<le> http_status e \<longleftrightarrow>
     oauth_error_code e = OAuth_TemporarilyUnavailable
     \<or> oauth_error_code e = OAuth_UnsupportedOperation
     \<or> (oauth_error_code e = OAuth_ServerError \<and> e \<noteq> NotFound \<and> e \<noteq> Conflict)"
  by (cases e) simp_all

end
