(* ===== verification/Cache.thy ===== *)
theory Cache
  imports Errors "HOL-Library.AList_Mapping"
begin

text \<open>
  The cache: the trait \<open>DistributedCache\<close> of \<^verbatim>\<open>issuerd-core/src/traits.rs\<close> as a record of
  operations on a cache state (its \<open>dyn\<close> object) with the default methods as definitions over
  that record, and the in-memory implementation of \<^verbatim>\<open>issuerd-cluster/src/cache.rs\<close>.  An
  operation runs atomically at one instant \<open>now\<close>; instants and durations are nanoseconds.
  The locale \<open>distributed_cache\<close> states the contract over the live entries; the in-memory
  cache is shown to implement it, the sweep of expired entries being invisible.
\<close>

section \<open>The trait\<close>

type_synonym entry = "bytes \<times> nat option"

record 's dist_cache =
  dc_get :: "nat \<Rightarrow> string \<Rightarrow> 's \<Rightarrow> (issuerd_error + bytes option) \<times> 's"
  dc_set :: "nat \<Rightarrow> string \<Rightarrow> bytes \<Rightarrow> nat option \<Rightarrow> 's \<Rightarrow> (issuerd_error + unit) \<times> 's"
  dc_delete :: "nat \<Rightarrow> string \<Rightarrow> 's \<Rightarrow> (issuerd_error + unit) \<times> 's"
  dc_get_and_delete :: "nat \<Rightarrow> string \<Rightarrow> 's \<Rightarrow> (issuerd_error + bytes option) \<times> 's"
  dc_compare_and_swap ::
    "nat \<Rightarrow> string \<Rightarrow> bytes option \<Rightarrow> bytes \<Rightarrow> 's \<Rightarrow> (issuerd_error + bool) \<times> 's"
  dc_compare_and_delete :: "nat \<Rightarrow> string \<Rightarrow> bytes \<Rightarrow> 's \<Rightarrow> (issuerd_error + bool) \<times> 's"
  dc_create_if_absent ::
    "nat \<Rightarrow> string \<Rightarrow> bytes \<Rightarrow> nat option \<Rightarrow> 's \<Rightarrow> (issuerd_error + bool) \<times> 's"
  dc_claim_and_create ::
    "nat \<Rightarrow> string \<Rightarrow> bytes \<Rightarrow> string \<Rightarrow> bytes \<Rightarrow> nat option \<Rightarrow> 's \<Rightarrow> (issuerd_error + bool) \<times> 's"
  dc_increment :: "nat \<Rightarrow> string \<Rightarrow> nat option \<Rightarrow> 's \<Rightarrow> (issuerd_error + u64) \<times> 's"

text \<open>Sequencing of calls that may fail (the \<open>?\<close> operator on awaited results).\<close>

definition call ::
    "('s \<Rightarrow> ('e + 'a) \<times> 's) \<Rightarrow> ('a \<Rightarrow> 's \<Rightarrow> ('e + 'b) \<times> 's) \<Rightarrow> 's \<Rightarrow> ('e + 'b) \<times> 's" where
  "call m f s = (case m s of (Inl e, s') \<Rightarrow> (Inl e, s') | (Inr x, s') \<Rightarrow> f x s')"

text \<open>The default methods of the trait.\<close>

definition default_get_and_delete ::
    "'s dist_cache \<Rightarrow> nat \<Rightarrow> string \<Rightarrow> 's \<Rightarrow> (issuerd_error + bytes option) \<times> 's" where
  "default_get_and_delete C now key =
     call (dc_get C now key) (\<lambda>v.
       if v \<noteq> None then call (dc_delete C now key) (\<lambda>_ s. (Inr v, s)) else (\<lambda>s. (Inr v, s)))"

definition default_compare_and_delete ::
    "'s dist_cache \<Rightarrow> nat \<Rightarrow> string \<Rightarrow> bytes \<Rightarrow> 's \<Rightarrow> (issuerd_error + bool) \<times> 's" where
  "default_compare_and_delete C now key expected =
     call (dc_compare_and_swap C now key (Some expected) []) (\<lambda>swapped.
       if \<not> swapped then (\<lambda>s. (Inr False, s))
       else call (dc_delete C now key) (\<lambda>_ s. (Inr True, s)))"

fun increment_loop ::
    "nat \<Rightarrow> 's dist_cache \<Rightarrow> nat \<Rightarrow> string \<Rightarrow> 's \<Rightarrow> (issuerd_error + u64) \<times> 's" where
  "increment_loop 0 C now key s = (Inl (ServerError (''increment contention on key '' @ key)), s)"
| "increment_loop (Suc n) C now key s =
     call (dc_get C now key) (\<lambda>current.
       let count = (case Option.bind current parse_u64 of Some w \<Rightarrow> w | None \<Rightarrow> 0);
           new_value = count + 1
       in call (dc_compare_and_swap C now key current (u64_to_string new_value)) (\<lambda>swapped.
            if swapped then (\<lambda>s. (Inr new_value, s)) else increment_loop n C now key)) s"

definition default_increment ::
    "'s dist_cache \<Rightarrow> nat \<Rightarrow> string \<Rightarrow> nat option \<Rightarrow> 's \<Rightarrow> (issuerd_error + u64) \<times> 's" where
  "default_increment C now key ttl = increment_loop 16 C now key"

section \<open>The in-memory cache\<close>

record 'h in_memory_cache =
  store :: "(string, entry) mapping"
  subscribers :: "(string, 'h list) mapping"
  created :: nat
  last_sweep_ms :: u64
  sweep_interval :: nat

definition NANOS_PER_SEC :: nat where "NANOS_PER_SEC = 1000000000"

definition from_secs :: "nat \<Rightarrow> nat" where "from_secs n = n * NANOS_PER_SEC"

definition SWEEP_INTERVAL :: nat where "SWEEP_INTERVAL = from_secs 30"

definition with_sweep_interval :: "nat \<Rightarrow> nat \<Rightarrow> 'h in_memory_cache" where
  "with_sweep_interval now interval =
     \<lparr>store = Mapping.empty, subscribers = Mapping.empty, created = now, last_sweep_ms = 0,
      sweep_interval = interval\<rparr>"

definition cache_new :: "nat \<Rightarrow> 'h in_memory_cache" where
  "cache_new now = with_sweep_interval now SWEEP_INTERVAL"

definition is_expired :: "nat \<Rightarrow> entry \<Rightarrow> bool" where
  "is_expired now e = (case snd e of Some x \<Rightarrow> x \<le> now | None \<Rightarrow> False)"

text \<open>\<open>u64::try_from(duration.as_millis()).unwrap_or(u64::MAX)\<close>.\<close>

definition millis_u64 :: "nat \<Rightarrow> u64" where
  "millis_u64 d = (let ms = d div 1000000 in if ms < 2 ^ 64 then of_nat ms else - 1)"

definition saturating_sub :: "u64 \<Rightarrow> u64 \<Rightarrow> u64" where
  "saturating_sub a b = (if a < b then 0 else a - b)"

definition maybe_sweep_expired :: "nat \<Rightarrow> 'h in_memory_cache \<Rightarrow> 'h in_memory_cache" where
  "maybe_sweep_expired now c =
     (let ms = millis_u64 (now - created c);
          interval = millis_u64 (sweep_interval c) in
      if saturating_sub ms (last_sweep_ms c) < interval then c
      else c\<lparr>last_sweep_ms := ms,
             store := Mapping.filter (\<lambda>_ e. \<not> is_expired now e) (store c)\<rparr>)"

abbreviation upd :: "string \<Rightarrow> entry \<Rightarrow> 'h in_memory_cache \<Rightarrow> 'h in_memory_cache" where
  "upd k e c \<equiv> c\<lparr>store := Mapping.update k e (store c)\<rparr>"

abbreviation del :: "string \<Rightarrow> 'h in_memory_cache \<Rightarrow> 'h in_memory_cache" where
  "del k c \<equiv> c\<lparr>store := Mapping.delete k (store c)\<rparr>"

definition expiry :: "nat \<Rightarrow> nat option \<Rightarrow> nat option" where
  "expiry now ttl = map_option (\<lambda>d. now + d) ttl"

definition mem_get ::
    "nat \<Rightarrow> string \<Rightarrow> 'h in_memory_cache \<Rightarrow> (issuerd_error + bytes option) \<times> 'h in_memory_cache" where
  "mem_get now key c =
     (case Mapping.lookup (store c) key of
        Some e \<Rightarrow> if is_expired now e then (Inr None, del key c) else (Inr (Some (fst e)), c)
      | None \<Rightarrow> (Inr None, c))"

definition mem_set ::
    "nat \<Rightarrow> string \<Rightarrow> bytes \<Rightarrow> nat option \<Rightarrow> 'h in_memory_cache
     \<Rightarrow> (issuerd_error + unit) \<times> 'h in_memory_cache" where
  "mem_set now key v ttl c = (Inr (), upd key (v, expiry now ttl) (maybe_sweep_expired now c))"

definition mem_delete ::
    "nat \<Rightarrow> string \<Rightarrow> 'h in_memory_cache \<Rightarrow> (issuerd_error + unit) \<times> 'h in_memory_cache" where
  "mem_delete now key c = (Inr (), del key c)"

definition mem_get_and_delete ::
    "nat \<Rightarrow> string \<Rightarrow> 'h in_memory_cache \<Rightarrow> (issuerd_error + bytes option) \<times> 'h in_memory_cache" where
  "mem_get_and_delete now key c =
     (let removed = Mapping.lookup (store c) key; c' = del key c in
      case removed of
        Some e \<Rightarrow> if is_expired now e then (Inr None, c') else (Inr (Some (fst e)), c')
      | None \<Rightarrow> (Inr None, c'))"

definition mem_compare_and_delete ::
    "nat \<Rightarrow> string \<Rightarrow> bytes \<Rightarrow> 'h in_memory_cache \<Rightarrow> (issuerd_error + bool) \<times> 'h in_memory_cache" where
  "mem_compare_and_delete now key expected c =
     (let c' = maybe_sweep_expired now c in
      case Mapping.lookup (store c') key of
        Some e \<Rightarrow> if is_expired now e then (Inr False, del key c')
                  else if fst e = expected then (Inr True, del key c')
                  else (Inr False, c')
      | None \<Rightarrow> (Inr False, c'))"

definition mem_create_if_absent ::
    "nat \<Rightarrow> string \<Rightarrow> bytes \<Rightarrow> nat option \<Rightarrow> 'h in_memory_cache
     \<Rightarrow> (issuerd_error + bool) \<times> 'h in_memory_cache" where
  "mem_create_if_absent now key v ttl c =
     (let c' = maybe_sweep_expired now c;
          create = (\<lambda>c. case Mapping.lookup (store c) key of
             None \<Rightarrow> (Inr True, upd key (v, expiry now ttl) c)
           | Some _ \<Rightarrow> (Inr False, c))
      in case Mapping.lookup (store c') key of
           Some e \<Rightarrow> if is_expired now e then create (del key c') else (Inr False, c')
         | None \<Rightarrow> create c')"

definition mem_claim_and_create ::
    "nat \<Rightarrow> string \<Rightarrow> bytes \<Rightarrow> string \<Rightarrow> bytes \<Rightarrow> nat option \<Rightarrow> 'h in_memory_cache
     \<Rightarrow> (issuerd_error + bool) \<times> 'h in_memory_cache" where
  "mem_claim_and_create now claim_key expected create_key create_value create_ttl c =
     (let c' = maybe_sweep_expired now c;
          matches = (case Mapping.lookup (store c') claim_key of
             Some e \<Rightarrow> \<not> is_expired now e \<and> fst e = expected | None \<Rightarrow> False)
      in if \<not> matches then (Inr False, c')
         else (Inr True, upd create_key (create_value, expiry now create_ttl) (del claim_key c')))"

definition mem_compare_and_swap ::
    "nat \<Rightarrow> string \<Rightarrow> bytes option \<Rightarrow> bytes \<Rightarrow> 'h in_memory_cache
     \<Rightarrow> (issuerd_error + bool) \<times> 'h in_memory_cache" where
  "mem_compare_and_swap now key expected new c =
     (let c' = maybe_sweep_expired now c in
      case Mapping.lookup (store c') key of
        Some e \<Rightarrow>
          if is_expired now e then
            (if expected = None then (Inr True, upd key (new, None) (del key c'))
             else (Inr False, del key c'))
          else (case expected of
              Some x \<Rightarrow> if fst e = x then (Inr True, upd key (new, snd e) c') else (Inr False, c')
            | None \<Rightarrow> (Inr False, c'))
      | None \<Rightarrow> if expected = None then (Inr True, upd key (new, None) c') else (Inr False, c'))"

definition mem_increment ::
    "nat \<Rightarrow> string \<Rightarrow> nat option \<Rightarrow> 'h in_memory_cache \<Rightarrow> (issuerd_error + u64) \<times> 'h in_memory_cache" where
  "mem_increment now key ttl c =
     (let c' = maybe_sweep_expired now c in
      case Mapping.lookup (store c') key of
        Some e \<Rightarrow>
          if is_expired now e then (Inr 1, upd key (''1'', expiry now ttl) c')
          else (let current = (case parse_u64 (fst e) of Some w \<Rightarrow> w | None \<Rightarrow> 0);
                    new_value = current + 1
                in (Inr new_value, upd key (u64_to_string new_value, snd e) c'))
      | None \<Rightarrow> (Inr 1, upd key (''1'', expiry now ttl) c'))"

text \<open>\<open>publish\<close> calls every handler of the channel in order; the calls are its result.\<close>

definition mem_publish :: "string \<Rightarrow> bytes \<Rightarrow> 'h in_memory_cache \<Rightarrow> ('h \<times> bytes) list" where
  "mem_publish channel message c =
     (case Mapping.lookup (subscribers c) channel of
        Some handlers \<Rightarrow> map (\<lambda>h. (h, message)) handlers | None \<Rightarrow> [])"

definition mem_subscribe :: "string \<Rightarrow> 'h \<Rightarrow> 'h in_memory_cache \<Rightarrow> 'h in_memory_cache" where
  "mem_subscribe channel handler c =
     c\<lparr>subscribers := Mapping.update channel
         (case Mapping.lookup (subscribers c) channel of Some v \<Rightarrow> v @ [handler] | None \<Rightarrow> [handler])
         (subscribers c)\<rparr>"

definition in_memory :: "'h in_memory_cache dist_cache" where
  "in_memory =
     \<lparr>dc_get = mem_get, dc_set = mem_set, dc_delete = mem_delete,
      dc_get_and_delete = mem_get_and_delete, dc_compare_and_swap = mem_compare_and_swap,
      dc_compare_and_delete = mem_compare_and_delete,
      dc_create_if_absent = mem_create_if_absent, dc_claim_and_create = mem_claim_and_create,
      dc_increment = mem_increment\<rparr>"

section \<open>The contract over live entries\<close>

definition live :: "nat \<Rightarrow> entry \<Rightarrow> bool" where
  "live t e \<longleftrightarrow> (case snd e of Some x \<Rightarrow> t < x | None \<Rightarrow> True)"

definition put :: "nat \<Rightarrow> string \<Rightarrow> entry \<Rightarrow> (string \<rightharpoonup> entry) \<Rightarrow> string \<rightharpoonup> entry" where
  "put t k e m = m(k := if live t e then Some e else None)"

text \<open>The counter an increment leaves behind: its value and its expiry.\<close>

definition counted :: "nat \<Rightarrow> nat option \<Rightarrow> entry option \<Rightarrow> u64 \<times> nat option" where
  "counted t ttl e =
     (case e of
        None \<Rightarrow> (1, expiry t ttl)
      | Some (b, x) \<Rightarrow> ((case parse_u64 b of Some w \<Rightarrow> w | None \<Rightarrow> 0) + 1, x))"

text \<open>What a client may rely on: \<open>view t s\<close> are the entries live at time \<open>t\<close> in the state \<open>s\<close>.\<close>

locale distributed_cache =
  fixes C :: "'s dist_cache"
    and view :: "nat \<Rightarrow> 's \<Rightarrow> string \<rightharpoonup> entry"
  assumes view_live: "view t s k = Some e \<Longrightarrow> live t e"
    and view_later: "t \<le> u \<Longrightarrow> view u s k = (case view t s k of
          Some e \<Rightarrow> if live u e then Some e else None | None \<Rightarrow> None)"
    and get_result: "fst (dc_get C t k s) = Inr (map_option fst (view t s k))"
    and get_view: "t \<le> u \<Longrightarrow> view u (snd (dc_get C t k s)) = view u s"
    and set_result: "fst (dc_set C t k v ttl s) = Inr ()"
    and set_view: "t \<le> u \<Longrightarrow> view u (snd (dc_set C t k v ttl s)) = put u k (v, expiry t ttl) (view u s)"
    and delete_result: "fst (dc_delete C t k s) = Inr ()"
    and delete_view: "t \<le> u \<Longrightarrow> view u (snd (dc_delete C t k s)) = (view u s)(k := None)"
    and get_and_delete_result: "fst (dc_get_and_delete C t k s) = Inr (map_option fst (view t s k))"
    and get_and_delete_view:
      "t \<le> u \<Longrightarrow> view u (snd (dc_get_and_delete C t k s)) = (view u s)(k := None)"
    and cas_result: "fst (dc_compare_and_swap C t k expected v s)
          = Inr (map_option fst (view t s k) = expected)"
    and cas_view: "t \<le> u \<Longrightarrow> view u (snd (dc_compare_and_swap C t k expected v s)) =
          (if map_option fst (view t s k) = expected
           then put u k (v, Option.bind (view t s k) snd) (view u s) else view u s)"
    and cad_result: "fst (dc_compare_and_delete C t k b s)
          = Inr (map_option fst (view t s k) = Some b)"
    and cad_view: "t \<le> u \<Longrightarrow> view u (snd (dc_compare_and_delete C t k b s)) =
          (if map_option fst (view t s k) = Some b then (view u s)(k := None) else view u s)"
    and create_result: "fst (dc_create_if_absent C t k v ttl s) = Inr (view t s k = None)"
    and create_view: "t \<le> u \<Longrightarrow> view u (snd (dc_create_if_absent C t k v ttl s)) =
          (if view t s k = None then put u k (v, expiry t ttl) (view u s) else view u s)"
    and claim_result: "fst (dc_claim_and_create C t k b k' v ttl s)
          = Inr (map_option fst (view t s k) = Some b)"
    and claim_view: "t \<le> u \<Longrightarrow> view u (snd (dc_claim_and_create C t k b k' v ttl s)) =
          (if map_option fst (view t s k) = Some b
           then put u k' (v, expiry t ttl) ((view u s)(k := None)) else view u s)"
    and increment_result: "fst (dc_increment C t k ttl s) = Inr (fst (counted t ttl (view t s k)))"
    and increment_view: "t \<le> u \<Longrightarrow> view u (snd (dc_increment C t k ttl s)) =
          (let (n, x) = counted t ttl (view t s k) in put u k (u64_to_string n, x) (view u s))"

section \<open>The in-memory cache implements it\<close>

definition mem_view :: "nat \<Rightarrow> 'h in_memory_cache \<Rightarrow> string \<rightharpoonup> entry" where
  "mem_view t c k =
     (case Mapping.lookup (store c) k of
        Some e \<Rightarrow> if is_expired t e then None else Some e | None \<Rightarrow> None)"

lemma is_expired_live: "is_expired t e \<longleftrightarrow> \<not> live t e"
  by (auto simp: is_expired_def live_def split: option.splits)

lemma live_earlier: "t \<le> u \<Longrightarrow> live u e \<Longrightarrow> live t e"
  by (auto simp: live_def split: option.splits)

lemma lookup_filter_entry:
  "Mapping.lookup (Mapping.filter P m) k =
     (case Mapping.lookup m k of None \<Rightarrow> None | Some v \<Rightarrow> if P k v then Some v else None)"
  by transfer (auto split: option.splits)

lemma lookup_delete_entry:
  "Mapping.lookup (Mapping.delete k m) k' = (if k' = k then None else Mapping.lookup m k')"
  by transfer auto

lemma mem_view_sweep [simp]:
  "t \<le> u \<Longrightarrow> mem_view u (maybe_sweep_expired t c) = mem_view u c"
  by (auto simp: fun_eq_iff mem_view_def maybe_sweep_expired_def Let_def lookup_filter_entry
      is_expired_live dest: live_earlier split: option.splits)

lemma mem_view_upd [simp]:
  "mem_view u (c\<lparr>store := Mapping.update k e m\<rparr>) = put u k e (mem_view u (c\<lparr>store := m\<rparr>))"
  by (auto simp: fun_eq_iff mem_view_def put_def lookup_update' is_expired_live split: option.splits)

lemma mem_view_del [simp]:
  "mem_view u (c\<lparr>store := Mapping.delete k m\<rparr>) = (mem_view u (c\<lparr>store := m\<rparr>))(k := None)"
  by (auto simp: fun_eq_iff mem_view_def lookup_delete_entry split: option.splits)

text \<open>What the swept store holds under a key, by what is live there.\<close>

lemma mem_lookup_cases:
  obtains (live) e where "Mapping.lookup (store c) k = Some e" "\<not> is_expired t e"
      "mem_view t c k = Some e"
  | (dead) e where "Mapping.lookup (store c) k = Some e" "is_expired t e" "mem_view t c k = None"
  | (absent) "Mapping.lookup (store c) k = None" "mem_view t c k = None"
  by (cases "Mapping.lookup (store c) k") (auto simp: mem_view_def split: if_splits)

lemma mem_view_gone: "t \<le> u \<Longrightarrow> mem_view t c k = None \<Longrightarrow> mem_view u c k = None"
  by (auto simp: mem_view_def is_expired_live dest: live_earlier split: option.splits if_splits)

lemma gone_upd [simp]: "m k = None \<Longrightarrow> m(k := None) = m"
  by auto

lemma put_del [simp]: "put u k e (m(k := None)) = put u k e m"
  by (simp add: put_def)

lemma u64_to_string_1: "u64_to_string 1 = ''1''"
  by code_simp

lemma mem_get_spec:
  "fst (mem_get t k c) = Inr (map_option fst (mem_view t c k))"
  "t \<le> u \<Longrightarrow> mem_view u (snd (mem_get t k c)) = mem_view u c"
  by (cases rule: mem_lookup_cases [of c k t]; simp add: mem_get_def mem_view_gone)+

lemma mem_get_and_delete_spec:
  "fst (mem_get_and_delete t k c) = Inr (map_option fst (mem_view t c k))"
  "mem_view u (snd (mem_get_and_delete t k c)) = (mem_view u c)(k := None)"
  by (cases rule: mem_lookup_cases [of c k t]; simp add: mem_get_and_delete_def Let_def)+

lemma mem_cas_spec:
  "fst (mem_compare_and_swap t k expected v c) = Inr (map_option fst (mem_view t c k) = expected)"
  "t \<le> u \<Longrightarrow> mem_view u (snd (mem_compare_and_swap t k expected v c)) =
     (if map_option fst (mem_view t c k) = expected
      then put u k (v, Option.bind (mem_view t c k) snd) (mem_view u c) else mem_view u c)"
  by (cases rule: mem_lookup_cases [of "maybe_sweep_expired t c" k t];
      cases expected; auto simp: mem_compare_and_swap_def Let_def mem_view_gone)+

lemma mem_cad_spec:
  "fst (mem_compare_and_delete t k b c) = Inr (map_option fst (mem_view t c k) = Some b)"
  "t \<le> u \<Longrightarrow> mem_view u (snd (mem_compare_and_delete t k b c)) =
     (if map_option fst (mem_view t c k) = Some b then (mem_view u c)(k := None) else mem_view u c)"
  by (cases rule: mem_lookup_cases [of "maybe_sweep_expired t c" k t];
      auto simp: mem_compare_and_delete_def Let_def mem_view_gone)+

lemma mem_create_spec:
  "fst (mem_create_if_absent t k v ttl c) = Inr (mem_view t c k = None)"
  "t \<le> u \<Longrightarrow> mem_view u (snd (mem_create_if_absent t k v ttl c)) =
     (if mem_view t c k = None then put u k (v, expiry t ttl) (mem_view u c) else mem_view u c)"
  by (cases rule: mem_lookup_cases [of "maybe_sweep_expired t c" k t];
      simp add: mem_create_if_absent_def Let_def lookup_delete_entry)+

lemma mem_claim_spec:
  "fst (mem_claim_and_create t k b k' v ttl c) = Inr (map_option fst (mem_view t c k) = Some b)"
  "t \<le> u \<Longrightarrow> mem_view u (snd (mem_claim_and_create t k b k' v ttl c)) =
     (if map_option fst (mem_view t c k) = Some b
      then put u k' (v, expiry t ttl) ((mem_view u c)(k := None)) else mem_view u c)"
  by (cases rule: mem_lookup_cases [of "maybe_sweep_expired t c" k t];
      simp add: mem_claim_and_create_def Let_def)+

lemma mem_increment_spec:
  "fst (mem_increment t k ttl c) = Inr (fst (counted t ttl (mem_view t c k)))"
  "t \<le> u \<Longrightarrow> mem_view u (snd (mem_increment t k ttl c)) =
     (let (n, x) = counted t ttl (mem_view t c k) in put u k (u64_to_string n, x) (mem_view u c))"
  by (cases rule: mem_lookup_cases [of "maybe_sweep_expired t c" k t];
      auto simp: mem_increment_def Let_def counted_def u64_to_string_1 split: prod.splits)+

interpretation mem: distributed_cache in_memory mem_view
proof
  fix t u :: nat and k and c :: "'h in_memory_cache"
  show "mem_view t c k = Some e \<Longrightarrow> live t e" for e
    by (auto simp: mem_view_def is_expired_live split: option.splits if_splits)
  show "t \<le> u \<Longrightarrow> mem_view u c k = (case mem_view t c k of
          Some e \<Rightarrow> if live u e then Some e else None | None \<Rightarrow> None)"
    by (auto simp: mem_view_def is_expired_live dest: live_earlier split: option.splits)
qed (simp_all add: in_memory_def mem_get_spec mem_get_and_delete_spec mem_cas_spec mem_cad_spec
    mem_create_spec mem_claim_spec mem_increment_spec mem_set_def mem_delete_def)


end
