(* ===== verification/Glob.thy ===== *)
theory Glob
  imports Cache "HOL-Library.While_Combinator"
begin

text \<open>
  Key patterns: \<open>glob_match\<close> and \<open>scan_keys\<close> of \<^verbatim>\<open>issuerd-cluster/src/cache.rs\<close> and
  \<open>escape_scan_pattern\<close> of \<^verbatim>\<open>issuerd-core/src/traits.rs\<close>.  The matcher is the index loop
  of the source with its single backtracking point; it always stops and decides the
  declarative meaning \<open>glob_spec\<close> of a pattern.
\<close>

section \<open>Model\<close>

record glob_state =
  g_pi :: nat
  g_ki :: nat
  g_star :: "(nat \<times> nat) option"
  g_failed :: bool

definition literal_width :: "string \<Rightarrow> string \<Rightarrow> nat \<Rightarrow> nat \<Rightarrow> nat option" where
  "literal_width p k pi ki =
     (if \<not> pi < length p then None
      else if p ! pi = CHR 0x5C \<and> pi + 1 < length p
        then (if p ! (pi + 1) = k ! ki then Some 2 else None)
      else if p ! pi = CHR ''*'' then None
      else if p ! pi = k ! ki then Some 1 else None)"

definition glob_step :: "string \<Rightarrow> string \<Rightarrow> glob_state \<Rightarrow> glob_state" where
  "glob_step p k s =
     (if g_pi s < length p \<and> p ! g_pi s = CHR ''*''
      then s\<lparr>g_star := Some (g_pi s, g_ki s), g_pi := g_pi s + 1\<rparr>
      else case literal_width p k (g_pi s) (g_ki s) of
          Some w \<Rightarrow> s\<lparr>g_pi := g_pi s + w, g_ki := g_ki s + 1\<rparr>
        | None \<Rightarrow> (case g_star s of
              Some (sp, sk) \<Rightarrow>
                s\<lparr>g_pi := sp + 1, g_ki := sk + 1, g_star := Some (sp, sk + 1)\<rparr>
            | None \<Rightarrow> s\<lparr>g_failed := True\<rparr>))"

text \<open>The loop; \<open>None\<close> would mean that it does not stop.\<close>

definition glob_match :: "string \<Rightarrow> string \<Rightarrow> bool option" where
  "glob_match p k =
     map_option
       (\<lambda>s. \<not> g_failed s
         \<and> g_pi s + length (takeWhile (\<lambda>c. c = CHR ''*'') (drop (g_pi s) p)) = length p)
       (while_option (\<lambda>s. g_ki s < length k \<and> \<not> g_failed s) (glob_step p k)
          \<lparr>g_pi = 0, g_ki = 0, g_star = None, g_failed = False\<rparr>)"

definition is_glob_meta :: "uchar \<Rightarrow> bool" where
  "is_glob_meta c \<longleftrightarrow> c \<in> {''*'', ''?'', ''['', '']'', [CHR 0x5C]}"

definition escape_scan_pattern :: "string \<Rightarrow> string" where
  "escape_scan_pattern literal =
     concat (map (\<lambda>c. if is_glob_meta c then CHR 0x5C # c else c) (chars literal))"

definition mem_scan_keys :: "nat \<Rightarrow> string \<Rightarrow> 'h in_memory_cache \<Rightarrow> string set" where
  "mem_scan_keys now pattern c =
     Set.filter (\<lambda>key. (case Mapping.lookup (store c) key of
                          Some e \<Rightarrow> \<not> is_expired now e | None \<Rightarrow> False)
                       \<and> glob_match pattern key = Some True)
       (Mapping.keys (store c))"

section \<open>The meaning of a pattern\<close>

fun glob_spec :: "string \<Rightarrow> string \<Rightarrow> bool" where
  "glob_spec [] ks \<longleftrightarrow> ks = []"
| "glob_spec (c # ps) [] \<longleftrightarrow> c = CHR ''*'' \<and> glob_spec ps []"
| "glob_spec (c # ps) (b # ks) \<longleftrightarrow>
     (if c = CHR ''*'' then glob_spec ps (b # ks) \<or> glob_spec (c # ps) ks
      else if c = CHR 0x5C \<and> ps \<noteq> [] then b = hd ps \<and> glob_spec (tl ps) ks
      else b = c \<and> glob_spec ps ks)"

lemma glob_spec_star_iff:
  "glob_spec (CHR ''*'' # ps) ks \<longleftrightarrow> (\<exists>j \<le> length ks. glob_spec ps (drop j ks))"
proof (induction ks)
  case Nil
  then show ?case by simp
next
  case (Cons b ks)
  have "glob_spec (CHR ''*'' # ps) (b # ks) \<longleftrightarrow>
      glob_spec ps (b # ks) \<or> (\<exists>j \<le> length ks. glob_spec ps (drop j ks))"
    using Cons.IH by simp
  also have "\<dots> \<longleftrightarrow> (\<exists>j \<le> length (b # ks). glob_spec ps (drop j (b # ks)))"
    by (metis Suc_le_mono drop0 drop_Suc_Cons le0 length_Cons not0_implies_Suc)
  finally show ?case .
qed

lemma glob_spec_Nil_key: "glob_spec ps [] \<longleftrightarrow> dropWhile (\<lambda>c. c = CHR ''*'') ps = []"
  by (induction ps) auto

text \<open>One pattern position against one key position.\<close>

lemma glob_spec_literal:
  assumes "pi < length p" and "p ! pi \<noteq> CHR ''*''" and "ki < length k"
  shows "glob_spec (drop pi p) (drop ki k) \<longleftrightarrow>
    (\<exists>w. literal_width p k pi ki = Some w \<and> glob_spec (drop (pi + w) p) (drop (ki + 1) k))"
proof -
  have p: "drop pi p = p ! pi # drop (pi + 1) p" and k: "drop ki k = k ! ki # drop (ki + 1) k"
    using assms by (simp_all add: Cons_nth_drop_Suc)
  show ?thesis
  proof (cases "p ! pi = CHR 0x5C \<and> pi + 1 < length p")
    case True
    then have "drop (pi + 1) p = p ! (pi + 1) # drop (pi + 2) p"
      by (simp add: Cons_nth_drop_Suc)
    with True assms(2) show ?thesis
      unfolding p k by (auto simp: literal_width_def)
  next
    case False
    with assms(1,2) show ?thesis
      unfolding p k by (auto simp: literal_width_def)
  qed
qed

lemma glob_spec_no_key:
  assumes "pi < length p" and "p ! pi \<noteq> CHR ''*''"
  shows "\<not> glob_spec (drop pi p) []"
  using assms by (simp add: Cons_nth_drop_Suc [symmetric])

section \<open>The loop decides it\<close>

text \<open>The last star met and the literals matched since: any way to match the pattern after the
  star also consumes as many bytes as the loop has, and the loop's own way is one.\<close>

definition star_inv :: "string \<Rightarrow> string \<Rightarrow> glob_state \<Rightarrow> nat \<Rightarrow> nat \<Rightarrow> bool" where
  "star_inv p k s sp sk \<longleftrightarrow>
     sp < g_pi s \<and> sp < length p \<and> p ! sp = CHR ''*''
     \<and> (glob_spec p k \<longleftrightarrow> glob_spec (drop sp p) (drop sk k))
     \<and> (\<exists>n. g_ki s = sk + n
          \<and> (\<forall>j \<le> length k. glob_spec (drop (sp + 1) p) (drop j k) \<longrightarrow>
               j + n \<le> length k \<and> glob_spec (drop (g_pi s) p) (drop (j + n) k)))
     \<and> (glob_spec (drop (g_pi s) p) (drop (g_ki s) k) \<longrightarrow>
          glob_spec (drop (sp + 1) p) (drop sk k))"

definition glob_inv :: "string \<Rightarrow> string \<Rightarrow> glob_state \<Rightarrow> bool" where
  "glob_inv p k s \<longleftrightarrow>
     g_pi s \<le> length p \<and> g_ki s \<le> length k
     \<and> (g_failed s \<longrightarrow> \<not> glob_spec p k)
     \<and> (\<not> g_failed s \<longrightarrow>
         (case g_star s of
            None \<Rightarrow> glob_spec p k \<longleftrightarrow> glob_spec (drop (g_pi s) p) (drop (g_ki s) k)
          | Some (sp, sk) \<Rightarrow> star_inv p k s sp sk))"

lemma glob_spec_star_drop:
  assumes "sp < length p" and "p ! sp = CHR ''*''" and "sk \<le> length k"
  shows "glob_spec (drop sp p) (drop sk k) \<longleftrightarrow>
    (\<exists>j. sk \<le> j \<and> j \<le> length k \<and> glob_spec (drop (sp + 1) p) (drop j k))"
proof -
  have "drop sp p = CHR ''*'' # drop (sp + 1) p"
    using assms by (simp add: Cons_nth_drop_Suc [symmetric])
  then have "glob_spec (drop sp p) (drop sk k) \<longleftrightarrow>
      (\<exists>i \<le> length k - sk. glob_spec (drop (sp + 1) p) (drop (i + sk) k))"
    by (simp add: glob_spec_star_iff)
  also have "\<dots> \<longleftrightarrow> (\<exists>j. sk \<le> j \<and> j \<le> length k \<and> glob_spec (drop (sp + 1) p) (drop j k))"
    using assms(3) by (metis add_le_cancel_right le_add2 le_add_diff_inverse2)
  finally show ?thesis .
qed

lemma star_absorbs:
  assumes "sp < length p" and "p ! sp = CHR ''*''" and "i \<le> j" and "j \<le> length k"
    and "glob_spec (drop sp p) (drop j k)"
  shows "glob_spec (drop sp p) (drop i k)"
  using assms by (auto simp: glob_spec_star_drop) (meson order_trans)

text \<open>A new star: what came before it is decided.\<close>

lemma star_inv_consumed:
  assumes "star_inv p k s sp sk"
  obtains n where "g_ki s = sk + n"
    and "\<And>j. j \<le> length k \<Longrightarrow> glob_spec (drop (sp + 1) p) (drop j k) \<Longrightarrow>
      j + n \<le> length k \<and> glob_spec (drop (g_pi s) p) (drop (j + n) k)"
  using assms by (auto simp: star_inv_def)

lemma star_inv_decided:
  assumes "star_inv p k s sp sk" and "g_ki s \<le> length k"
  shows "glob_spec p k \<longleftrightarrow>
    (\<exists>j. sk \<le> j \<and> j \<le> length k \<and> glob_spec (drop (sp + 1) p) (drop j k))"
proof -
  have "sk \<le> length k"
    using assms by (auto simp: star_inv_def)
  then show ?thesis
    using assms(1) glob_spec_star_drop [of sp p sk k] by (simp add: star_inv_def)
qed

lemma new_star_decides:
  assumes inv: "star_inv p k s sp sk" and pi: "g_pi s < length p" "p ! g_pi s = CHR ''*''"
    and ki: "g_ki s \<le> length k"
  shows "glob_spec p k \<longleftrightarrow> glob_spec (drop (g_pi s) p) (drop (g_ki s) k)"
proof
  assume "glob_spec p k"
  then obtain j where j: "sk \<le> j" "j \<le> length k" "glob_spec (drop (sp + 1) p) (drop j k)"
    using star_inv_decided [OF inv ki] by blast
  obtain n where n: "g_ki s = sk + n" "j + n \<le> length k"
      "glob_spec (drop (g_pi s) p) (drop (j + n) k)"
    using star_inv_consumed [OF inv] j(2,3) by metis
  with j(1) show "glob_spec (drop (g_pi s) p) (drop (g_ki s) k)"
    using star_absorbs [OF pi, of "g_ki s" "j + n" k] by simp
next
  assume "glob_spec (drop (g_pi s) p) (drop (g_ki s) k)"
  with inv have "glob_spec (drop (sp + 1) p) (drop sk k)" and "sk \<le> g_ki s"
    by (auto simp: star_inv_def)
  with ki show "glob_spec p k"
    using star_inv_decided [OF inv ki] by (meson order_refl order_trans)
qed

lemma glob_step_star:
  assumes "glob_inv p k s" and "\<not> g_failed s" and "g_pi s < length p" and "p ! g_pi s = CHR ''*''"
  shows "glob_inv p k (s\<lparr>g_star := Some (g_pi s, g_ki s), g_pi := g_pi s + 1\<rparr>)"
proof -
  have "glob_spec p k \<longleftrightarrow> glob_spec (drop (g_pi s) p) (drop (g_ki s) k)"
    using assms new_star_decides [of p k s]
    by (auto simp: glob_inv_def split: option.splits prod.splits)
  with assms show ?thesis
    by (auto simp: glob_inv_def star_inv_def)
qed

lemma glob_step_literal:
  assumes inv: "glob_inv p k s" and nf: "\<not> g_failed s" and ki: "g_ki s < length k"
    and w: "literal_width p k (g_pi s) (g_ki s) = Some w"
    and ns: "\<not> (g_pi s < length p \<and> p ! g_pi s = CHR ''*'')"
  shows "glob_inv p k (s\<lparr>g_pi := g_pi s + w, g_ki := g_ki s + 1\<rparr>)"
proof -
  have pi: "g_pi s < length p" and pw: "g_pi s + w \<le> length p"
    using w by (auto simp: literal_width_def split: if_splits)
  have same: "glob_spec (drop (g_pi s) p) (drop (g_ki s) k) \<longleftrightarrow>
      glob_spec (drop (g_pi s + w) p) (drop (g_ki s + 1) k)"
    using glob_spec_literal [OF pi _ ki] ns pi w by auto
  have shift: "j < length k \<and> glob_spec (drop (g_pi s + w) p) (drop (j + 1) k)"
    if jk: "j \<le> length k" and jm: "glob_spec (drop (g_pi s) p) (drop j k)" for j
  proof -
    have "j < length k"
      using jk jm glob_spec_no_key [OF pi] ns pi by (cases "j = length k") auto
    moreover obtain v where "literal_width p k (g_pi s) j = Some v"
      and "glob_spec (drop (g_pi s + v) p) (drop (j + 1) k)"
      using glob_spec_literal [OF pi _ \<open>j < length k\<close>] jm ns pi by auto
    moreover have "v = w"
      using w \<open>literal_width p k (g_pi s) j = Some v\<close>
      by (auto simp: literal_width_def split: if_splits)
    ultimately show ?thesis by simp
  qed
  show ?thesis
  proof (cases "g_star s")
    case None
    with inv nf same ki pw show ?thesis
      by (simp add: glob_inv_def)
  next
    case (Some st)
    obtain sp sk where st: "st = (sp, sk)"
      by (cases st)
    from inv nf Some st have si: "star_inv p k s sp sk"
      by (simp add: glob_inv_def)
    obtain n where n: "g_ki s = sk + n"
      and follow: "\<And>j. j \<le> length k \<Longrightarrow> glob_spec (drop (sp + 1) p) (drop j k) \<Longrightarrow>
        j + n \<le> length k \<and> glob_spec (drop (g_pi s) p) (drop (j + n) k)"
      using star_inv_consumed [OF si] by blast
    have "j + (n + 1) \<le> length k \<and> glob_spec (drop (g_pi s + w) p) (drop (j + (n + 1)) k)"
      if "j \<le> length k" and "glob_spec (drop (sp + 1) p) (drop j k)" for j
      using follow [OF that] shift [of "j + n"] by auto
    with si n same have "star_inv p k (s\<lparr>g_pi := g_pi s + w, g_ki := g_ki s + 1\<rparr>) sp sk"
      unfolding star_inv_def by (auto intro!: exI [of _ "n + 1"])
    with inv nf Some st ki pw show ?thesis
      by (simp add: glob_inv_def)
  qed
qed

lemma glob_step_backtrack:
  assumes inv: "glob_inv p k s" and nf: "\<not> g_failed s" and ki: "g_ki s < length k"
    and none: "literal_width p k (g_pi s) (g_ki s) = None"
    and ns: "\<not> (g_pi s < length p \<and> p ! g_pi s = CHR ''*'')"
    and star: "g_star s = Some (sp, sk)"
  shows "glob_inv p k (s\<lparr>g_pi := sp + 1, g_ki := sk + 1, g_star := Some (sp, sk + 1)\<rparr>)"
proof -
  from inv nf star have si: "star_inv p k s sp sk"
    by (simp add: glob_inv_def)
  have mismatch: "\<not> glob_spec (drop (g_pi s) p) (drop (g_ki s) k)"
  proof (cases "g_pi s < length p")
    case True
    with glob_spec_literal [OF True _ ki] ns none show ?thesis by auto
  next
    case False
    with ki show ?thesis by simp
  qed
  obtain n where n: "g_ki s = sk + n"
    and follow: "\<And>j. j \<le> length k \<Longrightarrow> glob_spec (drop (sp + 1) p) (drop j k) \<Longrightarrow>
      j + n \<le> length k \<and> glob_spec (drop (g_pi s) p) (drop (j + n) k)"
    using star_inv_consumed [OF si] by blast
  have skip: "\<not> glob_spec (drop (sp + 1) p) (drop sk k)"
    using follow [of sk] mismatch n ki by auto
  have p: "sp < length p" "p ! sp = CHR ''*''"
    using si by (simp_all add: star_inv_def)
  have "glob_spec p k \<longleftrightarrow> (\<exists>j. sk \<le> j \<and> j \<le> length k \<and> glob_spec (drop (sp + 1) p) (drop j k))"
    using star_inv_decided [OF si] ki by simp
  also have "\<dots> \<longleftrightarrow> (\<exists>j. sk + 1 \<le> j \<and> j \<le> length k \<and> glob_spec (drop (sp + 1) p) (drop j k))"
    using skip by (auto simp: Suc_le_eq le_less [of sk])
  also have "\<dots> \<longleftrightarrow> glob_spec (drop sp p) (drop (sk + 1) k)"
    using glob_spec_star_drop [OF p, of "sk + 1" k] n ki by simp
  finally have "glob_spec p k \<longleftrightarrow> glob_spec (drop sp p) (drop (sk + 1) k)" .
  with p n ki inv nf show ?thesis
    by (auto simp: glob_inv_def star_inv_def)
qed

lemma glob_step_fail:
  assumes inv: "glob_inv p k s" and nf: "\<not> g_failed s" and ki: "g_ki s < length k"
    and none: "literal_width p k (g_pi s) (g_ki s) = None"
    and ns: "\<not> (g_pi s < length p \<and> p ! g_pi s = CHR ''*'')"
    and star: "g_star s = None"
  shows "glob_inv p k (s\<lparr>g_failed := True\<rparr>)"
proof -
  have "\<not> glob_spec (drop (g_pi s) p) (drop (g_ki s) k)"
  proof (cases "g_pi s < length p")
    case True
    with glob_spec_literal [OF True _ ki] ns none show ?thesis by auto
  next
    case False
    with ki show ?thesis by simp
  qed
  with inv nf star show ?thesis
    by (simp add: glob_inv_def)
qed

lemma glob_step_inv:
  assumes "glob_inv p k s" and "g_ki s < length k" and "\<not> g_failed s"
  shows "glob_inv p k (glob_step p k s)"
  using assms glob_step_star [of p k s] glob_step_literal [of p k s] glob_step_backtrack [of p k s]
    glob_step_fail [of p k s]
  unfolding glob_step_def
  by (cases "g_pi s < length p \<and> p ! g_pi s = CHR ''*''") (auto split: option.split prod.split)

text \<open>Progress: a star position further right, the same star further along the key, or the
  key position itself.\<close>

definition glob_rank :: "string \<Rightarrow> string \<Rightarrow> glob_state \<Rightarrow> nat \<times> nat \<times> nat \<times> nat" where
  "glob_rank p k s =
     (if g_failed s then 0 else 1,
      case g_star s of None \<Rightarrow> length p + 1 | Some (sp, _) \<Rightarrow> length p - sp,
      case g_star s of None \<Rightarrow> 0 | Some (_, sk) \<Rightarrow> length k - sk,
      length k - g_ki s)"

lemma glob_step_progress:
  assumes "glob_inv p k s" and "g_ki s < length k" and "\<not> g_failed s"
  shows "(glob_step p k s, s)
    \<in> inv_image (less_than <*lex*> less_than <*lex*> less_than <*lex*> less_than) (glob_rank p k)"
  using assms
  by (auto simp: glob_step_def glob_rank_def glob_inv_def star_inv_def split: option.split prod.split)

lemma glob_inv_init: "glob_inv p k \<lparr>g_pi = 0, g_ki = 0, g_star = None, g_failed = False\<rparr>"
  by (simp add: glob_inv_def)

lemma glob_loop_stops:
  "\<exists>s. while_option (\<lambda>s. g_ki s < length k \<and> \<not> g_failed s) (glob_step p k)
     \<lparr>g_pi = 0, g_ki = 0, g_star = None, g_failed = False\<rparr> = Some s"
  by (rule wf_rel_while_option_Some
      [where R = "inv_image (less_than <*lex*> less_than <*lex*> less_than <*lex*> less_than)
         (glob_rank p k)" and P = "glob_inv p k"])
    (auto intro: glob_step_inv glob_step_progress glob_inv_init simp del: in_inv_image)

text \<open>With the key used up the last star has nothing left to absorb.\<close>

lemma star_inv_final:
  assumes inv: "star_inv p k s sp sk" and ki: "g_ki s = length k"
  shows "glob_spec p k \<longleftrightarrow> glob_spec (drop (g_pi s) p) []"
proof
  assume "glob_spec p k"
  then obtain j where j: "sk \<le> j" "j \<le> length k" "glob_spec (drop (sp + 1) p) (drop j k)"
    using star_inv_decided [OF inv] ki by auto
  obtain n where "g_ki s = sk + n" "j + n \<le> length k"
      "glob_spec (drop (g_pi s) p) (drop (j + n) k)"
    using star_inv_consumed [OF inv] j(2,3) by metis
  with j(1) ki show "glob_spec (drop (g_pi s) p) []"
    by simp
next
  assume "glob_spec (drop (g_pi s) p) []"
  with inv ki have "glob_spec (drop (sp + 1) p) (drop sk k)" and "sk \<le> length k"
    by (auto simp: star_inv_def)
  then show "glob_spec p k"
    using star_inv_decided [OF inv] ki by auto
qed

lemma glob_inv_final:
  assumes "glob_inv p k s" and "\<not> (g_ki s < length k \<and> \<not> g_failed s)"
  shows "glob_spec p k \<longleftrightarrow> \<not> g_failed s \<and> glob_spec (drop (g_pi s) p) []"
proof (cases "g_failed s")
  case True
  with assms show ?thesis by (simp add: glob_inv_def)
next
  case False
  with assms have "g_ki s = length k"
    by (simp add: glob_inv_def)
  with assms(1) False show ?thesis
    using star_inv_final [of p k s] by (auto simp: glob_inv_def split: option.splits prod.splits)
qed

lemma trailing_stars:
  assumes "i \<le> length p"
  shows "glob_spec (drop i p) [] \<longleftrightarrow>
    i + length (takeWhile (\<lambda>c. c = CHR ''*'') (drop i p)) = length p"
proof -
  let ?P = "\<lambda>c. c = CHR ''*''"
  have "length (takeWhile ?P (drop i p)) + length (dropWhile ?P (drop i p)) = length p - i"
    by (metis length_append length_drop takeWhile_dropWhile_id)
  with assms show ?thesis
    unfolding glob_spec_Nil_key by (metis add.commute add_0 add_cancel_right_right
        le_add_diff_inverse2 length_0_conv add_left_imp_eq)
qed

lemma glob_match_total: "glob_match p k = Some (glob_spec p k)"
proof -
  obtain s where s: "while_option (\<lambda>s. g_ki s < length k \<and> \<not> g_failed s) (glob_step p k)
      \<lparr>g_pi = 0, g_ki = 0, g_star = None, g_failed = False\<rparr> = Some s"
    using glob_loop_stops by blast
  have inv: "glob_inv p k s"
    by (rule while_option_rule [where P = "glob_inv p k", OF _ s glob_inv_init])
      (blast intro: glob_step_inv)
  then have "g_pi s \<le> length p"
    by (simp add: glob_inv_def)
  with glob_inv_final [OF inv while_option_stop [OF s]] s show ?thesis
    by (simp add: glob_match_def trailing_stars)
qed

text \<open>(C25) The pattern matcher always returns, and it returns whether the key matches the
  pattern: a star stands for any bytes, a backslash makes the next byte literal, a lone
  trailing backslash and every other byte stand for themselves.\<close>

theorem glob_match_decides: "\<exists>b. glob_match p k = Some b \<and> (b \<longleftrightarrow> glob_spec p k)"
  by (simp add: glob_match_total)

section \<open>Escaped literals\<close>

text \<open>Every Rust string is valid UTF-8, so an ASCII byte is a character of its own.\<close>

definition utf8_ascii :: "string \<Rightarrow> bool" where
  "utf8_ascii s \<longleftrightarrow> (\<forall>c \<in> set (chars s). is_ascii_char (hd c) \<longrightarrow> length c = 1)"

lemma glob_spec_plain:
  assumes "\<forall>b \<in> set c. b \<noteq> CHR ''*'' \<and> b \<noteq> CHR 0x5C"
  shows "glob_spec (c @ rest) k \<longleftrightarrow> (\<exists>t. k = c @ t \<and> glob_spec rest t)"
  using assms
proof (induction c arbitrary: k)
  case (Cons b c)
  then show ?case by (cases k) auto
qed simp

lemma glob_spec_escaped:
  "glob_spec (CHR 0x5C # b # rest) k \<longleftrightarrow> (\<exists>t. k = b # t \<and> glob_spec rest t)"
  by (cases k) auto

lemma plain_chunk:
  assumes "c \<in> set (chars s)" and "utf8_ascii s" and "\<not> is_glob_meta c"
  shows "\<forall>b \<in> set c. b \<noteq> CHR ''*'' \<and> b \<noteq> CHR 0x5C"
proof
  fix b assume b: "b \<in> set c"
  obtain a cs where c: "c = a # cs"
    using chars_nonempty [OF assms(1)] by (cases c) auto
  show "b \<noteq> CHR ''*'' \<and> b \<noteq> CHR 0x5C"
  proof (cases "b \<in> set cs")
    case True
    then have "is_continuation b"
      using chars_tail_continuation [OF assms(1)] c by simp
    then show ?thesis
      by (auto simp: is_continuation_def byte_val_def)
  next
    case False
    with b c have "b = a" by simp
    show ?thesis
    proof (cases "is_ascii_char a")
      case True
      with assms(1,2) c have "c = [a]"
        by (auto simp: utf8_ascii_def)
      with assms(3) \<open>b = a\<close> show ?thesis
        by (auto simp: is_glob_meta_def)
    next
      case False
      with \<open>b = a\<close> show ?thesis
        by (auto simp: is_ascii_char_def byte_val_def)
    qed
  qed
qed

lemma glob_spec_chunks:
  assumes "set cs \<subseteq> set (chars s)" and "utf8_ascii s"
  shows "glob_spec (concat (map (\<lambda>c. if is_glob_meta c then CHR 0x5C # c else c) cs) @ rest) k
    \<longleftrightarrow> (\<exists>t. k = concat cs @ t \<and> glob_spec rest t)"
  using assms(1)
proof (induction cs arbitrary: k)
  case (Cons c cs)
  note IH = Cons.IH [of "drop (length c) k"]
  show ?case
  proof (cases "is_glob_meta c")
    case True
    then obtain b where "c = [b]"
      by (auto simp: is_glob_meta_def)
    with True Cons show ?thesis
      by (auto simp: glob_spec_escaped)
  next
    case False
    with Cons.prems assms(2) have "\<forall>b \<in> set c. b \<noteq> CHR ''*'' \<and> b \<noteq> CHR 0x5C"
      by (intro plain_chunk) auto
    from glob_spec_plain [OF this] False Cons show ?thesis
      by auto
  qed
qed simp

lemma glob_spec_escape:
  "utf8_ascii s \<Longrightarrow> glob_spec (escape_scan_pattern s @ rest) k
    \<longleftrightarrow> (\<exists>t. k = s @ t \<and> glob_spec rest t)"
  using glob_spec_chunks [of "chars s" s rest k] by (simp add: escape_scan_pattern_def)

text \<open>An escaped literal matches itself and nothing else, and followed by a star it matches
  exactly the keys it is a prefix of: what a caller puts into a scan pattern cannot widen it.\<close>

lemma escaped_pattern_matches:
  assumes "utf8_ascii s"
  shows "glob_match (escape_scan_pattern s) k = Some (k = s)
    \<and> glob_match (escape_scan_pattern s @ ''*'') k = Some (prefix s k)"
proof -
  have "glob_spec (escape_scan_pattern s) k \<longleftrightarrow> k = s"
    using glob_spec_escape [OF assms, of "[]" k] by simp
  moreover have "glob_spec ''*'' t" for t
    by (induction t) auto
  then have "glob_spec (escape_scan_pattern s @ ''*'') k \<longleftrightarrow> prefix s k"
    using glob_spec_escape [OF assms, of "''*''" k] by (auto simp: prefix_def)
  ultimately show ?thesis
    by (simp add: glob_match_total)
qed

text \<open>A scan returns exactly the keys with a live entry that match the pattern.\<close>

lemma mem_scan_keys_live:
  "key \<in> mem_scan_keys now pattern c \<longleftrightarrow>
     (\<exists>e. Mapping.lookup (store c) key = Some e \<and> \<not> is_expired now e) \<and> glob_spec pattern key"
  by (auto simp: mem_scan_keys_def glob_match_total keys_is_none_rep Option.is_none_def
      split: option.splits)

end
