(* ===== verification/Scopes.thy ===== *)
theory Scopes
  imports Errors
begin

text \<open>
  \<^verbatim>\<open>issuerd-core/src/scope.rs\<close>: the normalised OAuth2 scope.  A \<open>Scope\<close> wraps a
  vector of tokens; \<open>Scope::parse\<close> splits at white space, sorts and removes
  repetitions, \<open>From<Vec<String>>\<close> (also the \<open>Deserialize\<close> boundary) sorts and removes
  repetitions only.  The invariant \<open>wf_scope\<close> is the one the source documents; the
  facts show which constructors establish it and that the wire form round-trips.
\<close>

section \<open>Model\<close>

datatype scope = Scope (tokens: "string list")

definition OFFLINE_ACCESS_SCOPE :: string where
  "OFFLINE_ACCESS_SCOPE = ''offline_access''"

definition scope_parse :: "string \<Rightarrow> scope" where
  "scope_parse raw = Scope (remdups_adj (sort (split_whitespace raw)))"

definition scope_from_vec :: "string list \<Rightarrow> scope" where
  "scope_from_vec ts = Scope (remdups_adj (sort ts))"

definition scope_empty :: scope where
  "scope_empty = Scope []"

definition scope_is_empty :: "scope \<Rightarrow> bool" where
  "scope_is_empty s \<longleftrightarrow> tokens s = []"

definition scope_len :: "scope \<Rightarrow> nat" where
  "scope_len s = length (tokens s)"

definition scope_contains :: "scope \<Rightarrow> string \<Rightarrow> bool" where
  "scope_contains s t \<longleftrightarrow> list_ex (\<lambda>x. x = t) (tokens s)"

definition scope_to_vec :: "scope \<Rightarrow> string list" where
  "scope_to_vec s = tokens s"

definition scope_join :: "scope \<Rightarrow> string \<Rightarrow> string" where
  "scope_join s sep = join sep (tokens s)"

definition to_space_separated :: "scope \<Rightarrow> string" where
  "to_space_separated s = join '' '' (tokens s)"

text \<open>The two serde helper modules: the JWT and introspection wire form of a scope.\<close>

definition space_separated_serialize :: "scope \<Rightarrow> string" where
  "space_separated_serialize s = to_space_separated s"

definition space_separated_deserialize :: "string \<Rightarrow> scope" where
  "space_separated_deserialize s = scope_parse s"

definition space_separated_opt_serialize :: "scope option \<Rightarrow> string option" where
  "space_separated_opt_serialize s = map_option to_space_separated s"

definition space_separated_opt_deserialize :: "string option \<Rightarrow> scope option" where
  "space_separated_opt_deserialize s = map_option scope_parse s"

section \<open>The normal form\<close>

definition normal_scope :: "scope \<Rightarrow> bool" where
  "normal_scope s \<longleftrightarrow> sorted_wrt (<) (tokens s)"

definition wf_scope :: "scope \<Rightarrow> bool" where
  "wf_scope s \<longleftrightarrow> normal_scope s \<and> (\<forall>t \<in> set (tokens s). is_token t)"

lemma scope_contains_iff [simp]: "scope_contains s t \<longleftrightarrow> t \<in> set (tokens s)"
  by (auto simp: scope_contains_def list_ex_iff)

lemma normal_scope_from_vec [simp]: "normal_scope (scope_from_vec ts)"
  by (simp add: normal_scope_def scope_from_vec_def sorted_remdups_adj_strict)

lemma normal_scope_parse [simp]: "normal_scope (scope_parse raw)"
  by (simp add: normal_scope_def scope_parse_def sorted_remdups_adj_strict)

lemma wf_scope_empty [simp, wf_intros]: "wf_scope scope_empty"
  by (simp add: wf_scope_def normal_scope_def scope_empty_def)

lemma wf_scope_parse [wf_intros]: "on_boundary raw \<Longrightarrow> wf_scope (scope_parse raw)"
  using split_whitespace_tokens [of raw] by (auto simp: wf_scope_def) (simp add: scope_parse_def)

lemma set_tokens_parse [simp]:
  "set (tokens (scope_parse raw)) = set (split_whitespace raw)"
  by (simp add: scope_parse_def)

lemma set_tokens_from_vec [simp]:
  "set (tokens (scope_from_vec ts)) = set ts"
  by (simp add: scope_from_vec_def)

lemma normal_scope_eqI:
  assumes "normal_scope s" and "normal_scope t" and "set (tokens s) = set (tokens t)"
  shows "s = t"
proof -
  have "tokens s = tokens t"
    using assms strict_sorted_equal [of "tokens s" "tokens t"]
    by (simp add: normal_scope_def)
  then show ?thesis by (cases s; cases t) simp
qed

lemma normal_scope_from_vec_id: "normal_scope s \<Longrightarrow> scope_from_vec (tokens s) = s"
  by (rule normal_scope_eqI) simp_all

lemma parse_to_space_separated:
  assumes "wf_scope s"
  shows "scope_parse (to_space_separated s) = s"
proof (rule normal_scope_eqI)
  show "normal_scope s" using assms by (simp add: wf_scope_def)
  have "split_whitespace (to_space_separated s) = tokens s"
    using assms by (simp add: to_space_separated_def wf_scope_def split_whitespace_join)
  then show "set (tokens (scope_parse (to_space_separated s))) = set (tokens s)" by simp
qed simp

lemma scope_len_card: "normal_scope s \<Longrightarrow> scope_len s = card (set (tokens s))"
  by (simp add: scope_len_def normal_scope_def strict_sorted_iff distinct_card)

end
