(* ===== verification/External.thy ===== *)
theory External
  imports Errors
begin

text \<open>
  Interfaces of the third-party crates the protocol code calls.  Their results are data
  here and their functions are parameters of the definitions that use them, bundled in
  records: \<open>url\<close> holds what the code reads of a \<open>url::Url\<close>, \<open>json\<close> is the shape of a
  \<open>serde_json::Value\<close> (objects list their members by key, as the crate's ordered map
  does; a number is the text it renders as).
\<close>

section \<open>The url crate\<close>

datatype host = Domain string | Ipv4 "32 word" | Ipv6 "128 word"

record url =
  url_str :: string
  url_scheme :: string
  url_host :: "host option"
  url_fragment :: "string option"

text \<open>\<open>Url::parse\<close> (\<open>Inl\<close> the rendered parse error), \<open>Url::set_port(None)\<close> (\<open>None\<close> when
  the URL cannot have a port) and \<open>form_urlencoded::parse\<close>.\<close>

record url_lib =
  ul_parse :: "string \<Rightarrow> string + url"
  ul_set_port_none :: "url \<Rightarrow> url option"
  ul_form_parse :: "string \<Rightarrow> (string \<times> string) list"

section \<open>The serde\_json crate\<close>

datatype json =
    JNull
  | JBool bool
  | JNumber string
  | JString string
  | JArray "json list"
  | JObject "(string \<times> json) list"

text \<open>\<open>Value::get\<close> with a string index, \<open>Value::as_str\<close> and the conversion of a JSON
  array into \<open>Vec<String>\<close>.\<close>

definition json_get :: "string \<Rightarrow> json \<Rightarrow> json option" where
  "json_get k v = (case v of JObject ms \<Rightarrow> map_of ms k | _ \<Rightarrow> None)"

definition json_as_str :: "json \<Rightarrow> string option" where
  "json_as_str v = (case v of JString s \<Rightarrow> Some s | _ \<Rightarrow> None)"

fun json_strings :: "json list \<Rightarrow> string list option" where
  "json_strings [] = Some []"
| "json_strings (v # vs) =
     (case json_as_str v of None \<Rightarrow> None
      | Some s \<Rightarrow> map_option (\<lambda>ss. s # ss) (json_strings vs))"

definition json_string_vec :: "json \<Rightarrow> string list option" where
  "json_string_vec v = (case v of JArray vs \<Rightarrow> json_strings vs | _ \<Rightarrow> None)"

text \<open>\<open>serde_json::from_str::<Value>\<close> and \<open>serde_json::to_string\<close>; the error text of an
  enum, given by its variants, that fails to deserialise from a string.\<close>

record json_lib =
  jl_from_str :: "string \<Rightarrow> json option"
  jl_to_string :: "json \<Rightarrow> string"
  jl_variant_error :: "string list \<Rightarrow> string \<Rightarrow> string"

end
