(* ===== verification/Validated.thy ===== *)
theory Validated
  imports Scopes External
begin

text \<open>
  The validated newtypes of \<^verbatim>\<open>issuerd-core/src/models.rs\<close> and the identifiers of
  \<^verbatim>\<open>issuerd-core/src/ids.rs\<close>.  A newtype over \<open>String\<close> is the string it stores; its
  constructor \<open>T::new\<close> is \<open><t>_new\<close>, which returns the stored string or the error of the
  first failing check, in the order of the source.  Seven of them share the checks
  \<open>validate_trimmed\<close> (trim, non-empty, byte length, no control characters), five the
  checks \<open>validate_raw\<close> (the same without the trim).
\<close>

section \<open>The two shared shapes\<close>

definition validate_trimmed :: "string \<Rightarrow> nat \<Rightarrow> string \<Rightarrow> issuerd_error + string" where
  "validate_trimmed what maxlen s =
     (let t = trim s in
      if t = [] then Inl (InvalidRequest (what @ '' must not be empty''))
      else if maxlen < length t
        then Inl (InvalidRequest (what @ '' must not exceed '' @ nat_to_string maxlen @ '' characters''))
      else if has_control t
        then Inl (InvalidRequest (what @ '' must not contain control characters''))
      else Inr t)"

definition validate_raw :: "string \<Rightarrow> nat \<Rightarrow> string \<Rightarrow> issuerd_error + string" where
  "validate_raw what maxlen s =
     (if s = [] then Inl (InvalidRequest (what @ '' must not be empty''))
      else if maxlen < length s
        then Inl (InvalidRequest (what @ '' must not exceed '' @ nat_to_string maxlen @ '' characters''))
      else if has_control s
        then Inl (InvalidRequest (what @ '' must not contain control characters''))
      else Inr s)"

section \<open>Newtypes with the shared shapes\<close>

definition username_new :: "string \<Rightarrow> issuerd_error + string" where
  "username_new = validate_trimmed ''username'' 255"

definition client_identifier_new :: "string \<Rightarrow> issuerd_error + string" where
  "client_identifier_new = validate_trimmed ''client_identifier'' 255"

definition display_name_new :: "string \<Rightarrow> issuerd_error + string" where
  "display_name_new = validate_trimmed ''display name'' 255"

definition claim_name_new :: "string \<Rightarrow> issuerd_error + string" where
  "claim_name_new = validate_trimmed ''claim name'' 255"

definition alias_new :: "string \<Rightarrow> issuerd_error + string" where
  "alias_new = validate_trimmed ''alias'' 255"

definition nonce_new :: "string \<Rightarrow> issuerd_error + string" where
  "nonce_new = validate_trimmed ''nonce'' 255"

definition role_name_new :: "string \<Rightarrow> issuerd_error + string" where
  "role_name_new = validate_trimmed ''name'' 255"

definition authorization_code_new :: "string \<Rightarrow> issuerd_error + string" where
  "authorization_code_new = validate_raw ''authorization code'' 2048"

definition client_secret_new :: "string \<Rightarrow> issuerd_error + string" where
  "client_secret_new = validate_raw ''client secret'' 2048"

definition refresh_token_new :: "string \<Rightarrow> issuerd_error + string" where
  "refresh_token_new = validate_raw ''refresh token'' 8192"

definition password_new :: "string \<Rightarrow> issuerd_error + string" where
  "password_new = validate_raw ''password'' 4096"

definition assertion_new :: "string \<Rightarrow> issuerd_error + string" where
  "assertion_new = validate_raw ''assertion'' 65536"

definition SERVICE_ACCOUNT_PREFIX :: string where
  "SERVICE_ACCOUNT_PREFIX = ''service-account-''"

definition is_service_account_reserved :: "string \<Rightarrow> bool" where
  "is_service_account_reserved name \<longleftrightarrow> starts_with name SERVICE_ACCOUNT_PREFIX"

section \<open>Newtypes with their own checks\<close>

definition email_new :: "string \<Rightarrow> issuerd_error + string" where
  "email_new s =
     (let t = trim s in
      if t = [] then Inl (InvalidRequest ''email must not be empty'')
      else if has_control t
        then Inl (InvalidRequest ''email must not contain control characters'')
      else if 254 < length t
        then Inl (InvalidRequest (''email must not exceed '' @ nat_to_string 254 @ '' characters''))
      else (case split_at CHR ''@'' t of
          [local, domain] \<Rightarrow>
            if local = [] then Inl (InvalidRequest ''email local part must not be empty'')
            else if domain = [] \<or> CHR ''.'' \<notin> set domain
              then Inl (InvalidRequest ''email domain must contain a dot'')
            else Inr t
        | _ \<Rightarrow> Inl (InvalidRequest ''email must contain exactly one @'')))"

definition realm_reserved_chars :: string where
  "realm_reserved_chars = [CHR ''/'', CHR 0x5C, CHR ''?'', CHR 0x23, CHR ''%'', CHR ''+'', CHR ''&'', CHR ''='']"

definition realm_name_new :: "string \<Rightarrow> issuerd_error + string" where
  "realm_name_new s =
     (let t = trim s in
      if t = [] then Inl (InvalidRequest ''realm name must not be empty'')
      else if 255 < length t
        then Inl (InvalidRequest (''realm name must not exceed '' @ nat_to_string 255 @ '' characters''))
      else if has_control t
        then Inl (InvalidRequest ''realm name must not contain control characters'')
      else if has_whitespace t
        then Inl (InvalidRequest ''realm name must not contain whitespace'')
      else if list_ex (\<lambda>c. c \<in> set realm_reserved_chars) t
        then Inl (InvalidRequest (''realm name must not contain URL-reserved characters (/ ''
               @ [CHR 0x5C] @ '' ? '' @ [CHR 0x23] @ '' % + & =)''))
      else if \<not> list_all is_ascii_char t
        then Inl (InvalidRequest ''realm name must be ASCII'')
      else Inr t)"

definition theme_name_new :: "string \<Rightarrow> issuerd_error + string" where
  "theme_name_new s =
     (case validate_trimmed ''theme name'' 255 s of
        Inl e \<Rightarrow> Inl e
      | Inr t \<Rightarrow>
          if CHR ''/'' \<in> set t \<or> CHR 0x5C \<in> set t
          then Inl (InvalidRequest ''theme name must not contain path separators'')
          else Inr t)"

definition group_path_new :: "string \<Rightarrow> issuerd_error + string" where
  "group_path_new s =
     (let t = trim s in
      if t = [] then Inl (InvalidRequest ''group path must not be empty'')
      else if \<not> starts_with t ''/''
        then Inl (InvalidRequest (''group path must start with '' @ [CHR 0x27] @ ''/'' @ [CHR 0x27]))
      else if has_control t
        then Inl (InvalidRequest ''group path must not contain control characters'')
      else Inr t)"

definition acr_new :: "string \<Rightarrow> issuerd_error + string" where
  "acr_new s = (if trim s = [] then Inl (InvalidRequest ''acr must not be empty'') else Inr s)"

definition web_origin_new :: "url_lib \<Rightarrow> string \<Rightarrow> issuerd_error + string" where
  "web_origin_new U s =
     (if trim s = [] then Inl (InvalidRequest ''web origin must not be empty'')
      else if has_control s
        then Inl (InvalidRequest ''web origin must not contain control characters'')
      else if s = ''*'' then Inr s
      else (case ul_parse U s of
              Inl e \<Rightarrow> Inl (InvalidRequest (''invalid web origin: '' @ e))
            | Inr _ \<Rightarrow> Inr s))"

definition issuer_new :: "url_lib \<Rightarrow> string \<Rightarrow> issuerd_error + string" where
  "issuer_new U s =
     (if s = [] then Inl (InvalidRequest ''issuer must not be empty'')
      else if \<not> is_ok (ul_parse U s) then Inl (InvalidRequest ''issuer must be a valid URL'')
      else Inr s)"

definition is_base64url_char :: "char \<Rightarrow> bool" where
  "is_base64url_char c \<longleftrightarrow>
     is_ascii_alphanumeric c \<or> c = CHR ''-'' \<or> c = CHR ''_'' \<or> c = CHR ''=''"

definition base64url_new :: "string \<Rightarrow> issuerd_error + string" where
  "base64url_new s =
     (if s = [] then Inl (InvalidRequest ''base64url value must not be empty'')
      else if \<not> list_all is_base64url_char s
        then Inl (InvalidRequest ''base64url value contains invalid characters'')
      else Inr s)"

text \<open>The macro \<open>id_type!\<close>: the identifier types reject the empty string.\<close>

definition id_new :: "string \<Rightarrow> string \<Rightarrow> issuerd_error + string" where
  "id_new type_name s =
     (if s = [] then Inl (InvalidRequest (type_name @ '' cannot be empty'')) else Inr s)"

section \<open>Numbers with a range\<close>

text \<open>\<open>SecondsNonZero::try_from\<close> for \<open>u64\<close> and \<open>i64\<close>, \<open>PasswordLength::try_from\<close>.\<close>

definition seconds_from_u64 :: "u64 \<Rightarrow> string + u64" where
  "seconds_from_u64 s = (if 0 < s then Inr s else Inl ''SecondsNonZero must be > 0'')"

definition seconds_from_i64 :: "u64 \<Rightarrow> string + u64" where
  "seconds_from_i64 s = (if 0 < sint s then Inr s else Inl ''SecondsNonZero must be > 0'')"

definition password_length_from_u32 :: "u32 \<Rightarrow> issuerd_error + u32" where
  "password_length_from_u32 n =
     (if n < 1 \<or> 128 < n
      then Inl (InvalidRequest (''password length must be between '' @ nat_to_string 1
             @ '' and '' @ nat_to_string 128))
      else Inr n)"

section \<open>Audiences\<close>

definition audience_from_values :: "string list \<Rightarrow> issuerd_error + string list" where
  "audience_from_values vs =
     (if vs = [] \<or> list_ex (\<lambda>v. v = []) vs
      then Inl (InvalidRequest ''audience must not be empty'') else Inr vs)"

definition audience_new :: "string \<Rightarrow> issuerd_error + string list" where
  "audience_new s = audience_from_values [s]"

text \<open>The wire form: a single audience is a JSON string, several are an array.\<close>

definition audience_serialize :: "string list \<Rightarrow> json" where
  "audience_serialize a = (if length a = 1 then JString (hd a) else JArray (map JString a))"

definition audience_deserialize :: "json \<Rightarrow> (issuerd_error + string list) option" where
  "audience_deserialize v =
     (case v of
        JString s \<Rightarrow> Some (audience_from_values [s])
      | _ \<Rightarrow> map_option audience_from_values (json_string_vec v))"

section \<open>Facts on the shared shapes\<close>

definition clean_text :: "nat \<Rightarrow> string \<Rightarrow> bool" where
  "clean_text maxlen s \<longleftrightarrow> s \<noteq> [] \<and> length s \<le> maxlen \<and> \<not> has_control s"

lemma validate_raw_Inr_iff [result_simps]:
  "validate_raw what maxlen s = Inr t \<longleftrightarrow> t = s \<and> clean_text maxlen s"
  by (auto simp: validate_raw_def clean_text_def)

lemma validate_trimmed_Inr_iff [result_simps]:
  "validate_trimmed what maxlen s = Inr t \<longleftrightarrow> t = trim s \<and> clean_text maxlen (trim s)"
  by (auto simp: validate_trimmed_def clean_text_def Let_def)

lemma validate_trimmed_idem:
  "validate_trimmed what maxlen s = Inr t \<Longrightarrow> validate_trimmed what maxlen t = Inr t"
  by (auto simp: validate_trimmed_Inr_iff)

lemma validate_trimmed_Inl:
  "validate_trimmed what maxlen s = Inl e \<Longrightarrow> \<exists>m. e = InvalidRequest (what @ m)"
  by (auto simp: validate_trimmed_def Let_def split: if_splits)

lemma validate_raw_Inl:
  "validate_raw what maxlen s = Inl e \<Longrightarrow> \<exists>m. e = InvalidRequest (what @ m)"
  by (auto simp: validate_raw_def split: if_splits)

lemmas trimmed_newtype_defs =
  username_new_def client_identifier_new_def display_name_new_def claim_name_new_def
  alias_new_def nonce_new_def role_name_new_def

lemmas raw_newtype_defs =
  authorization_code_new_def client_secret_new_def refresh_token_new_def
  password_new_def assertion_new_def

section \<open>Facts on the other newtypes\<close>

lemma split_at_nonempty [simp]: "split_at d s \<noteq> []"
  by (induction s) (auto split: list.splits)

lemma length_split_at: "length (split_at d s) = Suc (count_list s d)"
  by (induction s) (auto split: list.splits)

lemma join_split_at: "join [d] (split_at d s) = s"
proof (induction s)
  case Nil
  then show ?case by simp
next
  case (Cons c s)
  then show ?case by (cases "split_at d s"; cases "tl (split_at d s)") auto
qed

lemma email_new_Inr_iff [result_simps]:
  "email_new s = Inr t \<longleftrightarrow>
     t = trim s \<and> clean_text 254 t \<and>
     (\<exists>local domain. split_at CHR ''@'' t = [local, domain] \<and> local \<noteq> []
        \<and> CHR ''.'' \<in> set domain)"
  by (auto simp: email_new_def clean_text_def Let_def split: list.splits if_splits)

lemma realm_name_new_Inr_iff [result_simps]:
  "realm_name_new s = Inr t \<longleftrightarrow>
     t = trim s \<and> clean_text 255 t \<and> \<not> has_whitespace t
     \<and> (\<forall>c \<in> set t. is_ascii_char c \<and> c \<notin> set realm_reserved_chars)"
  by (auto simp: realm_name_new_def clean_text_def Let_def list_ex_iff list_all_iff)

lemma seconds_from_u64_pos: "seconds_from_u64 s = Inr n \<Longrightarrow> 0 < unat n \<and> n = s"
  by (auto simp: seconds_from_u64_def unat_gt_0 split: if_splits)

lemma seconds_from_i64_agrees:
  "seconds_from_i64 s = Inr n \<Longrightarrow> seconds_from_u64 s = Inr n"
  by (auto simp: seconds_from_i64_def seconds_from_u64_def word_gt_0 split: if_splits)

lemma password_length_bounds:
  "password_length_from_u32 n = Inr k \<longleftrightarrow> k = n \<and> 1 \<le> unat n \<and> unat n \<le> 128"
  by (auto simp: password_length_from_u32_def word_less_nat_alt split: if_splits)

lemma json_strings_map [simp]: "json_strings (map JString vs) = Some vs"
  by (induction vs) (auto simp: json_as_str_def)

lemma audience_wire_roundtrip:
  "audience_from_values vs = Inr a \<Longrightarrow> audience_deserialize (audience_serialize a) = Some (Inr a)"
  by (cases a rule: remdups_adj.cases)
     (auto simp: audience_from_values_def audience_serialize_def audience_deserialize_def
       json_string_vec_def json_as_str_def split: if_splits)

end
