(* ===== verification/Entities.thy ===== *)
theory Entities
  imports Validated
begin

text \<open>
  The domain model of \<^verbatim>\<open>issuerd-core/src/models.rs\<close> (realms, users, clients, roles,
  groups, credentials, sessions, flows), the protocol-mapper types of
  \<^verbatim>\<open>issuerd-core/src/client_scope.rs\<close> that clients embed, and the enumerations with a
  wire spelling.  A struct is a record whose fields carry a short prefix of the struct's
  name; the recursive struct \<open>Group\<close> is a datatype.  A time stamp is an \<open>int\<close>, a
  \<open>HashMap<String, V>\<close> a map.  The per-client role lists of a group, which the code
  iterates over, are an association list in iteration order.
\<close>

type_synonym timestamp = int

section \<open>Signature algorithms\<close>

datatype algorithm = Rs256 | Rs384 | Rs512 | Es256 | Es384 | Es512 | Hs256 | Hs384 | Hs512 | EdDsa

definition ALL_ALGORITHMS :: "algorithm list" where
  "ALL_ALGORITHMS = [Rs256, Rs384, Rs512, Es256, Es384, Es512, Hs256, Hs384, Hs512, EdDsa]"

definition DPOP_SIGNING_ALG_VALUES_SUPPORTED :: "algorithm list" where
  "DPOP_SIGNING_ALG_VALUES_SUPPORTED = [Rs256, Rs384, Rs512, Es256, Es384, EdDsa]"

fun algorithm_as_str :: "algorithm \<Rightarrow> string" where
  "algorithm_as_str Rs256 = ''RS256''"
| "algorithm_as_str Rs384 = ''RS384''"
| "algorithm_as_str Rs512 = ''RS512''"
| "algorithm_as_str Es256 = ''ES256''"
| "algorithm_as_str Es384 = ''ES384''"
| "algorithm_as_str Es512 = ''ES512''"
| "algorithm_as_str Hs256 = ''HS256''"
| "algorithm_as_str Hs384 = ''HS384''"
| "algorithm_as_str Hs512 = ''HS512''"
| "algorithm_as_str EdDsa = ''EdDSA''"

definition is_symmetric :: "algorithm \<Rightarrow> bool" where
  "is_symmetric a \<longleftrightarrow> a = Hs256 \<or> a = Hs384 \<or> a = Hs512"

definition algorithm_from_str :: "string \<Rightarrow> issuerd_error + algorithm" where
  "algorithm_from_str s =
     (if s = ''RS256'' then Inr Rs256
      else if s = ''RS384'' then Inr Rs384
      else if s = ''RS512'' then Inr Rs512
      else if s = ''ES256'' then Inr Es256
      else if s = ''ES384'' then Inr Es384
      else if s = ''ES512'' then Inr Es512
      else if s = ''HS256'' then Inr Hs256
      else if s = ''HS384'' then Inr Hs384
      else if s = ''HS512'' then Inr Hs512
      else if s = ''EdDSA'' then Inr EdDsa
      else Inl (InvalidRequest ''unsupported algorithm''))"

section \<open>Password and OTP policies\<close>

datatype ssl_required = SslNone | SslExternal | SslAll

datatype hash_algorithm = Argon2id | Pbkdf2 | CustomHash string

fun hash_algorithm_as_str :: "hash_algorithm \<Rightarrow> string" where
  "hash_algorithm_as_str Argon2id = ''argon2id''"
| "hash_algorithm_as_str Pbkdf2 = ''pbkdf2''"
| "hash_algorithm_as_str (CustomHash s) = s"

definition hash_algorithm_deserialize :: "string \<Rightarrow> hash_algorithm" where
  "hash_algorithm_deserialize s =
     (if s = ''argon2id'' then Argon2id else if s = ''pbkdf2'' then Pbkdf2 else CustomHash s)"

record password_policy =
  pp_min_length :: u32
  pp_max_length :: "u32 option"
  pp_require_digits :: bool
  pp_require_lower :: bool
  pp_require_upper :: bool
  pp_require_special :: bool
  pp_not_username :: bool
  pp_not_email :: bool
  pp_history_size :: u32
  pp_hash_algorithm :: hash_algorithm

definition password_policy_default :: password_policy where
  "password_policy_default =
     \<lparr> pp_min_length = 8, pp_max_length = None, pp_require_digits = False,
       pp_require_lower = False, pp_require_upper = False, pp_require_special = False,
       pp_not_username = False, pp_not_email = False, pp_history_size = 0,
       pp_hash_algorithm = Argon2id \<rparr>"

datatype otp_hash_algorithm = HmacSha1 | HmacSha256 | HmacSha512

fun otp_hash_as_str :: "otp_hash_algorithm \<Rightarrow> string" where
  "otp_hash_as_str HmacSha1 = ''HmacSHA1''"
| "otp_hash_as_str HmacSha256 = ''HmacSHA256''"
| "otp_hash_as_str HmacSha512 = ''HmacSHA512''"

definition otp_hash_from_str :: "string \<Rightarrow> issuerd_error + otp_hash_algorithm" where
  "otp_hash_from_str s =
     (if s = ''HmacSHA1'' then Inr HmacSha1
      else if s = ''HmacSHA256'' then Inr HmacSha256
      else if s = ''HmacSHA512'' then Inr HmacSha512
      else Inl (InvalidRequest (''unsupported OTP hash algorithm: '' @ s)))"

record otp_policy =
  otp_algorithm :: otp_hash_algorithm
  otp_digits :: u32
  otp_period_secs :: u32
  otp_look_ahead_window :: u32

definition otp_policy_default :: otp_policy where
  "otp_policy_default =
     \<lparr> otp_algorithm = HmacSha1, otp_digits = 6, otp_period_secs = 30,
       otp_look_ahead_window = 1 \<rparr>"

section \<open>Realms\<close>

record realm =
  rlm_id :: string
  rlm_name :: string
  rlm_display_name :: "string option"
  rlm_enabled :: bool
  rlm_ssl_required :: ssl_required
  rlm_password_policy :: password_policy
  rlm_login_theme :: "string option"
  rlm_email_theme :: "string option"
  rlm_admin_theme :: "string option"
  rlm_internationalization_enabled :: bool
  rlm_supported_locales :: "string list"
  rlm_default_locale :: "string option"
  rlm_default_role :: "string option"
  rlm_access_token_lifespan :: u64
  rlm_refresh_token_lifespan :: u64
  rlm_sso_session_idle_timeout :: u64
  rlm_sso_session_max_lifespan :: u64
  rlm_offline_session_idle_timeout :: u64
  rlm_brute_force_protected :: bool
  rlm_max_login_failures :: u32
  rlm_wait_increment_secs :: u32
  rlm_max_failure_wait_secs :: u32
  rlm_lockout_duration_secs :: u32
  rlm_registration_enabled :: bool
  rlm_reset_password_allowed :: bool
  rlm_remember_me_enabled :: bool
  rlm_verify_email_enabled :: bool
  rlm_login_with_email_allowed :: bool
  rlm_duplicate_emails_allowed :: bool
  rlm_edit_username_allowed :: bool
  rlm_remember_me_session_idle_secs :: u64
  rlm_otp_policy :: otp_policy
  rlm_events_enabled :: bool
  rlm_events_expiration_secs :: int
  rlm_admin_events_enabled :: bool
  rlm_include_representations :: bool
  rlm_events_listeners :: "string list"
  rlm_not_before :: int
  rlm_default_groups :: "string list"
  rlm_browser_flow :: "string option"
  rlm_direct_grant_flow :: "string option"
  rlm_reset_credentials_flow :: "string option"
  rlm_first_broker_login_flow :: "string option"
  rlm_registration_flow :: "string option"
  rlm_attributes :: params

definition realm_default :: realm where
  "realm_default =
     \<lparr> rlm_id = ''default'', rlm_name = ''default'', rlm_display_name = None,
       rlm_enabled = True, rlm_ssl_required = SslExternal,
       rlm_password_policy = password_policy_default, rlm_login_theme = None,
       rlm_email_theme = None, rlm_admin_theme = None,
       rlm_internationalization_enabled = False, rlm_supported_locales = [],
       rlm_default_locale = None, rlm_default_role = None,
       rlm_access_token_lifespan = 300, rlm_refresh_token_lifespan = 1800,
       rlm_sso_session_idle_timeout = 1800, rlm_sso_session_max_lifespan = 36000,
       rlm_offline_session_idle_timeout = 2592000, rlm_brute_force_protected = False,
       rlm_max_login_failures = 5, rlm_wait_increment_secs = 60,
       rlm_max_failure_wait_secs = 900, rlm_lockout_duration_secs = 900,
       rlm_registration_enabled = False, rlm_reset_password_allowed = False,
       rlm_remember_me_enabled = False, rlm_verify_email_enabled = False,
       rlm_login_with_email_allowed = True, rlm_duplicate_emails_allowed = False,
       rlm_edit_username_allowed = True, rlm_remember_me_session_idle_secs = 604800,
       rlm_otp_policy = otp_policy_default, rlm_events_enabled = True,
       rlm_events_expiration_secs = 0, rlm_admin_events_enabled = True,
       rlm_include_representations = False, rlm_events_listeners = [''logging''],
       rlm_not_before = 0, rlm_default_groups = [], rlm_browser_flow = None,
       rlm_direct_grant_flow = None, rlm_reset_credentials_flow = None,
       rlm_first_broker_login_flow = None, rlm_registration_flow = None,
       rlm_attributes = Map.empty \<rparr>"

text \<open>The accessors of realm attributes; a flag is on exactly when it is \<open>"true"\<close>.\<close>

definition realm_flag :: "string \<Rightarrow> realm \<Rightarrow> bool" where
  "realm_flag name r \<longleftrightarrow> rlm_attributes r name = Some ''true''"

definition default_signature_algorithm :: "realm \<Rightarrow> algorithm option" where
  "default_signature_algorithm r =
     (case rlm_attributes r ''default_signature_algorithm'' of
        None \<Rightarrow> None
      | Some v \<Rightarrow>
          (case algorithm_from_str v of
             Inl _ \<Rightarrow> None
           | Inr a \<Rightarrow> if \<not> is_symmetric a then Some a else None))"

definition authorization_details_types :: "realm \<Rightarrow> string list option" where
  "authorization_details_types r =
     (let types = (case rlm_attributes r ''authorization_details_types'' of
                     None \<Rightarrow> [] | Some v \<Rightarrow> split_whitespace v)
      in if types = [] then None else Some types)"

definition dynamic_client_registration_enabled :: "realm \<Rightarrow> bool" where
  "dynamic_client_registration_enabled = realm_flag ''dynamic_client_registration_enabled''"

definition compat_nonceless_hybrid :: "realm \<Rightarrow> bool" where
  "compat_nonceless_hybrid = realm_flag ''compat.nonceless_hybrid''"

definition registration_require_names :: "realm \<Rightarrow> bool" where
  "registration_require_names = realm_flag ''registration_require_names''"

definition registration_passwordless :: "realm \<Rightarrow> bool" where
  "registration_passwordless = realm_flag ''registration_passwordless''"

definition email_code_login :: "realm \<Rightarrow> bool" where
  "email_code_login = realm_flag ''email_code_login''"

definition update_profile_require_names :: "realm \<Rightarrow> bool" where
  "update_profile_require_names = realm_flag ''update_profile_require_names''"

section \<open>Users\<close>

record user =
  usr_id :: string
  usr_realm_id :: string
  usr_username :: string
  usr_email :: "string option"
  usr_email_verified :: bool
  usr_first_name :: "string option"
  usr_last_name :: "string option"
  usr_enabled :: bool
  usr_federation_link :: "string option"
  usr_attributes :: "string \<rightharpoonup> string list"
  usr_required_actions :: "string list"
  usr_created_at :: timestamp
  usr_updated_at :: timestamp

section \<open>Protocol mappers and clients\<close>

datatype claim_target = AccessTokenTarget | IdTokenTarget | UserInfoTarget

datatype mapper_type =
    UserAttribute | UserProperty | FullName | Address | GroupMembership
  | RealmRoleList | ClientRoleList | AudienceMapper | AllowedWebOrigins

record protocol_mapper =
  pm_id :: string
  pm_name :: string
  pm_type :: mapper_type
  pm_config :: params

record scope_mappings =
  sm_realm_roles :: "string list"
  sm_client_roles :: "string \<rightharpoonup> string list"

datatype client_protocol = OpenIdConnect | Saml

datatype client_authenticator_type =
  ClientSecretAuth | ClientJwtAuth | ClientSecretJwtAuth | ClientX509Auth

record client =
  cli_id :: string
  cli_realm_id :: string
  cli_client_id :: string
  cli_name :: "string option"
  cli_description :: "string option"
  cli_enabled :: bool
  cli_protocol :: client_protocol
  cli_public_client :: bool
  cli_bearer_only :: bool
  cli_client_authenticator_type :: client_authenticator_type
  cli_secret :: "string option"
  cli_redirect_uris :: "string list"
  cli_web_origins :: "string list"
  cli_default_scopes :: scope
  cli_optional_scopes :: scope
  cli_consent_required :: bool
  cli_full_scope_allowed :: bool
  cli_service_accounts_enabled :: bool
  cli_protocol_mappers :: "protocol_mapper list"
  cli_scope_mappings :: scope_mappings
  cli_attributes :: params

definition service_account_user_id :: "client \<Rightarrow> string" where
  "service_account_user_id c = SERVICE_ACCOUNT_PREFIX @ cli_id c"

definition is_service_account_user :: "client \<Rightarrow> user \<Rightarrow> bool" where
  "is_service_account_user c u \<longleftrightarrow>
     usr_id u = service_account_user_id c
     \<and> (case usr_attributes u ''service_account_client_id'' of
          None \<Rightarrow> False
        | Some values \<Rightarrow> length values = 1 \<and> hd values = cli_id c)"

definition admin_api_access_allowed :: "client \<Rightarrow> bool" where
  "admin_api_access_allowed c \<longleftrightarrow>
     cli_enabled c
     \<and> (cli_client_id c = ''admin-cli'' \<or> cli_attributes c ''admin_api_access'' = Some ''true'')"

definition allowed_response_types :: "json_lib \<Rightarrow> client \<Rightarrow> string list option" where
  "allowed_response_types J c =
     (case cli_attributes c ''response_types'' of
        None \<Rightarrow> None
      | Some raw \<Rightarrow>
          (case Option.bind (jl_from_str J raw) json_string_vec of
             Some ts \<Rightarrow> Some ts
           | None \<Rightarrow> Some (split_whitespace raw)))"

section \<open>Roles and groups\<close>

record role =
  role_id :: string
  role_name :: string
  role_description :: "string option"
  role_realm_id :: string
  role_client_role :: bool
  role_client_id :: "string option"
  role_composite :: bool
  role_composites :: "string list"
  role_attributes :: "string \<rightharpoonup> string list"

datatype group = Group
  (grp_id: string)
  (grp_name: string)
  (grp_path: string)
  (grp_realm_id: string)
  (grp_parent_id: "string option")
  (grp_sub_groups: "group list")
  (grp_attributes: "string \<rightharpoonup> string list")
  (grp_realm_roles: "string list")
  (grp_client_roles: "(string \<times> string list) list")

section \<open>Credentials\<close>

datatype credential_type =
    PasswordCred | Totp | Hotp | WebAuthn | WebAuthnPasswordless | KerberosCred
  | SshPublicKey | CustomCred string

record credential =
  cred_id :: string
  cred_type :: credential_type
  cred_user_label :: "string option"
  cred_created_date :: timestamp
  cred_secret_data :: bytes
  cred_data :: json
  cred_priority :: int

section \<open>Sessions and consents\<close>

datatype auth_method = PasswordAuth | Spnego | CibaAuth | IdentityProviderAuth | Impersonation

record client_session =
  cs_id :: string
  cs_client_id :: string
  cs_session_id :: string
  cs_redirect_uri :: "string option"
  cs_state :: "string option"
  cs_auth_method :: auth_method
  cs_timestamp :: timestamp

record user_session =
  us_id :: string
  us_realm_id :: string
  us_user_id :: string
  us_login_username :: string
  us_ip_address :: string
  us_auth_method :: auth_method
  us_remember_me :: bool
  us_offline :: bool
  us_started :: timestamp
  us_last_session_refresh :: timestamp
  us_auth_time :: timestamp
  us_impersonator :: "string option"
  us_clients :: "client_session list"

record consent =
  cons_client_id :: string
  cons_user_id :: string
  cons_granted_scopes :: scope
  cons_granted_realm_roles :: "string list"
  cons_granted_client_roles :: "string \<rightharpoonup> string list"
  cons_created_at :: timestamp
  cons_last_updated_at :: timestamp

section \<open>Identity providers\<close>

datatype provider_id = LdapProvider | KerberosProvider | OidcProvider | SamlProvider
  | SocialProvider | CustomProvider string

definition provider_id_new :: "string \<Rightarrow> provider_id" where
  "provider_id_new s =
     (if s = ''ldap'' then LdapProvider
      else if s = ''kerberos'' then KerberosProvider
      else if s = ''oidc'' then OidcProvider
      else if s = ''saml'' then SamlProvider
      else if s = ''social'' then SocialProvider
      else CustomProvider s)"

fun provider_id_as_str :: "provider_id \<Rightarrow> string" where
  "provider_id_as_str LdapProvider = ''ldap''"
| "provider_id_as_str KerberosProvider = ''kerberos''"
| "provider_id_as_str OidcProvider = ''oidc''"
| "provider_id_as_str SamlProvider = ''saml''"
| "provider_id_as_str SocialProvider = ''social''"
| "provider_id_as_str (CustomProvider s) = s"

record identity_provider_config =
  idp_id :: string
  idp_alias :: string
  idp_provider_id :: provider_id
  idp_enabled :: bool
  idp_config :: params

section \<open>Authentication flows\<close>

datatype requirement = Required | Alternative | OptionalReq | Disabled | Conditional

record authenticator_config =
  ac_alias :: string
  ac_config :: "(string \<times> json) list"

record flow_stage =
  stage_id :: string
  stage_requirement :: requirement
  stage_authenticator :: string
  stage_priority :: int
  stage_sub_flow_alias :: "string option"
  stage_config :: "authenticator_config option"

record flow_config =
  flow_alias :: string
  flow_realm_id :: string
  flow_provider_id :: string
  flow_top_level :: bool
  flow_built_in :: bool
  flow_stages :: "flow_stage list"

section \<open>PKCE method\<close>

text \<open>\<open>PkceCodeChallengeMethod\<close>, deserialised from its serde spelling.\<close>

datatype pkce_method = S256 | Plain

definition pkce_method_from_str :: "string \<Rightarrow> pkce_method option" where
  "pkce_method_from_str s =
     (if s = ''S256'' then Some S256 else if s = ''plain'' then Some Plain else None)"

section \<open>Facts on the wire spellings\<close>

lemma algorithm_roundtrip [simp]: "algorithm_from_str (algorithm_as_str a) = Inr a"
  by (cases a) (simp_all add: algorithm_from_str_def)

lemma algorithm_from_str_Inr_iff: "algorithm_from_str s = Inr a \<longleftrightarrow> s = algorithm_as_str a"
proof
  assume "algorithm_from_str s = Inr a"
  then show "s = algorithm_as_str a"
    unfolding algorithm_from_str_def by (simp split: if_split_asm)
qed simp

lemma hash_algorithm_roundtrip [simp]:
  "hash_algorithm_as_str (hash_algorithm_deserialize s) = s"
  by (simp add: hash_algorithm_deserialize_def)

lemma provider_id_roundtrip [simp]: "provider_id_as_str (provider_id_new s) = s"
  by (simp add: provider_id_new_def)

lemma otp_hash_roundtrip [simp]: "otp_hash_from_str (otp_hash_as_str a) = Inr a"
  by (cases a) (simp_all add: otp_hash_from_str_def)

lemma default_signature_algorithm_asymmetric:
  "default_signature_algorithm r = Some a \<Longrightarrow> \<not> is_symmetric a"
  by (auto simp: default_signature_algorithm_def split: option.splits sum.splits if_splits)

lemma authorization_details_types_nonempty:
  "authorization_details_types r = Some ts \<Longrightarrow> ts \<noteq> []"
  by (auto simp: authorization_details_types_def Let_def split: option.splits if_splits)

lemma service_account_user_unique:
  assumes "is_service_account_user c u" and "is_service_account_user d u"
  shows "cli_id c = cli_id d"
  using assms by (auto simp: is_service_account_user_def service_account_user_id_def)

end
