(* ===== verification/Client_Scopes.thy ===== *)
theory Client_Scopes
  imports Entities
begin

text \<open>
  \<^verbatim>\<open>issuerd-core/src/client_scope.rs\<close>: protocol-mapper configuration, the scope policy
  for client requests (with the reserved MCP scopes), and the built-in client scopes of a
  realm.  Identifiers drawn from the random generator are a supply \<open>ids :: nat \<Rightarrow> string\<close>,
  consumed in evaluation order: the mappers of a scope before the scope itself.
\<close>

section \<open>Mapper configuration\<close>

definition ALL_MAPPER_TYPES :: "mapper_type list" where
  "ALL_MAPPER_TYPES =
     [UserAttribute, UserProperty, FullName, Address, GroupMembership, RealmRoleList,
      ClientRoleList, AudienceMapper, AllowedWebOrigins]"

fun mapper_label :: "mapper_type \<Rightarrow> string" where
  "mapper_label UserAttribute = ''User Attribute''"
| "mapper_label UserProperty = ''User Property''"
| "mapper_label FullName = ''Full Name''"
| "mapper_label Address = ''User Address''"
| "mapper_label GroupMembership = ''Group Membership''"
| "mapper_label RealmRoleList = ''User Realm Role''"
| "mapper_label ClientRoleList = ''User Client Role''"
| "mapper_label AudienceMapper = ''Audience''"
| "mapper_label AllowedWebOrigins = ''Allowed Web Origins''"

definition config_flag :: "protocol_mapper \<Rightarrow> string \<Rightarrow> bool \<Rightarrow> bool" where
  "config_flag m key dflt =
     (case pm_config m key of None \<Rightarrow> dflt | Some v \<Rightarrow> v = ''true'')"

definition config_value :: "protocol_mapper \<Rightarrow> string \<Rightarrow> string option" where
  "config_value m key =
     (case pm_config m key of None \<Rightarrow> None | Some v \<Rightarrow> if v = [] then None else Some v)"

fun target_key :: "claim_target \<Rightarrow> string" where
  "target_key AccessTokenTarget = ''access.token.claim''"
| "target_key IdTokenTarget = ''id.token.claim''"
| "target_key UserInfoTarget = ''userinfo.token.claim''"

definition applies_to :: "protocol_mapper \<Rightarrow> claim_target \<Rightarrow> bool" where
  "applies_to m t = config_flag m (target_key t) True"

section \<open>Scope policy\<close>

definition MCP_SCOPE_READ :: string where "MCP_SCOPE_READ = ''mcp:read''"
definition MCP_SCOPE_WRITE :: string where "MCP_SCOPE_WRITE = ''mcp:write''"
definition MCP_SCOPE_STEP_UP :: string where "MCP_SCOPE_STEP_UP = ''mcp:step_up''"

definition BUILTIN_SCOPE_NAMES :: "string list" where
  "BUILTIN_SCOPE_NAMES =
     [''profile'', ''email'', ''address'', ''phone'', ''roles'', ''offline_access'',
      ''web-origins'', ''acr'', MCP_SCOPE_READ, MCP_SCOPE_WRITE, MCP_SCOPE_STEP_UP]"

definition DEFAULT_DEFAULT_SCOPES :: "string list" where
  "DEFAULT_DEFAULT_SCOPES = [''profile'', ''email'', ''roles'']"

definition DEFAULT_OPTIONAL_SCOPES :: "string list" where
  "DEFAULT_OPTIONAL_SCOPES = [''address'', ''phone'', ''offline_access'', ''web-origins'', ''acr'']"

definition is_builtin_scope_name :: "string \<Rightarrow> bool" where
  "is_builtin_scope_name name \<longleftrightarrow> name \<in> set BUILTIN_SCOPE_NAMES"

definition is_mcp_scope_name :: "string \<Rightarrow> bool" where
  "is_mcp_scope_name name \<longleftrightarrow>
     name = MCP_SCOPE_READ \<or> name = MCP_SCOPE_WRITE \<or> name = MCP_SCOPE_STEP_UP"

definition validate_no_default_mcp_scopes :: "string list \<Rightarrow> bool \<Rightarrow> issuerd_error + unit" where
  "validate_no_default_mcp_scopes default_scopes mcp_enabled =
     (if list_ex (\<lambda>s. s = MCP_SCOPE_STEP_UP) default_scopes
      then Inl (InvalidRequest ''mcp:step_up is reserved for operation-bound CIBA'')
      else if mcp_enabled then
        (case find is_mcp_scope_name default_scopes of
           Some s \<Rightarrow> Inl (InvalidRequest (''MCP scope '' @ s
                       @ '' must be assigned explicitly as an optional scope''))
         | None \<Rightarrow> Inr ())
      else Inr ())"

definition client_scope_request_permitted_with_mcp :: "client \<Rightarrow> string \<Rightarrow> bool \<Rightarrow> bool" where
  "client_scope_request_permitted_with_mcp c sc mcp_enabled =
     (if sc = MCP_SCOPE_STEP_UP then False
      else if mcp_enabled \<and> is_mcp_scope_name sc
        then scope_contains (cli_optional_scopes c) sc
             \<and> \<not> scope_contains (cli_default_scopes c) sc
      else scope_contains (cli_default_scopes c) sc \<or> scope_contains (cli_optional_scopes c) sc)"

definition client_scope_request_permitted :: "client \<Rightarrow> string \<Rightarrow> bool" where
  "client_scope_request_permitted c sc = client_scope_request_permitted_with_mcp c sc False"

section \<open>Built-in client scopes\<close>

record client_scope =
  csc_id :: string
  csc_realm_id :: string
  csc_name :: string
  csc_description :: "string option"
  csc_protocol :: client_protocol
  csc_attributes :: params
  csc_protocol_mappers :: "protocol_mapper list"
  csc_scope_mappings :: scope_mappings

definition scope_mappings_default :: scope_mappings where
  "scope_mappings_default = \<lparr> sm_realm_roles = [], sm_client_roles = Map.empty \<rparr>"

definition bool_to_string :: "bool \<Rightarrow> string" where
  "bool_to_string b = (if b then ''true'' else ''false'')"

definition targets :: "bool \<Rightarrow> bool \<Rightarrow> bool \<Rightarrow> params" where
  "targets access idt userinfo =
     [''access.token.claim'' \<mapsto> bool_to_string access,
      ''id.token.claim'' \<mapsto> bool_to_string idt,
      ''userinfo.token.claim'' \<mapsto> bool_to_string userinfo]"

definition mapper ::
    "string \<Rightarrow> mapper_type \<Rightarrow> (string \<times> string) list \<Rightarrow> bool \<times> bool \<times> bool
     \<Rightarrow> string \<Rightarrow> protocol_mapper" where
  "mapper name ty extra flags fresh_id =
     (case flags of (access, idt, userinfo) \<Rightarrow>
        \<lparr> pm_id = fresh_id, pm_name = name, pm_type = ty,
          pm_config = foldl (\<lambda>m (k, v). m(k \<mapsto> v)) (targets access idt userinfo) extra \<rparr>)"

definition user_property_mapper ::
    "string \<Rightarrow> string \<Rightarrow> string \<Rightarrow> string option \<Rightarrow> bool \<times> bool \<times> bool
     \<Rightarrow> string \<Rightarrow> protocol_mapper" where
  "user_property_mapper name property claim json_type flags =
     mapper name UserProperty
       ([(''user.property'', property), (''claim.name'', claim)]
        @ (case json_type of None \<Rightarrow> [] | Some jt \<Rightarrow> [(''jsonType.label'', jt)]))
       flags"

definition user_attribute_mapper ::
    "string \<Rightarrow> string \<Rightarrow> string \<Rightarrow> string option \<Rightarrow> bool \<times> bool \<times> bool
     \<Rightarrow> string \<Rightarrow> protocol_mapper" where
  "user_attribute_mapper name attribute claim json_type flags =
     mapper name UserAttribute
       ([(''user.attribute'', attribute), (''claim.name'', claim)]
        @ (case json_type of None \<Rightarrow> [] | Some jt \<Rightarrow> [(''jsonType.label'', jt)]))
       flags"

text \<open>One built-in scope: its mappers take the next identifiers of the supply, then the
  scope itself.  Returns the scope and the number of identifiers consumed so far.\<close>

definition builtin_scope ::
    "(nat \<Rightarrow> string) \<Rightarrow> string \<Rightarrow> string \<Rightarrow> (string \<Rightarrow> protocol_mapper) list \<Rightarrow> nat
     \<Rightarrow> client_scope \<times> nat" where
  "builtin_scope ids realm_id name mappers n =
     (\<lparr> csc_id = ids (n + length mappers), csc_realm_id = realm_id, csc_name = name,
        csc_description = Some (''OpenID Connect built-in scope: '' @ name),
        csc_protocol = OpenIdConnect, csc_attributes = Map.empty,
        csc_protocol_mappers = map (\<lambda>(m, i). m (ids i)) (zip mappers [n..<n + length mappers]),
        csc_scope_mappings = scope_mappings_default \<rparr>,
      n + length mappers + 1)"

definition profile_mappers :: "(string \<Rightarrow> protocol_mapper) list" where
  "profile_mappers =
     [user_property_mapper ''username'' ''username'' ''preferred_username'' None (True, True, True),
      mapper ''full name'' FullName [] (False, True, True),
      user_property_mapper ''given name'' ''firstName'' ''given_name'' None (False, True, True),
      user_property_mapper ''family name'' ''lastName'' ''family_name'' None (False, True, True),
      user_property_mapper ''updated at'' ''updatedAt'' ''updated_at'' (Some ''long'')
        (False, False, True),
      user_attribute_mapper ''middle name'' ''middle_name'' ''middle_name'' None
        (False, False, True),
      user_attribute_mapper ''nickname'' ''nickname'' ''nickname'' None (False, False, True),
      user_attribute_mapper ''profile'' ''profile'' ''profile'' None (False, False, True),
      user_attribute_mapper ''picture'' ''picture'' ''picture'' None (False, False, True),
      user_attribute_mapper ''website'' ''website'' ''website'' None (False, False, True),
      user_attribute_mapper ''gender'' ''gender'' ''gender'' None (False, False, True),
      user_attribute_mapper ''birthdate'' ''birthdate'' ''birthdate'' None (False, False, True),
      user_attribute_mapper ''zoneinfo'' ''zoneinfo'' ''zoneinfo'' None (False, False, True),
      user_attribute_mapper ''locale'' ''locale'' ''locale'' None (False, False, True)]"

definition email_mappers :: "(string \<Rightarrow> protocol_mapper) list" where
  "email_mappers =
     [user_property_mapper ''email'' ''email'' ''email'' None (False, True, True),
      user_property_mapper ''email verified'' ''emailVerified'' ''email_verified''
        (Some ''boolean'') (False, True, True)]"

definition address_mappers :: "(string \<Rightarrow> protocol_mapper) list" where
  "address_mappers = [mapper ''address'' Address [] (False, True, True)]"

definition phone_mappers :: "(string \<Rightarrow> protocol_mapper) list" where
  "phone_mappers =
     [user_attribute_mapper ''phone number'' ''phone_number'' ''phone_number'' None
        (False, True, True),
      user_attribute_mapper ''phone number verified'' ''phone_number_verified''
        ''phone_number_verified'' (Some ''boolean'') (False, True, True)]"

definition roles_mappers :: "(string \<Rightarrow> protocol_mapper) list" where
  "roles_mappers =
     [mapper ''realm roles'' RealmRoleList [] (True, False, False),
      mapper ''client roles'' ClientRoleList [] (True, False, False)]"

definition web_origins_mappers :: "(string \<Rightarrow> protocol_mapper) list" where
  "web_origins_mappers =
     [mapper ''allowed web origins'' AllowedWebOrigins [] (True, False, False)]"

definition builtin_client_scopes :: "(nat \<Rightarrow> string) \<Rightarrow> string \<Rightarrow> client_scope list" where
  "builtin_client_scopes ids realm_id =
     (let (profile, n) = builtin_scope ids realm_id ''profile'' profile_mappers 0;
          (email, n) = builtin_scope ids realm_id ''email'' email_mappers n;
          (address, n) = builtin_scope ids realm_id ''address'' address_mappers n;
          (phone, n) = builtin_scope ids realm_id ''phone'' phone_mappers n;
          (roles, n) = builtin_scope ids realm_id ''roles'' roles_mappers n;
          (offline_access, n) = builtin_scope ids realm_id ''offline_access'' [] n;
          (web_origins, n) = builtin_scope ids realm_id ''web-origins'' web_origins_mappers n;
          (acr, n) = builtin_scope ids realm_id ''acr'' [] n;
          (mcp_read, n) = builtin_scope ids realm_id MCP_SCOPE_READ [] n;
          (mcp_write, n) = builtin_scope ids realm_id MCP_SCOPE_WRITE [] n;
          (mcp_step_up, n) = builtin_scope ids realm_id MCP_SCOPE_STEP_UP [] n
      in [profile, email, address, phone, roles, offline_access, web_origins, acr,
          mcp_read\<lparr> csc_description :=
            Some ''Read access for MCP (Model Context Protocol) agents'' \<rparr>,
          mcp_write\<lparr> csc_description :=
            Some (''Write access for MCP (Model Context Protocol) agents; ''
              @ ''destructive operations additionally require step-up approval'') \<rparr>,
          mcp_step_up\<lparr> csc_description :=
            Some ''Single-use operation authority issued only by operation-bound CIBA'' \<rparr>])"

section \<open>Facts on the scope policy\<close>

lemma mcp_scope_names:
  "is_mcp_scope_name MCP_SCOPE_READ" "is_mcp_scope_name MCP_SCOPE_WRITE"
  "is_mcp_scope_name MCP_SCOPE_STEP_UP"
  by (simp_all add: is_mcp_scope_name_def)

lemma step_up_never_permitted [simp]:
  "\<not> client_scope_request_permitted_with_mcp c MCP_SCOPE_STEP_UP mcp"
  by (simp add: client_scope_request_permitted_with_mcp_def)

lemma permitted_assigned:
  "client_scope_request_permitted_with_mcp c sc mcp \<Longrightarrow>
     sc \<in> set (tokens (cli_default_scopes c)) \<union> set (tokens (cli_optional_scopes c))"
  by (auto simp: client_scope_request_permitted_with_mcp_def split: if_splits)

lemma permitted_antimono:
  "client_scope_request_permitted_with_mcp c sc True \<Longrightarrow>
     client_scope_request_permitted_with_mcp c sc False"
  by (auto simp: client_scope_request_permitted_with_mcp_def split: if_splits)

lemma permitted_mcp_optional_only:
  "client_scope_request_permitted_with_mcp c sc True \<Longrightarrow> is_mcp_scope_name sc \<Longrightarrow>
     sc \<in> set (tokens (cli_optional_scopes c)) \<and> sc \<notin> set (tokens (cli_default_scopes c))"
  by (auto simp: client_scope_request_permitted_with_mcp_def split: if_splits)

lemma validate_no_default_mcp_scopes_iff:
  "validate_no_default_mcp_scopes ds mcp = Inr () \<longleftrightarrow>
     MCP_SCOPE_STEP_UP \<notin> set ds \<and> (mcp \<longrightarrow> (\<forall>s \<in> set ds. \<not> is_mcp_scope_name s))"
  by (auto simp: validate_no_default_mcp_scopes_def list_ex_iff find_None_iff find_Some_iff
      split: option.splits)

section \<open>Facts on the built-in scopes\<close>

lemma config_flag_mapper:
  "(\<forall>(k, v) \<in> set extra. k \<noteq> key) \<Longrightarrow>
     config_flag (mapper name ty extra flags i) key d =
     config_flag (mapper name ty [] flags i) key d"
proof -
  assume "\<forall>(k, v) \<in> set extra. k \<noteq> key"
  then have "foldl (\<lambda>m (k, v). m(k \<mapsto> v)) m0 extra key = m0 key" for m0 :: params
    by (induction extra arbitrary: m0) auto
  then show ?thesis by (auto simp: config_flag_def mapper_def split: prod.splits)
qed

lemma applies_to_mapper [simp]:
  "applies_to (mapper name ty [] (a, i, u) n) AccessTokenTarget = a"
  "applies_to (mapper name ty [] (a, i, u) n) IdTokenTarget = i"
  "applies_to (mapper name ty [] (a, i, u) n) UserInfoTarget = u"
  by (simp_all add: applies_to_def config_flag_def mapper_def targets_def bool_to_string_def)

lemma applies_to_property_mapper [simp]:
  "applies_to (user_property_mapper name p cl jt flags n) t = applies_to (mapper name UserProperty [] flags n) t"
  unfolding applies_to_def user_property_mapper_def
  by (rule config_flag_mapper) (cases t; cases jt; simp)

lemma applies_to_attribute_mapper [simp]:
  "applies_to (user_attribute_mapper name p cl jt flags n) t = applies_to (mapper name UserAttribute [] flags n) t"
  unfolding applies_to_def user_attribute_mapper_def
  by (rule config_flag_mapper) (cases t; cases jt; simp)

lemma pm_name_mapper [simp]:
  "pm_name (mapper name ty extra flags i) = name"
  "pm_name (user_property_mapper name p cl jt flags i) = name"
  "pm_name (user_attribute_mapper name p cl jt flags i) = name"
  by (simp_all add: mapper_def user_property_mapper_def user_attribute_mapper_def split: prod.splits)

lemmas builtin_scope_defs =
  builtin_client_scopes_def builtin_scope_def profile_mappers_def email_mappers_def
  address_mappers_def phone_mappers_def roles_mappers_def web_origins_mappers_def

definition target_emitters :: "claim_target \<Rightarrow> client_scope list \<Rightarrow> (string \<times> string) list" where
  "target_emitters t ss =
     concat (map (\<lambda>s. map (\<lambda>m. (csc_name s, pm_name m))
                        (filter (\<lambda>m. applies_to m t) (csc_protocol_mappers s))) ss)"

text \<open>The built-in client scopes of a realm are exactly the names
  \<open>BUILTIN_SCOPE_NAMES\<close>, in that order; and the only built-in mappers that write into
  access tokens are the user name, the two role lists and the web origins, so no other
  profile, e-mail, address or phone data reaches an access token through them.\<close>

lemma builtin_scopes_access_token_claims:
  "map csc_name (builtin_client_scopes ids realm_id) = BUILTIN_SCOPE_NAMES
   \<and> target_emitters AccessTokenTarget (builtin_client_scopes ids realm_id) =
       [(''profile'', ''username''), (''roles'', ''realm roles''), (''roles'', ''client roles''),
        (''web-origins'', ''allowed web origins'')]"
  by (simp add: builtin_scope_defs BUILTIN_SCOPE_NAMES_def target_emitters_def)

end
