(* ===== verification/Directory.thy ===== *)
theory Directory
  imports Client_Scopes "HOL-Library.AList"
begin

text \<open>
  The directory part of the in-memory storage, \<^verbatim>\<open>issuerd-storage/src/memory.rs\<close>: roles,
  groups, client scopes, and the assignments of roles and groups to users and of scopes to
  clients.  A concurrent map the code iterates over is an association list in iteration order;
  a map it only looks up is a function.  A mutating method holds the mutation lock to its end,
  so each one is a single step.
\<close>

section \<open>State\<close>

record pagination =
  pg_first :: int
  pg_max :: int

definition pagination_default :: pagination where
  "pagination_default = \<lparr>pg_first = 0, pg_max = 100\<rparr>"

record directory =
  md_roles :: "((string \<times> string) \<times> role) list"
  md_groups :: "((string \<times> string) \<times> group) list"
  md_user_realm_roles :: "string \<times> string \<Rightarrow> string list option"
  md_user_client_roles :: "string \<times> string \<Rightarrow> string list option"
  md_user_groups :: "string \<times> string \<Rightarrow> string list option"
  md_client_scopes :: "((string \<times> string) \<times> client_scope) list"
  md_scope_assignments :: "string \<times> string \<Rightarrow> (string \<times> bool) list option"
  md_realm_default_scopes :: "string \<Rightarrow> (string \<times> bool) list option"

definition directory_new :: directory where
  "directory_new =
     \<lparr>md_roles = [], md_groups = [], md_user_realm_roles = Map.empty,
      md_user_client_roles = Map.empty, md_user_groups = Map.empty, md_client_scopes = [],
      md_scope_assignments = Map.empty, md_realm_default_scopes = Map.empty\<rparr>"

text \<open>\<open>skip\<close> and \<open>take\<close> of a sorted listing, with the casts of the \<open>i32\<close> bounds.\<close>

definition page :: "pagination \<Rightarrow> 'a list \<Rightarrow> 'a list" where
  "page pg xs = take (nat (max (pg_max pg) 0)) (drop (nat (max (pg_first pg) 0)) xs)"

section \<open>Roles\<close>

definition get_role :: "directory \<Rightarrow> string \<Rightarrow> string \<Rightarrow> role option" where
  "get_role d realm i = map_of (md_roles d) (realm, i)"

fun role_by_name :: "string \<Rightarrow> string \<Rightarrow> role list \<Rightarrow> role option \<Rightarrow> role option" where
  "role_by_name realm name [] client_match = client_match"
| "role_by_name realm name (r # rs) client_match =
     (if role_realm_id r = realm \<and> role_name r = name then
        if \<not> role_client_role r then Some r
        else role_by_name realm name rs (if client_match = None then Some r else client_match)
      else role_by_name realm name rs client_match)"

definition get_role_by_name :: "directory \<Rightarrow> string \<Rightarrow> string \<Rightarrow> role option" where
  "get_role_by_name d realm name = role_by_name realm name (map snd (md_roles d)) None"

definition list_roles :: "directory \<Rightarrow> string \<Rightarrow> pagination \<Rightarrow> role list" where
  "list_roles d realm pg =
     page pg (sort_key role_name (filter (\<lambda>r. role_realm_id r = realm) (map snd (md_roles d))))"

definition count_roles :: "directory \<Rightarrow> string \<Rightarrow> int" where
  "count_roles d realm = int (length (filter (\<lambda>r. role_realm_id r = realm) (map snd (md_roles d))))"

definition create_role :: "directory \<Rightarrow> string \<Rightarrow> role \<Rightarrow> issuerd_error + directory" where
  "create_role d realm role =
     (if list_ex (\<lambda>r. role_realm_id r = realm \<and> role_name r = role_name role
          \<and> role_client_id r = role_client_id role) (map snd (md_roles d))
      then Inl (InvalidRequest ''role name already exists in realm'')
      else Inr (d\<lparr>md_roles := AList.update (realm, role_id role) role (md_roles d)\<rparr>))"

definition update_role :: "directory \<Rightarrow> string \<Rightarrow> role \<Rightarrow> issuerd_error + directory" where
  "update_role d realm role =
     (if map_of (md_roles d) (realm, role_id role) = None then Inl NotFound
      else Inr (d\<lparr>md_roles := AList.update (realm, role_id role) role (md_roles d)\<rparr>))"

text \<open>Removing an identifier from the lists of every user of a realm.\<close>

definition retain_in_realm ::
    "string \<Rightarrow> string \<Rightarrow> (string \<times> string \<Rightarrow> string list option) \<Rightarrow> string \<times> string \<Rightarrow> string list option" where
  "retain_in_realm realm i m k =
     (if fst k = realm then map_option (filter (\<lambda>x. x \<noteq> i)) (m k) else m k)"

definition delete_role :: "directory \<Rightarrow> string \<Rightarrow> string \<Rightarrow> directory" where
  "delete_role d realm i =
     d\<lparr>md_roles := AList.delete (realm, i) (md_roles d),
       md_user_realm_roles := retain_in_realm realm i (md_user_realm_roles d),
       md_user_client_roles := retain_in_realm realm i (md_user_client_roles d)\<rparr>"

definition get_client_role_by_name :: "directory \<Rightarrow> string \<Rightarrow> string \<Rightarrow> string \<Rightarrow> role option" where
  "get_client_role_by_name d realm client name =
     find (\<lambda>r. role_realm_id r = realm \<and> role_client_id r = Some client \<and> role_name r = name)
       (map snd (md_roles d))"

definition list_client_roles :: "directory \<Rightarrow> string \<Rightarrow> string \<Rightarrow> pagination \<Rightarrow> role list" where
  "list_client_roles d realm client pg =
     page pg (sort_key role_name (filter (\<lambda>r. role_realm_id r = realm
       \<and> role_client_id r = Some client) (map snd (md_roles d))))"

section \<open>Groups\<close>

definition get_group :: "directory \<Rightarrow> string \<Rightarrow> string \<Rightarrow> group option" where
  "get_group d realm i = map_of (md_groups d) (realm, i)"

definition get_group_by_name :: "directory \<Rightarrow> string \<Rightarrow> string \<Rightarrow> group option" where
  "get_group_by_name d realm name =
     map_option snd (find (\<lambda>(k, g). fst k = realm \<and> grp_name g = name) (md_groups d))"

definition list_groups :: "directory \<Rightarrow> string \<Rightarrow> pagination \<Rightarrow> group list" where
  "list_groups d realm pg =
     page pg (sort_key grp_name (filter (\<lambda>g. grp_realm_id g = realm) (map snd (md_groups d))))"

definition count_groups :: "directory \<Rightarrow> string \<Rightarrow> int" where
  "count_groups d realm = int (length (filter (\<lambda>g. grp_realm_id g = realm) (map snd (md_groups d))))"

definition create_group :: "directory \<Rightarrow> string \<Rightarrow> group \<Rightarrow> issuerd_error + directory" where
  "create_group d realm grp =
     (if list_ex (\<lambda>g. grp_realm_id g = realm \<and> grp_name g = grp_name grp) (map snd (md_groups d))
      then Inl Conflict
      else Inr (d\<lparr>md_groups := AList.update (realm, grp_id grp) grp (md_groups d)\<rparr>))"

definition update_group :: "directory \<Rightarrow> string \<Rightarrow> group \<Rightarrow> issuerd_error + directory" where
  "update_group d realm grp =
     (if map_of (md_groups d) (realm, grp_id grp) = None then Inl NotFound
      else Inr (d\<lparr>md_groups := AList.update (realm, grp_id grp) grp (md_groups d)\<rparr>))"

definition delete_group :: "directory \<Rightarrow> string \<Rightarrow> string \<Rightarrow> directory" where
  "delete_group d realm i =
     d\<lparr>md_groups := AList.delete (realm, i) (md_groups d),
       md_user_groups := retain_in_realm realm i (md_user_groups d)\<rparr>"

section \<open>Assignments to users\<close>

definition or_default :: "'v list option \<Rightarrow> 'v list" where
  "or_default x = (case x of Some v \<Rightarrow> v | None \<Rightarrow> [])"

definition push_new :: "'v \<Rightarrow> 'v list \<Rightarrow> 'v list" where
  "push_new x xs = (if x \<in> set xs then xs else xs @ [x])"

definition retain_entry :: "'k \<Rightarrow> ('v \<Rightarrow> bool) \<Rightarrow> ('k \<Rightarrow> 'v list option) \<Rightarrow> 'k \<Rightarrow> 'v list option" where
  "retain_entry k P m = (case m k of Some v \<Rightarrow> m(k \<mapsto> filter P v) | None \<Rightarrow> m)"

definition add_user_realm_role :: "directory \<Rightarrow> string \<Rightarrow> string \<Rightarrow> string \<Rightarrow> directory" where
  "add_user_realm_role d realm user i =
     d\<lparr>md_user_realm_roles := (md_user_realm_roles d)
         ((realm, user) \<mapsto> push_new i (or_default (md_user_realm_roles d (realm, user))))\<rparr>"

definition remove_user_realm_role :: "directory \<Rightarrow> string \<Rightarrow> string \<Rightarrow> string \<Rightarrow> directory" where
  "remove_user_realm_role d realm user i =
     d\<lparr>md_user_realm_roles := retain_entry (realm, user) (\<lambda>r. r \<noteq> i) (md_user_realm_roles d)\<rparr>"

definition list_user_realm_roles :: "directory \<Rightarrow> string \<Rightarrow> string \<Rightarrow> string list" where
  "list_user_realm_roles d realm user = or_default (md_user_realm_roles d (realm, user))"

definition add_user_client_role :: "directory \<Rightarrow> string \<Rightarrow> string \<Rightarrow> string \<Rightarrow> directory" where
  "add_user_client_role d realm user i =
     d\<lparr>md_user_client_roles := (md_user_client_roles d)
         ((realm, user) \<mapsto> push_new i (or_default (md_user_client_roles d (realm, user))))\<rparr>"

definition remove_user_client_role :: "directory \<Rightarrow> string \<Rightarrow> string \<Rightarrow> string \<Rightarrow> directory" where
  "remove_user_client_role d realm user i =
     d\<lparr>md_user_client_roles := retain_entry (realm, user) (\<lambda>r. r \<noteq> i) (md_user_client_roles d)\<rparr>"

definition list_user_client_roles :: "directory \<Rightarrow> string \<Rightarrow> string \<Rightarrow> string list" where
  "list_user_client_roles d realm user = or_default (md_user_client_roles d (realm, user))"

definition add_user_group :: "directory \<Rightarrow> string \<Rightarrow> string \<Rightarrow> string \<Rightarrow> directory" where
  "add_user_group d realm user i =
     d\<lparr>md_user_groups := (md_user_groups d)
         ((realm, user) \<mapsto> push_new i (or_default (md_user_groups d (realm, user))))\<rparr>"

definition remove_user_group :: "directory \<Rightarrow> string \<Rightarrow> string \<Rightarrow> string \<Rightarrow> directory" where
  "remove_user_group d realm user i =
     d\<lparr>md_user_groups := retain_entry (realm, user) (\<lambda>g. g \<noteq> i) (md_user_groups d)\<rparr>"

definition list_user_groups :: "directory \<Rightarrow> string \<Rightarrow> string \<Rightarrow> string list" where
  "list_user_groups d realm user = or_default (md_user_groups d (realm, user))"

section \<open>Client scopes and their assignments\<close>

definition get_client_scope :: "directory \<Rightarrow> string \<Rightarrow> string \<Rightarrow> client_scope option" where
  "get_client_scope d realm i = map_of (md_client_scopes d) (realm, i)"

definition get_client_scope_by_name :: "directory \<Rightarrow> string \<Rightarrow> string \<Rightarrow> client_scope option" where
  "get_client_scope_by_name d realm name =
     map_option snd (find (\<lambda>(k, s). fst k = realm \<and> csc_name s = name) (md_client_scopes d))"

definition list_client_scopes :: "directory \<Rightarrow> string \<Rightarrow> pagination \<Rightarrow> client_scope list" where
  "list_client_scopes d realm pg =
     page pg (sort_key csc_name (map snd (filter (\<lambda>(k, s). fst k = realm) (md_client_scopes d))))"

definition create_client_scope :: "directory \<Rightarrow> string \<Rightarrow> client_scope \<Rightarrow> issuerd_error + directory" where
  "create_client_scope d realm sc =
     (if list_ex (\<lambda>(k, s). fst k = realm \<and> csc_name s = csc_name sc) (md_client_scopes d)
      then Inl Conflict
      else Inr (d\<lparr>md_client_scopes := AList.update (realm, csc_id sc) sc (md_client_scopes d)\<rparr>))"

definition update_client_scope :: "directory \<Rightarrow> string \<Rightarrow> client_scope \<Rightarrow> issuerd_error + directory" where
  "update_client_scope d realm sc =
     (if map_of (md_client_scopes d) (realm, csc_id sc) = None then Inl NotFound
      else Inr (d\<lparr>md_client_scopes := AList.update (realm, csc_id sc) sc (md_client_scopes d)\<rparr>))"

definition delete_client_scope :: "directory \<Rightarrow> string \<Rightarrow> string \<Rightarrow> directory" where
  "delete_client_scope d realm i =
     d\<lparr>md_client_scopes := AList.delete (realm, i) (md_client_scopes d),
       md_scope_assignments := (\<lambda>k. if fst k = realm
          then map_option (filter (\<lambda>(s, _). s \<noteq> i)) (md_scope_assignments d k)
          else md_scope_assignments d k),
       md_realm_default_scopes := retain_entry realm (\<lambda>(s, _). s \<noteq> i) (md_realm_default_scopes d)\<rparr>"

text \<open>The entry of the scope, if there is one, takes the new flag; otherwise one is added.\<close>

fun set_flag :: "string \<Rightarrow> bool \<Rightarrow> (string \<times> bool) list \<Rightarrow> (string \<times> bool) list" where
  "set_flag s b [] = [(s, b)]"
| "set_flag s b ((s', b') # xs) = (if s' = s then (s', b) # xs else (s', b') # set_flag s b xs)"

definition assign_client_scope :: "directory \<Rightarrow> string \<Rightarrow> string \<Rightarrow> string \<Rightarrow> bool \<Rightarrow> directory" where
  "assign_client_scope d realm client s is_default =
     d\<lparr>md_scope_assignments := (md_scope_assignments d)((realm, client) \<mapsto>
         set_flag s is_default (or_default (md_scope_assignments d (realm, client))))\<rparr>"

definition unassign_client_scope :: "directory \<Rightarrow> string \<Rightarrow> string \<Rightarrow> string \<Rightarrow> directory" where
  "unassign_client_scope d realm client s =
     d\<lparr>md_scope_assignments :=
         retain_entry (realm, client) (\<lambda>(s', _). s' \<noteq> s) (md_scope_assignments d)\<rparr>"

definition list_client_scope_assignments :: "directory \<Rightarrow> string \<Rightarrow> string \<Rightarrow> (string \<times> bool) list" where
  "list_client_scope_assignments d realm client = or_default (md_scope_assignments d (realm, client))"

definition list_realm_default_client_scopes :: "directory \<Rightarrow> string \<Rightarrow> (string \<times> bool) list" where
  "list_realm_default_client_scopes d realm = or_default (md_realm_default_scopes d realm)"

definition add_realm_default_client_scope :: "directory \<Rightarrow> string \<Rightarrow> string \<Rightarrow> bool \<Rightarrow> directory" where
  "add_realm_default_client_scope d realm s is_default =
     d\<lparr>md_realm_default_scopes := (md_realm_default_scopes d)(realm \<mapsto>
         set_flag s is_default (or_default (md_realm_default_scopes d realm)))\<rparr>"

definition remove_realm_default_client_scope :: "directory \<Rightarrow> string \<Rightarrow> string \<Rightarrow> directory" where
  "remove_realm_default_client_scope d realm s =
     d\<lparr>md_realm_default_scopes :=
         retain_entry realm (\<lambda>(s', _). s' \<noteq> s) (md_realm_default_scopes d)\<rparr>"

section \<open>The invariant\<close>

text \<open>Rows are keyed by their realm and identifier, once each, and no assignment list has an
  entry twice.\<close>

definition wf_rows :: "('a \<Rightarrow> string) \<Rightarrow> ('a \<Rightarrow> string) \<Rightarrow> ((string \<times> string) \<times> 'a) list \<Rightarrow> bool" where
  "wf_rows row_realm row_id rows \<longleftrightarrow>
     distinct (map fst rows) \<and> (\<forall>(k, r) \<in> set rows. k = (row_realm r, row_id r))"

definition wf_lists :: "('k \<Rightarrow> 'v list option) \<Rightarrow> ('v \<Rightarrow> 'i) \<Rightarrow> bool" where
  "wf_lists m f \<longleftrightarrow> (\<forall>v \<in> ran m. distinct (map f v))"

definition wf_directory :: "directory \<Rightarrow> bool" where
  "wf_directory d \<longleftrightarrow>
     wf_rows role_realm_id role_id (md_roles d) \<and> wf_rows grp_realm_id grp_id (md_groups d)
     \<and> wf_rows csc_realm_id csc_id (md_client_scopes d)
     \<and> wf_lists (md_user_realm_roles d) id \<and> wf_lists (md_user_client_roles d) id
     \<and> wf_lists (md_user_groups d) id
     \<and> wf_lists (md_scope_assignments d) fst \<and> wf_lists (md_realm_default_scopes d) fst"

text \<open>The mutating calls; a row is always written under its own realm.\<close>

datatype directory_op =
    CreateRole role | UpdateRole role | DeleteRole string string
  | CreateGroup group | UpdateGroup group | DeleteGroup string string
  | CreateScope client_scope | UpdateScope client_scope | DeleteScope string string
  | AddRealmRole string string string | RemoveRealmRole string string string
  | AddClientRole string string string | RemoveClientRole string string string
  | AddGroup string string string | RemoveGroup string string string
  | AssignScope string string string bool | UnassignScope string string string
  | AddDefaultScope string string bool | RemoveDefaultScope string string

fun directory_step :: "directory_op \<Rightarrow> directory \<Rightarrow> issuerd_error + directory" where
  "directory_step (CreateRole r) d = create_role d (role_realm_id r) r"
| "directory_step (UpdateRole r) d = update_role d (role_realm_id r) r"
| "directory_step (DeleteRole realm i) d = Inr (delete_role d realm i)"
| "directory_step (CreateGroup g) d = create_group d (grp_realm_id g) g"
| "directory_step (UpdateGroup g) d = update_group d (grp_realm_id g) g"
| "directory_step (DeleteGroup realm i) d = Inr (delete_group d realm i)"
| "directory_step (CreateScope s) d = create_client_scope d (csc_realm_id s) s"
| "directory_step (UpdateScope s) d = update_client_scope d (csc_realm_id s) s"
| "directory_step (DeleteScope realm i) d = Inr (delete_client_scope d realm i)"
| "directory_step (AddRealmRole realm u i) d = Inr (add_user_realm_role d realm u i)"
| "directory_step (RemoveRealmRole realm u i) d = Inr (remove_user_realm_role d realm u i)"
| "directory_step (AddClientRole realm u i) d = Inr (add_user_client_role d realm u i)"
| "directory_step (RemoveClientRole realm u i) d = Inr (remove_user_client_role d realm u i)"
| "directory_step (AddGroup realm u i) d = Inr (add_user_group d realm u i)"
| "directory_step (RemoveGroup realm u i) d = Inr (remove_user_group d realm u i)"
| "directory_step (AssignScope realm c s b) d = Inr (assign_client_scope d realm c s b)"
| "directory_step (UnassignScope realm c s) d = Inr (unassign_client_scope d realm c s)"
| "directory_step (AddDefaultScope realm s b) d = Inr (add_realm_default_client_scope d realm s b)"
| "directory_step (RemoveDefaultScope realm s) d = Inr (remove_realm_default_client_scope d realm s)"

inductive directory_reachable :: "directory \<Rightarrow> bool" where
  new: "directory_reachable directory_new"
| step: "directory_reachable d \<Longrightarrow> directory_step a d = Inr d' \<Longrightarrow> directory_reachable d'"

section \<open>Every call keeps the invariant\<close>

lemma set_update_subset: "set (AList.update k v al) \<subseteq> insert (k, v) (set al)"
  by (induction al) (auto split: if_splits)

lemma wf_rows_update [wf_intros]:
  assumes "wf_rows f g rows"
  shows "wf_rows f g (AList.update (f r, g r) r rows)"
proof -
  have "\<forall>(k, r) \<in> insert ((f r, g r), r) (set rows). k = (f r, g r)"
    using assms by (simp add: wf_rows_def)
  with set_update_subset have "\<forall>(k, r) \<in> set (AList.update (f r, g r) r rows). k = (f r, g r)"
    by (meson subsetD)
  with assms show ?thesis
    by (simp add: wf_rows_def distinct_update)
qed

lemma wf_rows_delete [wf_intros]: "wf_rows f g rows \<Longrightarrow> wf_rows f g (AList.delete k rows)"
  by (auto simp: wf_rows_def distinct_delete) (auto simp: AList.delete_eq)

lemma wf_lists_upd [wf_intros]:
  "wf_lists m f \<Longrightarrow> distinct (map f v) \<Longrightarrow> wf_lists (m(k \<mapsto> v)) f"
  by (auto simp: wf_lists_def ran_def split: if_splits)

lemma wf_lists_or_default: "wf_lists m f \<Longrightarrow> distinct (map f (or_default (m k)))"
  by (auto simp: wf_lists_def or_default_def ran_def split: option.splits)

lemma wf_lists_or_default_id: "wf_lists m id \<Longrightarrow> distinct (or_default (m k))"
  using wf_lists_or_default [of m id k] by simp

lemma distinct_map_filter': "distinct (map f v) \<Longrightarrow> distinct (map f (filter P v))"
  by (induction v) auto

lemma wf_lists_retain_entry [wf_intros]:
  "wf_lists m f \<Longrightarrow> wf_lists (retain_entry k P m) f"
  by (auto simp: wf_lists_def retain_entry_def ran_def distinct_map_filter'
      split: option.splits if_splits)

lemma wf_lists_retain_in_realm [wf_intros]:
  "wf_lists m id \<Longrightarrow> wf_lists (retain_in_realm realm i m) id"
  unfolding wf_lists_def ran_def retain_in_realm_def by (fastforce split: if_splits)

lemma wf_lists_realm_filter [wf_intros]:
  "wf_lists m f \<Longrightarrow> wf_lists (\<lambda>k. if fst k = realm then map_option (filter P) (m k) else m k) f"
  unfolding wf_lists_def ran_def by (fastforce simp: distinct_map_filter' split: if_splits)

lemma distinct_push_new [wf_intros]: "distinct xs \<Longrightarrow> distinct (push_new x xs)"
  by (simp add: push_new_def)

lemma fst_set_flag: "set (map fst (set_flag s b xs)) = insert s (set (map fst xs))"
  by (induction s b xs rule: set_flag.induct) auto

lemma distinct_set_flag [wf_intros]: "distinct (map fst xs) \<Longrightarrow> distinct (map fst (set_flag s b xs))"
  by (induction s b xs rule: set_flag.induct) (use fst_set_flag in \<open>auto simp: image_iff\<close>)

lemmas directory_defs = create_role_def update_role_def delete_role_def create_group_def
  update_group_def delete_group_def create_client_scope_def update_client_scope_def
  delete_client_scope_def add_user_realm_role_def remove_user_realm_role_def
  add_user_client_role_def remove_user_client_role_def add_user_group_def remove_user_group_def
  assign_client_scope_def unassign_client_scope_def add_realm_default_client_scope_def
  remove_realm_default_client_scope_def

lemma directory_step_wf:
  assumes "wf_directory d" and "directory_step a d = Inr d'"
  shows "wf_directory d'"
  using assms
  by (cases a) (auto simp: directory_defs wf_directory_def wf_lists_or_default_id
      intro!: wf_intros intro: wf_lists_or_default split: if_splits)

lemma reachable_wf: "directory_reachable d \<Longrightarrow> wf_directory d"
proof (induction rule: directory_reachable.induct)
  case new
  then show ?case
    by (simp add: wf_directory_def directory_new_def wf_rows_def wf_lists_def)
next
  case (step d a d')
  then show ?case
    by (blast intro: directory_step_wf)
qed

end
