(* ===== verification/Roles.thy ===== *)
theory Roles
  imports Directory
begin

text \<open>
  Role resolution, \<^verbatim>\<open>issuerd-core/src/roles.rs\<close>: the expansion of composite roles and the
  effective roles of users and groups.  The storage calls it makes are an interface, a record
  of the five reads; the in-memory directory implements it.  The worklist always ends, also on
  cyclic composites, and computes exactly the roles reachable from the assigned ones.
\<close>

section \<open>Composite expansion\<close>

text \<open>A \<open>HashMap\<close> collected from pairs keeps the last one of a key.\<close>

definition realm_by_name :: "role list \<Rightarrow> string \<Rightarrow> role option" where
  "realm_by_name all_roles name =
     find (\<lambda>r. \<not> role_client_role r \<and> role_name r = name) (rev all_roles)"

definition client_by_name :: "role list \<Rightarrow> string \<Rightarrow> string \<Rightarrow> role option" where
  "client_by_name all_roles client name =
     find (\<lambda>r. role_client_role r \<and> role_client_id r = Some client \<and> role_name r = name)
       (rev all_roles)"

definition or_else :: "'a option \<Rightarrow> 'a option \<Rightarrow> 'a option" where
  "or_else x y = (case x of Some v \<Rightarrow> Some v | None \<Rightarrow> y)"

definition resolve_composite :: "role list \<Rightarrow> role \<Rightarrow> string \<Rightarrow> role option" where
  "resolve_composite all_roles role name =
     (if role_client_role role
      then or_else (Option.bind (role_client_id role) (\<lambda>c. client_by_name all_roles c name))
             (realm_by_name all_roles name)
      else or_else (realm_by_name all_roles name)
             (case filter (\<lambda>r. role_client_role r \<and> role_name r = name) all_roles of
                [] \<Rightarrow> None
              | first # rest \<Rightarrow> if rest = [] then Some first else None))"

definition push_composites :: "role list \<Rightarrow> string set \<Rightarrow> role \<Rightarrow> role list \<Rightarrow> role list" where
  "push_composites all_roles seen role queue =
     fold (\<lambda>name q. case resolve_composite all_roles role name of
             Some c \<Rightarrow> if role_id c \<notin> seen then c # q else q
           | None \<Rightarrow> q) (role_composites role) queue"

lemma set_push_composites:
  "set (push_composites all_roles seen role queue) = set queue \<union>
     {c. \<exists>name \<in> set (role_composites role).
           resolve_composite all_roles role name = Some c \<and> role_id c \<notin> seen}"
proof -
  have "set (fold (\<lambda>name q. case resolve_composite all_roles role name of
          Some c \<Rightarrow> if role_id c \<notin> seen then c # q else q | None \<Rightarrow> q) names queue) =
      set queue \<union> {c. \<exists>name \<in> set names.
         resolve_composite all_roles role name = Some c \<and> role_id c \<notin> seen}" for names
    by (induction names arbitrary: queue) (auto split: option.splits)
  then show ?thesis
    by (simp add: push_composites_def)
qed

lemma find_in: "find P xs = Some x \<Longrightarrow> x \<in> set xs \<and> P x"
  by (auto simp: find_Some_iff)

lemma resolve_composite_in:
  assumes "resolve_composite all_roles role name = Some c"
  shows "c \<in> set all_roles" and "role_name c = name"
proof -
  have "c \<in> set all_roles \<and> role_name c = name"
  proof (cases "filter (\<lambda>r. role_client_role r \<and> role_name r = name) all_roles")
    case Nil
    then show ?thesis
      using assms by (auto simp: resolve_composite_def or_else_def realm_by_name_def
          client_by_name_def dest!: find_in split: if_splits option.splits Option.bind_splits)
  next
    case (Cons a list)
    then have "a \<in> set (filter (\<lambda>r. role_client_role r \<and> role_name r = name) all_roles)"
      by (simp only: list.set_intros)
    then have "a \<in> set all_roles \<and> role_name a = name"
      by simp
    then show ?thesis
      using assms Cons by (auto simp: resolve_composite_def or_else_def realm_by_name_def
          client_by_name_def dest!: find_in split: if_splits option.splits Option.bind_splits)
  qed
  then show "c \<in> set all_roles" and "role_name c = name"
    by simp_all
qed

text \<open>The worklist: \<open>queue\<close> has the end of the vector first.\<close>

function expand_loop :: "role list \<Rightarrow> string set \<Rightarrow> role list \<Rightarrow> role list \<Rightarrow> role list" where
  "expand_loop all_roles seen out [] = out"
| "expand_loop all_roles seen out (role # queue) =
     (if role_id role \<in> seen then expand_loop all_roles seen out queue
      else expand_loop all_roles (insert (role_id role) seen) (out @ [role])
             (push_composites all_roles (insert (role_id role) seen) role queue))"
  by pat_completeness auto
termination
proof (relation "measures [\<lambda>(all, seen, out, queue). card (role_id ` (set all \<union> set queue) - seen),
    \<lambda>(all, seen, out, queue). length queue]", goal_cases)
  case 1
  then show ?case by simp
next
  case (2 all_roles seen out role queue)
  have "card (role_id ` (set all_roles \<union> set queue) - seen)
      \<le> card (role_id ` (set all_roles \<union> set (role # queue)) - seen)"
    by (intro card_mono) auto
  then show ?case
    by auto
next
  case (3 all_roles seen out role queue)
  let ?pushed = "push_composites all_roles (insert (role_id role) seen) role queue"
  have "card (role_id ` (set all_roles \<union> set ?pushed) - insert (role_id role) seen)
      < card (role_id ` (set all_roles \<union> set (role # queue)) - seen)"
    using 3 by (intro psubset_card_mono) (auto simp: set_push_composites dest: resolve_composite_in)
  then show ?case
    by simp
qed

definition expand_composites :: "role list \<Rightarrow> role list \<Rightarrow> role list" where
  "expand_composites seeds all_roles = expand_loop all_roles {} [] (rev seeds)"

section \<open>Reachable roles\<close>

definition composite_of :: "role list \<Rightarrow> role \<Rightarrow> role \<Rightarrow> bool" where
  "composite_of all_roles r c \<longleftrightarrow>
     list_ex (\<lambda>name. resolve_composite all_roles r name = Some c) (role_composites r)"

definition role_closure :: "role list \<Rightarrow> role set \<Rightarrow> role set" where
  "role_closure all_roles seeds = {r. \<exists>s \<in> seeds. (composite_of all_roles)\<^sup>*\<^sup>* s r}"

lemma composite_of_in: "composite_of all_roles r c \<Longrightarrow> c \<in> set all_roles"
  by (auto simp: composite_of_def list_ex_iff dest: resolve_composite_in)

lemma role_closure_subset: "role_closure all_roles seeds \<subseteq> seeds \<union> set all_roles"
  by (auto simp: role_closure_def elim: rtranclp.cases dest: composite_of_in)

lemma role_closure_closed:
  assumes "\<And>r c. r \<in> seeds \<Longrightarrow> composite_of all_roles r c \<Longrightarrow> c \<in> seeds"
  shows "role_closure all_roles seeds = seeds"
proof -
  have "r \<in> seeds" if "(composite_of all_roles)\<^sup>*\<^sup>* s r" "s \<in> seeds" for s r
    using that by (induction rule: rtranclp_induct) (auto intro: assms)
  then show ?thesis
    by (auto simp: role_closure_def)
qed

lemma role_closure_absorb:
  assumes "\<And>c. c \<in> extra \<Longrightarrow> \<exists>r \<in> seeds. composite_of all_roles r c"
  shows "role_closure all_roles (seeds \<union> extra) = role_closure all_roles seeds"
  using assms by (auto simp: role_closure_def) (meson converse_rtranclp_into_rtranclp)

lemma role_closure_mono: "A \<subseteq> B \<Longrightarrow> role_closure all_roles A \<subseteq> role_closure all_roles B"
  by (auto simp: role_closure_def)

lemma expand_loop_closure:
  assumes "inj_on role_id (set all_roles \<union> set out \<union> set queue)"
    and "seen = role_id ` set out" and "distinct (map role_id out)"
    and "\<And>r c. r \<in> set out \<Longrightarrow> composite_of all_roles r c \<Longrightarrow> c \<in> set out \<union> set queue"
  shows "set (expand_loop all_roles seen out queue) = role_closure all_roles (set out \<union> set queue)
    \<and> distinct (map role_id (expand_loop all_roles seen out queue))"
  using assms
proof (induction all_roles seen out queue rule: expand_loop.induct)
  case (1 all_roles seen out)
  then show ?case
    by (simp add: role_closure_closed)
next
  case (2 all_roles seen out role queue)
  show ?case
  proof (cases "role_id role \<in> seen")
    case True
    then have "role \<in> set out"
      using "2.prems"(1,2) by (auto dest: inj_onD)
    then have same: "set out \<union> set (role # queue) = set out \<union> set queue"
      by auto
    have inj: "inj_on role_id (set all_roles \<union> set out \<union> set queue)"
      using "2.prems"(1) by (rule inj_on_subset) auto
    show ?thesis
      using "2.IH"(1) [OF True inj "2.prems"(2,3)] "2.prems"(4) True unfolding same by simp
  next
    case False
    let ?seen = "insert (role_id role) seen"
    let ?queue = "push_composites all_roles ?seen role queue"
    have sub: "set ?queue \<subseteq> set all_roles \<union> set queue"
      by (auto simp: set_push_composites dest: resolve_composite_in)
    have inj: "inj_on role_id (set all_roles \<union> set (out @ [role]) \<union> set ?queue)"
      using "2.prems"(1) by (rule inj_on_subset) (use sub in auto)
    have next_roles: "c \<in> set (out @ [role]) \<union> set ?queue" if c: "composite_of all_roles role c" for c
    proof (cases "role_id c \<in> ?seen")
      case True
      then obtain r where r: "r \<in> set (out @ [role])" "role_id c = role_id r"
        using "2.prems"(2) by auto
      then have "c = r"
        using composite_of_in [OF c] by (intro inj_onD [OF "2.prems"(1)]) auto
      with r show ?thesis by auto
    next
      case False
      then show ?thesis
        using c by (auto simp: set_push_composites composite_of_def list_ex_iff)
    qed
    have "set queue \<subseteq> set ?queue"
      by (auto simp: set_push_composites)
    then have closed: "c \<in> set (out @ [role]) \<union> set ?queue"
      if "r \<in> set (out @ [role])" "composite_of all_roles r c" for r c
      using that next_roles "2.prems"(4) [of r c] by (cases "r = role") auto
    have IH: "set (expand_loop all_roles ?seen (out @ [role]) ?queue)
        = role_closure all_roles (set (out @ [role]) \<union> set ?queue)
      \<and> distinct (map role_id (expand_loop all_roles ?seen (out @ [role]) ?queue))"
      using "2.prems"(2,3) False closed by (intro "2.IH"(2) [OF False inj]) auto
    have "set (out @ [role]) \<union> set ?queue = (set out \<union> set (role # queue)) \<union> set ?queue"
      by (auto simp: set_push_composites)
    moreover have "role_closure all_roles ((set out \<union> set (role # queue)) \<union> set ?queue)
        = role_closure all_roles (set out \<union> set (role # queue))"
    proof -
      have "(set out \<union> set (role # queue)) \<union> set ?queue = (set out \<union> set (role # queue))
          \<union> {c. composite_of all_roles role c \<and> role_id c \<notin> ?seen}"
        by (auto simp: set_push_composites composite_of_def list_ex_iff)
      then show ?thesis
        by (simp only:) (rule role_closure_absorb, auto)
    qed
    ultimately show ?thesis
      using IH False by simp
  qed
qed

lemma expand_composites_closure:
  assumes "inj_on role_id (set all_roles \<union> set seeds)"
  shows "set (expand_composites seeds all_roles) = role_closure all_roles (set seeds)
    \<and> distinct (map role_id (expand_composites seeds all_roles))"
  using expand_loop_closure [of all_roles "[]" "rev seeds" "{}"] assms
  by (simp add: expand_composites_def)

section \<open>Effective roles\<close>

text \<open>The storage reads of this module.\<close>

record 's role_storage =
  rs_list_roles :: "'s \<Rightarrow> string \<Rightarrow> pagination \<Rightarrow> issuerd_error + role list"
  rs_list_user_realm_roles :: "'s \<Rightarrow> string \<Rightarrow> string \<Rightarrow> issuerd_error + string list"
  rs_list_user_client_roles :: "'s \<Rightarrow> string \<Rightarrow> string \<Rightarrow> issuerd_error + string list"
  rs_list_user_groups :: "'s \<Rightarrow> string \<Rightarrow> string \<Rightarrow> issuerd_error + string list"
  rs_get_group :: "'s \<Rightarrow> string \<Rightarrow> string \<Rightarrow> issuerd_error + group option"

definition list_all_roles :: "'s role_storage \<Rightarrow> 's \<Rightarrow> string \<Rightarrow> issuerd_error + role list" where
  "list_all_roles S st realm = rs_list_roles S st realm \<lparr>pg_first = 0, pg_max = 2147483647\<rparr>"

definition resolve_ids :: "string list \<Rightarrow> role list \<Rightarrow> role list" where
  "resolve_ids ids all_roles = filter (\<lambda>r. role_id r \<in> set ids) all_roles"

definition resolve_group_role_names :: "group \<Rightarrow> role list \<Rightarrow> role list" where
  "resolve_group_role_names g all_roles =
     List.map_filter (\<lambda>name. find (\<lambda>r. \<not> role_client_role r \<and> role_name r = name) all_roles)
       (grp_realm_roles g)
     @ concat (map (\<lambda>(owner_id, names).
         List.map_filter (\<lambda>name. find (\<lambda>r. role_client_role r
           \<and> role_client_id r = Some owner_id \<and> role_name r = name) all_roles) names)
       (grp_client_roles g))"

definition unwrap_or_default :: "'e + 'a list \<Rightarrow> 'a list" where
  "unwrap_or_default r = (case r of Inl _ \<Rightarrow> [] | Inr xs \<Rightarrow> xs)"

definition assigned_roles :: "'s role_storage \<Rightarrow> 's \<Rightarrow> string \<Rightarrow> string \<Rightarrow> role list \<Rightarrow> role list" where
  "assigned_roles S st realm user all_roles =
     resolve_ids (unwrap_or_default (rs_list_user_realm_roles S st realm user)
       @ unwrap_or_default (rs_list_user_client_roles S st realm user)) all_roles
     @ (case rs_list_user_groups S st realm user of
          Inr group_ids \<Rightarrow> concat (map (\<lambda>gid.
            case rs_get_group S st realm gid of
              Inr (Some g) \<Rightarrow> resolve_group_role_names g all_roles
            | _ \<Rightarrow> []) group_ids)
        | Inl _ \<Rightarrow> [])"

definition effective_user_roles ::
    "'s role_storage \<Rightarrow> 's \<Rightarrow> string \<Rightarrow> string \<Rightarrow> issuerd_error + role list" where
  "effective_user_roles S st realm user =
     and_then (list_all_roles S st realm) (\<lambda>all_roles.
       Inr (expand_composites (assigned_roles S st realm user all_roles) all_roles))"

definition effective_group_roles ::
    "'s role_storage \<Rightarrow> 's \<Rightarrow> string \<Rightarrow> string \<Rightarrow> issuerd_error + role list" where
  "effective_group_roles S st realm gid =
     and_then (list_all_roles S st realm) (\<lambda>all_roles.
     and_then (rs_get_group S st realm gid) (\<lambda>g.
       case g of None \<Rightarrow> Inl NotFound
       | Some g \<Rightarrow> Inr (expand_composites (resolve_group_role_names g all_roles) all_roles)))"

lemma in_map_filter: "y \<in> set (List.map_filter f xs) \<Longrightarrow> \<exists>x \<in> set xs. f x = Some y"
  by (auto simp: List.map_filter_def)

lemma set_resolve_group_role_names: "set (resolve_group_role_names g all_roles) \<subseteq> set all_roles"
  by (auto simp: resolve_group_role_names_def dest!: in_map_filter find_in)

lemma set_assigned_roles: "set (assigned_roles S st realm user all_roles) \<subseteq> set all_roles"
  using set_resolve_group_role_names
  by (fastforce simp: assigned_roles_def resolve_ids_def split: sum.splits option.splits)

text \<open>What role resolution relies on: the listed roles have different identifiers.\<close>

locale role_reads =
  fixes S :: "'s role_storage" and inv :: "'s \<Rightarrow> bool"
  assumes list_roles_ids: "inv st \<Longrightarrow> rs_list_roles S st realm pg = Inr rs \<Longrightarrow> distinct (map role_id rs)"
begin

lemma expansion_closure:
  assumes "inv st" and "list_all_roles S st realm = Inr all_roles" and "set seeds \<subseteq> set all_roles"
  shows "set (expand_composites seeds all_roles) = role_closure all_roles (set seeds)
    \<and> distinct (map role_id (expand_composites seeds all_roles))"
proof (rule expand_composites_closure)
  have "inj_on role_id (set all_roles)"
    using list_roles_ids [OF assms(1)] assms(2) by (auto simp: list_all_roles_def distinct_map)
  then show "inj_on role_id (set all_roles \<union> set seeds)"
    using assms(3) by (simp add: Un_absorb2)
qed

lemma effective_user_roles_closure:
  assumes "inv st" and "list_all_roles S st realm = Inr all_roles"
  shows "\<exists>roles. effective_user_roles S st realm user = Inr roles \<and> distinct (map role_id roles)
    \<and> set roles = role_closure all_roles (set (assigned_roles S st realm user all_roles))"
  using expansion_closure [OF assms set_assigned_roles [of S st realm user all_roles]] assms(2)
  by (auto simp: effective_user_roles_def)

lemma effective_user_roles_listed:
  assumes "inv st" and "list_all_roles S st realm = Inr all_roles"
    and "effective_user_roles S st realm user = Inr roles"
  shows "set roles \<subseteq> set all_roles"
  using effective_user_roles_closure [OF assms(1,2), of user] assms(3)
    role_closure_subset [of all_roles] set_assigned_roles [of S st realm user all_roles]
  by fastforce

lemma effective_group_roles_closure:
  assumes "inv st" and "list_all_roles S st realm = Inr all_roles"
    and "rs_get_group S st realm gid = Inr (Some g)"
  shows "\<exists>roles. effective_group_roles S st realm gid = Inr roles \<and> distinct (map role_id roles)
    \<and> set roles = role_closure all_roles (set (resolve_group_role_names g all_roles))"
  using expansion_closure [OF assms(1,2) set_resolve_group_role_names [of g all_roles]] assms(2,3)
  by (auto simp: effective_group_roles_def)

end

section \<open>On the in-memory directory\<close>

definition directory_reads :: "directory role_storage" where
  "directory_reads =
     \<lparr>rs_list_roles = (\<lambda>d realm pg. Inr (list_roles d realm pg)),
      rs_list_user_realm_roles = (\<lambda>d realm user. Inr (list_user_realm_roles d realm user)),
      rs_list_user_client_roles = (\<lambda>d realm user. Inr (list_user_client_roles d realm user)),
      rs_list_user_groups = (\<lambda>d realm user. Inr (list_user_groups d realm user)),
      rs_get_group = (\<lambda>d realm i. Inr (get_group d realm i))\<rparr>"

definition realm_roles :: "directory \<Rightarrow> string \<Rightarrow> role list" where
  "realm_roles d realm = sort_key role_name (filter (\<lambda>r. role_realm_id r = realm) (map snd (md_roles d)))"

lemma wf_rows_ids:
  assumes "wf_rows row_realm row_id rows"
  shows "distinct (map row_id (filter (\<lambda>r. row_realm r = realm) (map snd rows)))"
proof -
  have "map fst rows = map (\<lambda>r. (row_realm r, row_id r)) (map snd rows)"
    using assms by (auto simp: wf_rows_def)
  moreover have "distinct (map fst rows)"
    using assms by (simp add: wf_rows_def)
  ultimately have "distinct (map (\<lambda>r. (row_realm r, row_id r)) (map snd rows))"
    by (simp only:)
  then show ?thesis
    by (auto simp: distinct_map inj_on_def)
qed

lemma realm_roles_ids: "wf_directory d \<Longrightarrow> distinct (map role_id (realm_roles d realm))"
  using wf_rows_ids [of role_realm_id role_id "md_roles d" realm]
  by (auto simp: wf_directory_def realm_roles_def distinct_map)

lemma distinct_page: "distinct (map f xs) \<Longrightarrow> distinct (map f (page pg xs))"
  by (simp add: page_def take_map [symmetric] drop_map [symmetric])

interpretation dir: role_reads directory_reads wf_directory
proof
  show "distinct (map role_id rs)"
    if "wf_directory d" "rs_list_roles directory_reads d realm pg = Inr rs" for d realm pg rs
    using that distinct_page [OF realm_roles_ids [OF that(1)], of pg realm]
    by (auto simp: directory_reads_def list_roles_def realm_roles_def)
qed

lemma list_all_roles_directory:
  assumes "length (md_roles d) < 2 ^ 31"
  shows "list_all_roles directory_reads d realm = Inr (realm_roles d realm)"
proof -
  have "length (realm_roles d realm) \<le> length (md_roles d)"
    using length_filter_le [of "\<lambda>r. role_realm_id r = realm" "map snd (md_roles d)"]
    by (simp add: realm_roles_def)
  then show ?thesis
    using assms
    by (simp add: list_all_roles_def directory_reads_def list_roles_def page_def
        realm_roles_def [symmetric])
qed

lemma effective_user_roles_directory:
  assumes "length (md_roles d) < 2 ^ 31"
  shows "effective_user_roles directory_reads d realm user = Inr (expand_composites
    (assigned_roles directory_reads d realm user (realm_roles d realm)) (realm_roles d realm))"
  by (simp add: effective_user_roles_def list_all_roles_directory [OF assms])

text \<open>(C14) The effective roles of a user are exactly the roles reachable over composites from the
  roles assigned directly or through a group, each once; the expansion ends on cyclic
  composites too.\<close>

theorem effective_roles_are_closure:
  assumes "directory_reachable d" and "length (md_roles d) < 2 ^ 31"
  shows "\<exists>roles. effective_user_roles directory_reads d realm user = Inr roles
    \<and> distinct (map role_id roles)
    \<and> set roles = role_closure (realm_roles d realm)
        (set (assigned_roles directory_reads d realm user (realm_roles d realm)))"
  using dir.effective_user_roles_closure [OF reachable_wf [OF assms(1)] list_all_roles_directory [OF assms(2)]] .

text \<open>Two roles that contain each other, one of them assigned.\<close>

definition example_role :: "string \<Rightarrow> string \<Rightarrow> string \<Rightarrow> role" where
  "example_role i name composite =
     \<lparr>role_id = i, role_name = name, role_description = None, role_realm_id = ''r'',
      role_client_role = False, role_client_id = None, role_composite = True,
      role_composites = [composite], role_attributes = Map.empty\<rparr>"

definition example_directory :: directory where
  "example_directory = add_user_realm_role (directory_new\<lparr>md_roles :=
     [((''r'', ''1''), example_role ''1'' ''admin'' ''viewer''),
      ((''r'', ''2''), example_role ''2'' ''viewer'' ''admin'')]\<rparr>) ''r'' ''u'' ''1''"

lemma example_directory_reachable: "directory_reachable example_directory"
proof -
  let ?admin = "example_role ''1'' ''admin'' ''viewer''" and ?viewer = "example_role ''2'' ''viewer'' ''admin''"
  have "directory_reachable (directory_new\<lparr>md_roles := [((''r'', ''1''), ?admin)]\<rparr>)"
    by (rule directory_reachable.step [OF directory_reachable.new, of "CreateRole ?admin"])
      (simp add: create_role_def directory_new_def example_role_def)
  then have "directory_reachable (directory_new\<lparr>md_roles :=
      [((''r'', ''1''), ?admin), ((''r'', ''2''), ?viewer)]\<rparr>)"
    by (rule directory_reachable.step [where a = "CreateRole ?viewer"])
      (simp add: create_role_def directory_new_def example_role_def)
  then show ?thesis
    by (rule directory_reachable.step [where a = "AddRealmRole ''r'' ''u'' ''1''"])
      (simp add: example_directory_def)
qed

theorem effective_roles_are_closure_witness:
  "map_sum id (map role_id) (effective_user_roles directory_reads example_directory ''r'' ''u'')
     = Inr [''1'', ''2'']
   \<and> (\<exists>roles. effective_user_roles directory_reads example_directory ''r'' ''u'' = Inr roles
       \<and> distinct (map role_id roles))"
proof -
  have small: "length (md_roles example_directory) < 2 ^ 31"
    by (simp add: example_directory_def add_user_realm_role_def)
  from effective_roles_are_closure [OF example_directory_reachable small, of "''r''" "''u''"]
  have "\<exists>roles. effective_user_roles directory_reads example_directory ''r'' ''u'' = Inr roles
      \<and> distinct (map role_id roles)"
    by blast
  moreover have "map_sum id (map role_id)
      (effective_user_roles directory_reads example_directory ''r'' ''u'') = Inr [''1'', ''2'']"
    unfolding effective_user_roles_directory [OF small] by code_simp
  ultimately show ?thesis
    by blast
qed

text \<open>(C26) After a role is deleted no user of the realm has it any more, neither directly nor
  through a group, a composite or a stale assignment.\<close>

theorem deleted_role_not_effective:
  assumes "directory_reachable d" and "length (md_roles d) < 2 ^ 31"
  shows "\<exists>roles. effective_user_roles directory_reads (delete_role d realm i) realm user = Inr roles
    \<and> i \<notin> role_id ` set roles
    \<and> i \<notin> set (list_user_realm_roles (delete_role d realm i) realm user)
    \<and> i \<notin> set (list_user_client_roles (delete_role d realm i) realm user)"
proof -
  let ?d = "delete_role d realm i"
  have "directory_reachable ?d"
    using assms(1) by (rule directory_reachable.step [where a = "DeleteRole realm i"]) simp
  then have wf: "wf_directory ?d"
    by (rule reachable_wf)
  have "length (md_roles ?d) \<le> length (md_roles d)"
    by (simp add: delete_role_def AList.delete_eq)
  then have all: "list_all_roles directory_reads ?d realm = Inr (realm_roles ?d realm)"
    using assms(2) by (intro list_all_roles_directory) simp
  have "(realm, i) \<notin> fst ` set (md_roles ?d)"
    by (simp add: delete_role_def delete_notin_dom)
  then have gone: "i \<notin> role_id ` set (realm_roles ?d realm)"
    using wf by (auto simp: wf_directory_def wf_rows_def realm_roles_def rev_image_eqI)
  obtain roles where roles: "effective_user_roles directory_reads ?d realm user = Inr roles"
    using dir.effective_user_roles_closure [OF wf all] by blast
  have "i \<notin> role_id ` set roles"
    using dir.effective_user_roles_listed [OF wf all roles] gone by blast
  with roles show ?thesis
    by (auto simp: delete_role_def list_user_realm_roles_def list_user_client_roles_def
        retain_in_realm_def or_default_def split: option.splits)
qed

theorem deleted_role_not_effective_witness:
  "map_sum id (map role_id)
     (effective_user_roles directory_reads (delete_role example_directory ''r'' ''1'') ''r'' ''u'') = Inr []
   \<and> ''1'' \<notin> set (list_user_realm_roles (delete_role example_directory ''r'' ''1'') ''r'' ''u'')"
proof -
  have small: "length (md_roles example_directory) < 2 ^ 31"
      "length (md_roles (delete_role example_directory ''r'' ''1'')) < 2 ^ 31"
    by (simp_all add: example_directory_def add_user_realm_role_def delete_role_def)
  from deleted_role_not_effective [OF example_directory_reachable small(1), of "''r''" "''1''" "''u''"]
  have "''1'' \<notin> set (list_user_realm_roles (delete_role example_directory ''r'' ''1'') ''r'' ''u'')"
    by blast
  moreover have "map_sum id (map role_id)
      (effective_user_roles directory_reads (delete_role example_directory ''r'' ''1'') ''r'' ''u'') = Inr []"
    unfolding effective_user_roles_directory [OF small(2)] by code_simp
  ultimately show ?thesis
    by blast
qed

end
