(* ===== verification/Protocol_Utils.thy ===== *)
theory Protocol_Utils
  imports Validated Entities Scopes
begin

text \<open>
  The helpers the protocol endpoints share: \<^verbatim>\<open>utils.rs\<close>, \<^verbatim>\<open>resource.rs\<close> and
  \<^verbatim>\<open>pkce.rs\<close> of \<^verbatim>\<open>issuerd-protocol\<close>.  SHA-256 and the URL-safe base64 encoder are
  parameters of the PKCE definitions.
\<close>

section \<open>Parameter parsing\<close>

definition parse_scope :: "string option \<Rightarrow> scope" where
  "parse_scope input = (case input of Some s \<Rightarrow> scope_parse s | None \<Rightarrow> scope_empty)"

text \<open>The \<open>filter\<close> with a \<open>HashSet\<close> of the values already seen.\<close>

fun insert_unseen :: "string set \<Rightarrow> string list \<Rightarrow> string list" where
  "insert_unseen seen [] = []"
| "insert_unseen seen (v # vs) =
     (if v \<in> seen then insert_unseen seen vs else v # insert_unseen (insert v seen) vs)"

definition parse_space_separated :: "string option \<Rightarrow> string list" where
  "parse_space_separated input =
     (case input of Some s \<Rightarrow> insert_unseen {} (split_whitespace s) | None \<Rightarrow> [])"

definition parse_opt_u64 :: "params \<Rightarrow> string \<Rightarrow> issuerd_error + u64 option" where
  "parse_opt_u64 params key =
     (case params key of
        Some v \<Rightarrow> (case parse_u64 v of
            Some n \<Rightarrow> Inr (Some n)
          | None \<Rightarrow> Inl (InvalidRequest (''invalid numeric value for '' @ key)))
      | None \<Rightarrow> Inr None)"

definition parse_required_url :: "url_lib \<Rightarrow> params \<Rightarrow> string \<Rightarrow> issuerd_error + url" where
  "parse_required_url U params key =
     and_then (ok_or (InvalidRequest (''missing '' @ key)) (params key))
       (\<lambda>v. map_err (\<lambda>_. InvalidRequest (''invalid '' @ key)) (ul_parse U v))"

section \<open>Resource indicators (RFC 8707)\<close>

definition parse_resource_indicator ::
    "url_lib \<Rightarrow> string option \<Rightarrow> issuerd_error + string option" where
  "parse_resource_indicator U raw =
     (case raw of
        None \<Rightarrow> Inr None
      | Some raw \<Rightarrow>
          and_then (map_err (\<lambda>_. InvalidTarget ''resource must be an absolute URI'')
                      (ul_parse U raw))
            (\<lambda>parsed. if url_fragment parsed \<noteq> None
               then Inl (InvalidTarget ''resource must not contain a fragment'')
               else Inr (Some raw)))"

definition resource_parameter_count :: "url_lib \<Rightarrow> string \<Rightarrow> nat" where
  "resource_parameter_count U encoded =
     length (filter (\<lambda>(name, _). name = ''resource'') (ul_form_parse U encoded))"

definition validate_resource_parameter_count :: "nat \<Rightarrow> issuerd_error + unit" where
  "validate_resource_parameter_count n =
     (if n > 1 then Inl (InvalidTarget ''resource must appear at most once'') else Inr ())"

section \<open>Proof key for code exchange (RFC 7636)\<close>

record digest_lib =
  dl_sha256 :: "bytes \<Rightarrow> bytes"
  dl_base64url :: "bytes \<Rightarrow> string"

definition s256_challenge :: "digest_lib \<Rightarrow> string \<Rightarrow> string" where
  "s256_challenge D code_verifier = dl_base64url D (dl_sha256 D code_verifier)"

definition pkce_verify ::
    "digest_lib \<Rightarrow> string \<Rightarrow> string \<Rightarrow> pkce_method option \<Rightarrow> issuerd_error + unit" where
  "pkce_verify D code_verifier code_challenge pmethod =
     (if \<not> (43 \<le> length code_verifier \<and> length code_verifier \<le> 128)
      then Inl (InvalidRequest ''code_verifier must be 43-128 characters'')
      else (case pmethod of
          Some S256 \<Rightarrow>
            if s256_challenge D code_verifier = code_challenge then Inr ()
            else Inl (InvalidRequest ''pkce verification failed'')
        | Some Plain \<Rightarrow> Inl (InvalidRequest ''code_challenge_method must be S256'')
        | None \<Rightarrow> Inl (InvalidRequest ''code_challenge_method must be S256'')))"

section \<open>Facts\<close>

lemma set_insert_unseen: "set (insert_unseen seen vs) = set vs - seen"
  by (induction seen vs rule: insert_unseen.induct) auto

lemma distinct_insert_unseen: "distinct (insert_unseen seen vs)"
  by (induction seen vs rule: insert_unseen.induct) (auto simp: set_insert_unseen)

lemma subseq_insert_unseen: "subseq (insert_unseen seen vs) vs"
  by (induction seen vs rule: insert_unseen.induct) auto

lemma insert_unseen_id: "distinct vs \<Longrightarrow> set vs \<inter> seen = {} \<Longrightarrow> insert_unseen seen vs = vs"
  by (induction seen vs rule: insert_unseen.induct) auto

lemma set_parse_space_separated [simp]:
  "set (parse_space_separated (Some s)) = set (split_whitespace s)"
  by (simp add: parse_space_separated_def set_insert_unseen)

lemma distinct_parse_space_separated [simp]: "distinct (parse_space_separated input)"
  by (simp add: parse_space_separated_def distinct_insert_unseen split: option.split)

lemma wf_parse_scope [wf_intros]:
  "(\<And>s. input = Some s \<Longrightarrow> on_boundary s) \<Longrightarrow> wf_scope (parse_scope input)"
proof (cases input)
  case None
  then show ?thesis
    by (simp add: parse_scope_def scope_empty_def wf_scope_def normal_scope_def)
next
  case (Some s)
  assume "\<And>s. input = Some s \<Longrightarrow> on_boundary s"
  with Some show ?thesis
    by (simp add: parse_scope_def wf_scope_parse)
qed

lemma parse_opt_u64_Inr_iff [result_simps]:
  "parse_opt_u64 params key = Inr r \<longleftrightarrow>
     (case params key of None \<Rightarrow> r = None | Some v \<Rightarrow> parse_u64 v \<noteq> None \<and> r = parse_u64 v)"
  by (auto simp: parse_opt_u64_def split: option.splits)

lemma parse_required_url_Inr_iff [result_simps]:
  "parse_required_url U params key = Inr u \<longleftrightarrow> (\<exists>v. params key = Some v \<and> ul_parse U v = Inr u)"
  by (auto simp: parse_required_url_def result_simps)

lemma parse_resource_indicator_Inr_iff [result_simps]:
  "parse_resource_indicator U raw = Inr r \<longleftrightarrow>
     r = raw \<and> (\<forall>s. raw = Some s \<longrightarrow>
       (\<exists>u. ul_parse U s = Inr u \<and> url_fragment u = None))"
  by (auto simp: parse_resource_indicator_def result_simps split: option.splits)

lemma pkce_verify_Inr_iff [result_simps]:
  "pkce_verify D v c pm = Inr () \<longleftrightarrow>
     43 \<le> length v \<and> length v \<le> 128 \<and> pm = Some S256 \<and> s256_challenge D v = c"
  by (auto simp: pkce_verify_def split: option.splits pkce_method.splits)

end
