(* ===== verification/Redirect_Uris.thy ===== *)
theory Redirect_Uris
  imports Validated
begin

text \<open>
  \<open>RedirectUri\<close> of \<^verbatim>\<open>issuerd-core/src/models.rs\<close>: construction, the
  Keycloak-compatible wildcard match and the strict match of the MCP profile, with the
  loopback-port exception.  \<open>Url\<close> equality is equality of the serialisation.
\<close>

section \<open>Model\<close>

definition redirect_uri_new :: "url_lib \<Rightarrow> string \<Rightarrow> issuerd_error + string" where
  "redirect_uri_new U s =
     (if has_control s
      then Inl (InvalidRequest ''redirect_uri must not contain control characters'')
      else (case ul_parse U s of
          Inl e \<Rightarrow> Inl (InvalidRequest (''invalid redirect_uri: '' @ e))
        | Inr parsed \<Rightarrow>
            if url_scheme parsed = ''javascript'' \<or> url_scheme parsed = ''data''
               \<or> url_scheme parsed = ''vbscript''
            then Inl (InvalidRequest ''redirect_uri scheme is not allowed'')
            else Inr (url_str parsed)))"

definition redirect_matches :: "string \<Rightarrow> string \<Rightarrow> bool" where
  "redirect_matches registered requested =
     (if registered = requested then True
      else (case strip_suffix_char CHR ''*'' registered of
              Some p \<Rightarrow> p \<noteq> [] \<and> starts_with requested p
            | None \<Rightarrow> False))"

definition is_native_loopback :: "url \<Rightarrow> bool" where
  "is_native_loopback u =
     (case url_host u of
        Some (Ipv4 a) \<Rightarrow> a = 0x7F000001
      | Some (Ipv6 a) \<Rightarrow> a = 1
      | _ \<Rightarrow> False)"

definition redirect_matches_mcp :: "url_lib \<Rightarrow> string \<Rightarrow> string \<Rightarrow> bool" where
  "redirect_matches_mcp U registered requested =
     (if registered \<noteq> [] \<and> last registered = CHR ''*'' then False
      else if registered = requested then True
      else (case ul_parse U registered of
          Inl _ \<Rightarrow> False
        | Inr reg \<Rightarrow>
            (case ul_parse U requested of
               Inl _ \<Rightarrow> False
             | Inr req \<Rightarrow>
                 if url_scheme reg \<noteq> ''http'' \<or> url_scheme req \<noteq> ''http''
                    \<or> \<not> is_native_loopback reg \<or> url_host reg \<noteq> url_host req
                 then False
                 else (case ul_set_port_none U reg of
                     None \<Rightarrow> False
                   | Some reg' \<Rightarrow>
                       (case ul_set_port_none U req of
                          None \<Rightarrow> False
                        | Some req' \<Rightarrow> url_str reg' = url_str req')))))"

section \<open>Facts\<close>

lemma strip_suffix_char_Some_iff [simp]: "strip_suffix_char d s = Some p \<longleftrightarrow> s = p @ [d]"
  by (cases s rule: rev_cases) (auto simp: strip_suffix_char_def)

lemma starts_with_iff [simp]: "starts_with s p \<longleftrightarrow> prefix p s"
  by (metis append_eq_conv_conj append_take_drop_id prefix_def starts_with_def)

lemma redirect_matches_iff:
  "redirect_matches registered requested \<longleftrightarrow>
     requested = registered
     \<or> (\<exists>p. registered = p @ ''*'' \<and> p \<noteq> [] \<and> prefix p requested)"
  by (auto simp: redirect_matches_def strip_suffix_char_Some_iff split: option.splits)
     (metis option.distinct(1) strip_suffix_char_Some_iff)+

lemma native_loopback_host:
  "is_native_loopback u \<longleftrightarrow> url_host u = Some (Ipv4 0x7F000001) \<or> url_host u = Some (Ipv6 1)"
  by (auto simp: is_native_loopback_def split: option.splits host.splits)

lemma redirect_matches_mcp_cases:
  assumes "redirect_matches_mcp U registered requested"
  shows "(\<nexists>p. registered = p @ ''*'')
    \<and> (requested = registered
       \<or> (\<exists>u v. ul_parse U registered = Inr u \<and> ul_parse U requested = Inr v
            \<and> url_scheme u = ''http'' \<and> url_scheme v = ''http'' \<and> url_host v = url_host u
            \<and> is_native_loopback u
            \<and> map_option url_str (ul_set_port_none U u) = map_option url_str (ul_set_port_none U v)))"
  using assms
  by (auto simp: redirect_matches_mcp_def split: if_splits sum.splits option.splits)

lemma redirect_uri_new_Inr:
  "redirect_uri_new U s = Inr r \<Longrightarrow>
     \<not> has_control s \<and> (\<exists>u. ul_parse U s = Inr u \<and> r = url_str u
       \<and> url_scheme u \<notin> {''javascript'', ''data'', ''vbscript''})"
  by (auto simp: redirect_uri_new_def split: if_splits sum.splits)

end
