(* ===== verification/Samples.thy ===== *)
theory Samples
  imports Client_Scopes Redirect_Uris
begin

text \<open>
  Concrete instances used by the witnesses: a \<open>url\<close> crate that reads the URLs of the
  examples, a JSON crate that reads one document, a realm and two clients.
\<close>

definition example_url :: "string \<Rightarrow> host \<Rightarrow> url" where
  "example_url s h =
     \<lparr>url_str = s, url_scheme = takeWhile (\<lambda>c. c \<noteq> CHR '':'') s, url_host = Some h,
      url_fragment = (if CHR ''#'' \<in> set s then Some (tl (dropWhile (\<lambda>c. c \<noteq> CHR ''#'') s)) else None)\<rparr>"

definition loopback_cb :: "string \<Rightarrow> string" where
  "loopback_cb port = ''http://127.0.0.1'' @ port @ ''/cb''"

definition example_url_lib :: url_lib where
  "example_url_lib =
     \<lparr>ul_parse = (\<lambda>s. if s = loopback_cb '':8080'' \<or> s = loopback_cb '':9000''
                       then Inr (example_url s (Ipv4 0x7F000001))
                       else if starts_with s ''https://'' then Inr (example_url s (Domain ''app.test''))
                       else Inl ''relative URL without a base''),
      ul_set_port_none = (\<lambda>u. if url_scheme u = ''http'' then Some (u\<lparr>url_str := loopback_cb []\<rparr>)
                               else Some u),
      ul_form_parse = (\<lambda>_. [])\<rparr>"

definition example_details :: json where
  "example_details = JObject [(''type'', JString ''payment'')]"

definition example_json_lib :: json_lib where
  "example_json_lib =
     \<lparr>jl_from_str = (\<lambda>s. if s = ''[payment]'' then Some (JArray [example_details]) else None), jl_to_string = (\<lambda>_. ''null''),
      jl_variant_error = (\<lambda>_ s. ''unknown variant '' @ s)\<rparr>"

definition example_client :: "bool \<Rightarrow> string list \<Rightarrow> client" where
  "example_client public uris =
     \<lparr>cli_id = ''c-1'', cli_realm_id = ''r-1'', cli_client_id = ''app'', cli_name = None,
      cli_description = None, cli_enabled = True, cli_protocol = OpenIdConnect,
      cli_public_client = public, cli_bearer_only = False,
      cli_client_authenticator_type = ClientSecretAuth, cli_secret = None,
      cli_redirect_uris = uris, cli_web_origins = [],
      cli_default_scopes = scope_from_vec [''profile''],
      cli_optional_scopes = scope_from_vec [''email'', ''mcp:read'', ''mcp:step_up''],
      cli_consent_required = False, cli_full_scope_allowed = True,
      cli_service_accounts_enabled = False, cli_protocol_mappers = [],
      cli_scope_mappings = scope_mappings_default, cli_attributes = Map.empty\<rparr>"

definition example_realm :: realm where
  "example_realm =
     realm_default\<lparr>rlm_attributes := [''authorization_details_types'' \<mapsto> ''payment'']\<rparr>"

definition example_challenge :: string where
  "example_challenge = ''E9Melhoa2OwvFrEMTJguCHaoeK1t8URWbuGJSstw-cM''"

lemmas example_defs =
  example_url_def loopback_cb_def example_url_lib_def example_json_lib_def example_client_def

end
