(* ===== verification/Authorization.thy ===== *)
theory Authorization
  imports Protocol_Utils Samples
begin

text \<open>
  The authorization endpoint's request: \<^verbatim>\<open>issuerd-protocol/src/authorization.rs\<close>.
  Response types, response modes and prompts with their text forms, parsing of the parameter
  map, the checks against realm and client (also under the MCP profile), rich authorization
  requests, and the conversion of request-object claims into parameters.
\<close>

section \<open>Response types, response modes, prompts\<close>

datatype response_mode = Query | Fragment | FormPost | Jwt | QueryJwt | FragmentJwt | FormPostJwt

fun response_mode_as_str :: "response_mode \<Rightarrow> string" where
  "response_mode_as_str Query = ''query''"
| "response_mode_as_str Fragment = ''fragment''"
| "response_mode_as_str FormPost = ''form_post''"
| "response_mode_as_str Jwt = ''jwt''"
| "response_mode_as_str QueryJwt = ''query.jwt''"
| "response_mode_as_str FragmentJwt = ''fragment.jwt''"
| "response_mode_as_str FormPostJwt = ''form_post.jwt''"

fun is_jwt_secured :: "response_mode \<Rightarrow> bool" where
  "is_jwt_secured Jwt = True"
| "is_jwt_secured QueryJwt = True"
| "is_jwt_secured FragmentJwt = True"
| "is_jwt_secured FormPostJwt = True"
| "is_jwt_secured _ = False"

definition response_mode_from_str :: "string \<Rightarrow> response_mode option" where
  "response_mode_from_str s =
     (if s = ''query'' then Some Query
      else if s = ''fragment'' then Some Fragment
      else if s = ''form_post'' then Some FormPost
      else if s = ''jwt'' then Some Jwt
      else if s = ''query.jwt'' then Some QueryJwt
      else if s = ''fragment.jwt'' then Some FragmentJwt
      else if s = ''form_post.jwt'' then Some FormPostJwt
      else None)"

datatype prompt = NonePrompt | LoginPrompt | ConsentPrompt | SelectAccountPrompt

datatype response_type =
    Code | Token | IdToken | CodeIdToken | CodeToken | IdTokenToken | CodeIdTokenToken
  | TokenIdToken

fun response_type_as_str :: "response_type \<Rightarrow> string" where
  "response_type_as_str Code = ''code''"
| "response_type_as_str Token = ''token''"
| "response_type_as_str IdToken = ''id_token''"
| "response_type_as_str CodeIdToken = ''code id_token''"
| "response_type_as_str CodeToken = ''code token''"
| "response_type_as_str IdTokenToken = ''id_token token''"
| "response_type_as_str CodeIdTokenToken = ''code id_token token''"
| "response_type_as_str TokenIdToken = ''token id_token''"

definition has_code :: "response_type \<Rightarrow> bool" where
  "has_code t \<longleftrightarrow> t \<in> {Code, CodeIdToken, CodeToken, CodeIdTokenToken}"

definition has_token :: "response_type \<Rightarrow> bool" where
  "has_token t \<longleftrightarrow> t \<in> {Token, CodeToken, IdTokenToken, TokenIdToken, CodeIdTokenToken}"

definition has_id_token :: "response_type \<Rightarrow> bool" where
  "has_id_token t \<longleftrightarrow> t \<in> {IdToken, CodeIdToken, IdTokenToken, TokenIdToken, CodeIdTokenToken}"

definition default_response_mode_is_fragment :: "response_type \<Rightarrow> bool" where
  "default_response_mode_is_fragment t \<longleftrightarrow> has_id_token t \<or> has_token t"

definition response_type_from_str :: "string \<Rightarrow> issuerd_error + response_type" where
  "response_type_from_str s =
     (if s = ''code'' then Inr Code
      else if s = ''id_token'' then Inr IdToken
      else if s = ''token'' then Inr Token
      else if s = ''code id_token'' then Inr CodeIdToken
      else if s = ''code token'' then Inr CodeToken
      else if s = ''id_token token'' \<or> s = ''token id_token'' then Inr IdTokenToken
      else if s = ''code id_token token'' then Inr CodeIdTokenToken
      else Inl (InvalidRequest ''unsupported response_type''))"

definition prompt_of_str :: "string \<Rightarrow> issuerd_error + prompt" where
  "prompt_of_str s =
     (if s = ''none'' then Inr NonePrompt
      else if s = ''login'' then Inr LoginPrompt
      else if s = ''consent'' then Inr ConsentPrompt
      else if s = ''select_account'' then Inr SelectAccountPrompt
      else Inl (InvalidRequest (''invalid prompt: '' @ s)))"

definition parse_prompt :: "string option \<Rightarrow> issuerd_error + prompt list" where
  "parse_prompt v =
     (let prompts = parse_space_separated v in
      if prompts = [] then Inr []
      else and_then (collect_results prompt_of_str prompts) (\<lambda>parsed.
        if NonePrompt \<in> set parsed \<and> length parsed > 1
        then Inl (InvalidRequest (''prompt '' @ [CHR 0x27] @ ''none'' @ [CHR 0x27]
                    @ '' must be the only prompt value''))
        else Inr parsed))"

section \<open>Rich authorization requests and request objects\<close>

definition details_type :: "json \<Rightarrow> string option" where
  "details_type d = Option.bind (json_get ''type'' d) json_as_str"

definition parse_authorization_details ::
    "json_lib \<Rightarrow> string option \<Rightarrow> issuerd_error + json list option" where
  "parse_authorization_details J raw =
     (case raw of
        None \<Rightarrow> Inr None
      | Some raw \<Rightarrow>
          (case jl_from_str J raw of
             None \<Rightarrow> Inl (InvalidAuthorizationDetails ''not valid JSON'')
           | Some (JArray elements) \<Rightarrow>
               if list_all (\<lambda>e. details_type e \<noteq> None \<and> details_type e \<noteq> Some []) elements
               then Inr (Some elements)
               else Inl (InvalidAuthorizationDetails
                 (''every element must be an object with a non-empty string ''
                    @ [CHR 0x22] @ ''type'' @ [CHR 0x22]))
           | Some _ \<Rightarrow> Inl (InvalidAuthorizationDetails ''must be a JSON array'')))"

definition authorization_details_is_subset :: "json list \<Rightarrow> json list \<Rightarrow> bool" where
  "authorization_details_is_subset requested granted = list_all (\<lambda>r. r \<in> set granted) requested"

definition REQUEST_OBJECT_ENVELOPE_CLAIMS :: "string list" where
  "REQUEST_OBJECT_ENVELOPE_CLAIMS = [''iss'', ''aud'', ''exp'', ''nbf'', ''iat'', ''jti'']"

definition claim_param :: "json_lib \<Rightarrow> json \<Rightarrow> string option" where
  "claim_param J v =
     (case v of
        JString s \<Rightarrow> Some s
      | JNumber n \<Rightarrow> Some n
      | JBool b \<Rightarrow> Some (bool_to_string b)
      | JNull \<Rightarrow> None
      | other \<Rightarrow> Some (jl_to_string J other))"

fun request_object_claims_to_params :: "json_lib \<Rightarrow> (string \<times> json) list \<Rightarrow> params \<Rightarrow> params" where
  "request_object_claims_to_params J [] params = params"
| "request_object_claims_to_params J ((name, v) # claims) params =
     (if name \<in> set REQUEST_OBJECT_ENVELOPE_CLAIMS
      then request_object_claims_to_params J claims params
      else (case claim_param J v of
          None \<Rightarrow> request_object_claims_to_params J claims params
        | Some s \<Rightarrow> request_object_claims_to_params J claims (params(name \<mapsto> s))))"

section \<open>The request\<close>

record authorization_request =
  ar_response_type :: response_type
  ar_client_id :: string
  ar_redirect_uri :: url
  ar_scope :: scope
  ar_state :: "string option"
  ar_nonce :: "string option"
  ar_response_mode :: "response_mode option"
  ar_prompt :: "prompt list"
  ar_max_age :: "u64 option"
  ar_code_challenge :: "string option"
  ar_code_challenge_method :: "pkce_method option"
  ar_login_hint :: "string option"
  ar_id_token_hint :: "string option"
  ar_acr_values :: "string list"
  ar_ui_locales :: "string list"
  ar_claims :: "json option"
  ar_authorization_details :: "json list option"
  ar_resource :: "string option"
  ar_registration :: bool
  ar_request :: "string option"
  ar_request_uri :: "string option"

definition authorization_parse ::
    "url_lib \<Rightarrow> json_lib \<Rightarrow> params \<Rightarrow> issuerd_error + authorization_request" where
  "authorization_parse U J params =
     and_then (and_then (ok_or (InvalidRequest ''missing response_type'') (params ''response_type''))
       (\<lambda>s. map_err (\<lambda>_. InvalidRequest ''unsupported response_type'') (response_type_from_str s)))
     (\<lambda>response_type.
     and_then (and_then (ok_or (InvalidRequest ''missing client_id'') (params ''client_id''))
       client_identifier_new)
     (\<lambda>client_id.
     and_then (parse_required_url U params ''redirect_uri'') (\<lambda>redirect_uri.
     let scope = parse_scope (params ''scope'') in
     and_then (opt_transpose
       (\<lambda>s. ok_or (InvalidRequest ''unsupported response_mode'') (response_mode_from_str s))
       (params ''response_mode''))
     (\<lambda>response_mode.
     and_then (parse_prompt (params ''prompt'')) (\<lambda>prompt.
     and_then (parse_opt_u64 params ''max_age'') (\<lambda>max_age.
     and_then (opt_transpose
       (\<lambda>s. ok_or (InvalidRequest ''invalid claims JSON'') (jl_from_str J s)) (params ''claims''))
     (\<lambda>claims.
     and_then (parse_authorization_details J (params ''authorization_details''))
     (\<lambda>authorization_details.
     and_then (parse_resource_indicator U (params ''resource'')) (\<lambda>resource.
     if params ''request'' \<noteq> None \<or> params ''request_uri'' \<noteq> None then Inl RequestNotSupported
     else
     and_then (opt_transpose nonce_new (params ''nonce'')) (\<lambda>nonce.
     and_then (opt_transpose base64url_new (params ''code_challenge'')) (\<lambda>code_challenge.
     and_then (opt_transpose
       (\<lambda>s. ok_or (InvalidRequest (''invalid code_challenge_method: ''
              @ jl_variant_error J [''S256'', ''plain''] s))
              (pkce_method_from_str s)) (params ''code_challenge_method''))
     (\<lambda>code_challenge_method.
     Inr \<lparr>ar_response_type = response_type, ar_client_id = client_id,
          ar_redirect_uri = redirect_uri, ar_scope = scope, ar_state = params ''state'',
          ar_nonce = nonce, ar_response_mode = response_mode, ar_prompt = prompt,
          ar_max_age = max_age, ar_code_challenge = code_challenge,
          ar_code_challenge_method = code_challenge_method,
          ar_login_hint = params ''login_hint'', ar_id_token_hint = params ''id_token_hint'',
          ar_acr_values = parse_space_separated (params ''acr_values''),
          ar_ui_locales = parse_space_separated (params ''ui_locales''),
          ar_claims = claims, ar_authorization_details = authorization_details,
          ar_resource = resource, ar_registration = (params ''registration'' = Some ''true''),
          ar_request = params ''request'', ar_request_uri = params ''request_uri''\<rparr>))))))))))))"

definition DEFAULT_RESPONSE_TYPES :: "string list" where
  "DEFAULT_RESPONSE_TYPES =
     [''code'', ''id_token'', ''token'', ''code id_token'', ''code token'', ''id_token token'',
      ''code id_token token'']"

text \<open>The first requested details type the realm does not list.\<close>

definition unsupported_details_type :: "realm \<Rightarrow> authorization_request \<Rightarrow> string option" where
  "unsupported_details_type realm r =
     (case (authorization_details_types realm, ar_authorization_details r) of
        (Some supported, Some details) \<Rightarrow>
          find (\<lambda>t. t \<notin> set supported) (List.map_filter details_type details)
      | _ \<Rightarrow> None)"

definition validate_with_mcp ::
    "url_lib \<Rightarrow> json_lib \<Rightarrow> authorization_request \<Rightarrow> realm \<Rightarrow> client \<Rightarrow> bool
     \<Rightarrow> issuerd_error + unit" where
  "validate_with_mcp U J r realm client mcp_enabled =
     (let strict_mcp = (mcp_enabled \<and> ar_resource r \<noteq> None);
          requested = url_str (ar_redirect_uri r);
          redirect_registered = list_ex (\<lambda>registered.
            if strict_mcp then redirect_matches_mcp U registered requested
            else redirect_matches registered requested) (cli_redirect_uris client);
          allowed = (case allowed_response_types J client of
                       Some ts \<Rightarrow> ts | None \<Rightarrow> DEFAULT_RESPONSE_TYPES);
          rt = ar_response_type r in
      if \<not> redirect_registered then Inl (InvalidRequest ''redirect_uri not registered'')
      else if url_fragment (ar_redirect_uri r) \<noteq> None
        then Inl (InvalidRequest ''redirect_uri must not contain a fragment'')
      else if response_type_as_str rt \<notin> set allowed
        then Inl (InvalidRequest ''response_type not allowed for client'')
      else if strict_mcp \<and> rt \<noteq> Code
        then Inl (InvalidRequest ''MCP resource requests require response_type=code'')
      else if default_response_mode_is_fragment rt
              \<and> (ar_response_mode r = Some Query \<or> ar_response_mode r = Some QueryJwt)
        then Inl (InvalidRequest
          ''query response_mode is not allowed for token-bearing response_type'')
      else if list_ex (\<lambda>s. s \<noteq> ''openid''
                \<and> \<not> client_scope_request_permitted_with_mcp client s mcp_enabled)
                (tokens (ar_scope r))
        then Inl InvalidScope
      else if has_id_token rt \<and> \<not> scope_contains (ar_scope r) ''openid''
        then Inl (InvalidRequest ''openid scope required for id_token response_type'')
      else if has_code rt \<and> ar_code_challenge r = None \<and> strict_mcp
        then Inl (InvalidRequest ''code_challenge required for MCP resource requests'')
      else if has_code rt \<and> ar_code_challenge r = None \<and> cli_public_client client
        then Inl (InvalidRequest ''code_challenge required for public clients'')
      else if ar_code_challenge r \<noteq> None \<and> ar_code_challenge_method r \<noteq> Some S256
        then Inl (InvalidRequest ''code_challenge_method must be S256'')
      else if NonePrompt \<in> set (ar_prompt r) \<and> length (ar_prompt r) > 1
        then Inl (InvalidRequest (''prompt '' @ [CHR 0x27] @ ''none'' @ [CHR 0x27]
                    @ '' must be the only prompt value''))
      else if ar_max_age r = Some 0 then Inl (InvalidRequest ''max_age must be > 0'')
      else (case unsupported_details_type realm r of
          Some t \<Rightarrow> Inl (InvalidAuthorizationDetails
            (''authorization details type '' @ [CHR 0x22] @ t @ [CHR 0x22]
               @ '' is not supported by this realm''))
        | None \<Rightarrow> Inr ()))"

definition validate :: "url_lib \<Rightarrow> json_lib \<Rightarrow> authorization_request \<Rightarrow> realm \<Rightarrow> client
     \<Rightarrow> issuerd_error + unit" where
  "validate U J r realm client = validate_with_mcp U J r realm client False"

section \<open>Facts on the text forms\<close>

lemma response_mode_roundtrip [simp]: "response_mode_from_str (response_mode_as_str m) = Some m"
  by (cases m) (simp_all add: response_mode_from_str_def)

lemma response_mode_from_str_Some:
  "response_mode_from_str s = Some m \<Longrightarrow> s = response_mode_as_str m"
  unfolding response_mode_from_str_def by (cases m) (simp_all split: if_split_asm)

lemma response_type_of_as_str:
  "response_type_from_str (response_type_as_str t) =
     Inr (if t = TokenIdToken then IdTokenToken else t)"
  by (cases t) (simp_all add: response_type_from_str_def)

lemma response_type_from_str_Inr:
  "response_type_from_str s = Inr t \<Longrightarrow>
     t \<noteq> TokenIdToken
     \<and> (s = response_type_as_str t \<or> t = IdTokenToken \<and> s = response_type_as_str TokenIdToken)"
  unfolding response_type_from_str_def by (cases t) (simp_all split: if_split_asm)

lemma prompt_of_str_inj:
  "prompt_of_str s = Inr p \<Longrightarrow> prompt_of_str t = Inr p \<Longrightarrow> s = t"
  unfolding prompt_of_str_def by (simp split: if_split_asm)

lemma parse_prompt_none_alone:
  assumes "parse_prompt v = Inr ps" and "NonePrompt \<in> set ps"
  shows "ps = [NonePrompt]"
  using assms
  by (cases ps) (auto simp: parse_prompt_def Let_def result_simps split: if_splits)

section \<open>Facts on rich authorization requests and request objects\<close>

lemma parse_authorization_details_Inr_iff [result_simps]:
  "parse_authorization_details J raw = Inr r \<longleftrightarrow>
     (case raw of
        None \<Rightarrow> r = None
      | Some s \<Rightarrow> (\<exists>es. jl_from_str J s = Some (JArray es) \<and> r = Some es
          \<and> (\<forall>e \<in> set es. \<exists>t. details_type e = Some t \<and> t \<noteq> [])))"
  by (auto simp: parse_authorization_details_def list_all_iff
      split: option.splits json.splits if_splits) force+

lemma authorization_details_is_subset_iff [simp]:
  "authorization_details_is_subset requested granted \<longleftrightarrow> set requested \<subseteq> set granted"
  by (auto simp: authorization_details_is_subset_def list_all_iff)

lemma request_object_params_acc:
  assumes "distinct (map fst claims)"
  shows "request_object_claims_to_params J claims params name =
    (if name \<in> fst ` set claims \<and> name \<notin> set REQUEST_OBJECT_ENVELOPE_CLAIMS
        \<and> claim_param J (the (map_of claims name)) \<noteq> None
     then claim_param J (the (map_of claims name)) else params name)"
  using assms
proof (induction claims arbitrary: params)
  case (Cons c claims)
  obtain n v where c: "c = (n, v)"
    by (cases c)
  with Cons.prems have "n \<notin> fst ` set claims" and "distinct (map fst claims)"
    by simp_all
  with c Cons.IH show ?case
    by (cases "name = n"; cases "claim_param J v") auto
qed simp

section \<open>Facts on parsing\<close>

lemma base64url_new_Inr_iff [result_simps]:
  "base64url_new s = Inr b \<longleftrightarrow> b = s \<and> s \<noteq> [] \<and> (\<forall>c \<in> set s. is_base64url_char c)"
  by (auto simp: base64url_new_def list_all_iff)

lemma authorization_parse_fields:
  assumes "authorization_parse U J params = Inr r"
  shows
    "(\<exists>s. params ''response_type'' = Some s \<and> response_type_from_str s = Inr (ar_response_type r))
     \<and> (\<exists>c. params ''client_id'' = Some c \<and> client_identifier_new c = Inr (ar_client_id r))
     \<and> (\<exists>s. params ''redirect_uri'' = Some s \<and> ul_parse U s = Inr (ar_redirect_uri r))
     \<and> ar_scope r = parse_scope (params ''scope'')
     \<and> parse_prompt (params ''prompt'') = Inr (ar_prompt r)
     \<and> parse_opt_u64 params ''max_age'' = Inr (ar_max_age r)
     \<and> parse_authorization_details J (params ''authorization_details'')
         = Inr (ar_authorization_details r)
     \<and> parse_resource_indicator U (params ''resource'') = Inr (ar_resource r)
     \<and> opt_transpose nonce_new (params ''nonce'') = Inr (ar_nonce r)
     \<and> opt_transpose base64url_new (params ''code_challenge'') = Inr (ar_code_challenge r)
     \<and> ar_request r = None \<and> ar_request_uri r = None"
  using assms unfolding authorization_parse_def Let_def and_then_Inr_iff if_Inl_eq_Inr_iff
    ok_or_Inr_iff map_err_Inr_iff parse_required_url_Inr_iff de_Morgan_disj not_not
  apply (elim exE conjE)
  apply (drule sum.inject(2) [THEN iffD1])
  apply hypsubst
  apply (simp (no_asm) only: authorization_request.simps)
  apply (intro conjI exI; (assumption | rule refl)?)
  done

lemma parse_code_challenge:
  assumes "authorization_parse U J params = Inr r" and "ar_code_challenge r = Some c"
  shows "params ''code_challenge'' = Some c \<and> c \<noteq> [] \<and> (\<forall>x \<in> set c. is_base64url_char x)"
proof -
  have "opt_transpose base64url_new (params ''code_challenge'') = Inr (ar_code_challenge r)"
    using authorization_parse_fields [OF assms(1)] by (elim conjE)
  with assms(2) show ?thesis
    by (cases "params ''code_challenge''") (auto simp: result_simps split: sum.splits)
qed

lemma parse_resource_field:
  assumes "authorization_parse U J params = Inr r" and "ar_resource r = Some s"
  shows "\<exists>u. ul_parse U s = Inr u \<and> url_fragment u = None"
proof -
  have "parse_resource_indicator U (params ''resource'') = Inr (ar_resource r)"
    using authorization_parse_fields [OF assms(1)] by (elim conjE)
  with assms(2) show ?thesis
    by (auto simp: result_simps)
qed

lemma parse_resource_eq:
  assumes "authorization_parse U J params = Inr r"
  shows "ar_resource r = params ''resource''"
  using authorization_parse_fields [OF assms]
  by (elim conjE) (simp only: parse_resource_indicator_Inr_iff)

lemma parse_redirect_uri:
  assumes "authorization_parse U J params = Inr r"
  shows "\<exists>s. params ''redirect_uri'' = Some s \<and> ul_parse U s = Inr (ar_redirect_uri r)"
  using authorization_parse_fields [OF assms] by (elim conjE)

lemma parse_details_typed:
  assumes "authorization_parse U J params = Inr r" and "ar_authorization_details r = Some es"
    and "e \<in> set es"
  shows "\<exists>t. details_type e = Some t \<and> t \<noteq> []"
proof -
  have "parse_authorization_details J (params ''authorization_details'')
    = Inr (ar_authorization_details r)"
    using authorization_parse_fields [OF assms(1)] by (elim conjE)
  with assms(2,3) show ?thesis
    by (auto simp: result_simps split: option.splits)
qed

section \<open>Facts on validation\<close>

lemma none_refused:
  "\<not> (\<exists>s \<in> A. s \<noteq> ''openid'' \<and> \<not> client_scope_request_permitted_with_mcp c s mcp) \<longleftrightarrow>
     (\<forall>s \<in> A. s = ''openid'' \<or> client_scope_request_permitted_with_mcp c s mcp)"
  by blast

lemma unsupported_details_type_None_iff:
  "unsupported_details_type realm r = None \<longleftrightarrow>
     (\<forall>supported es e t. authorization_details_types realm = Some supported
        \<longrightarrow> ar_authorization_details r = Some es \<longrightarrow> e \<in> set es \<longrightarrow> details_type e = Some t
        \<longrightarrow> t \<in> set supported)"
  by (auto simp: unsupported_details_type_def find_None_iff List.map_filter_def
      split: option.splits) (metis option.exhaust_sel)

text \<open>Each conjunct is a check of the endpoint, on the request as parsed.\<close>

lemma validate_with_mcp_Inr_iff:
  "validate_with_mcp U J r realm client mcp = Inr () \<longleftrightarrow>
     (\<exists>reg \<in> set (cli_redirect_uris client).
        if mcp \<and> ar_resource r \<noteq> None
        then redirect_matches_mcp U reg (url_str (ar_redirect_uri r))
        else redirect_matches reg (url_str (ar_redirect_uri r)))
     \<and> url_fragment (ar_redirect_uri r) = None
     \<and> response_type_as_str (ar_response_type r)
         \<in> set (case allowed_response_types J client of
                  Some ts \<Rightarrow> ts | None \<Rightarrow> DEFAULT_RESPONSE_TYPES)
     \<and> (mcp \<and> ar_resource r \<noteq> None \<longrightarrow> ar_response_type r = Code)
     \<and> (default_response_mode_is_fragment (ar_response_type r)
         \<longrightarrow> ar_response_mode r \<noteq> Some Query \<and> ar_response_mode r \<noteq> Some QueryJwt)
     \<and> (\<forall>s \<in> set (tokens (ar_scope r)). s \<noteq> ''openid''
         \<longrightarrow> client_scope_request_permitted_with_mcp client s mcp)
     \<and> (has_id_token (ar_response_type r) \<longrightarrow> ''openid'' \<in> set (tokens (ar_scope r)))
     \<and> (has_code (ar_response_type r) \<and> (mcp \<and> ar_resource r \<noteq> None \<or> cli_public_client client)
         \<longrightarrow> ar_code_challenge r \<noteq> None)
     \<and> (ar_code_challenge r \<noteq> None \<longrightarrow> ar_code_challenge_method r = Some S256)
     \<and> (NonePrompt \<in> set (ar_prompt r) \<longrightarrow> length (ar_prompt r) \<le> 1)
     \<and> ar_max_age r \<noteq> Some 0
     \<and> unsupported_details_type realm r = None"
proof (cases "unsupported_details_type realm r")
  case None
  show ?thesis
    unfolding validate_with_mcp_def Let_def if_Inl_eq_Inr_iff none_refused
      scope_contains_iff list_ex_iff None option.case de_Morgan_conj de_Morgan_disj not_not
      linorder_not_less imp_conv_disj
    apply (rule iffI; elim conjE; intro conjI; (assumption | rule refl | argo)?)
    done
next
  case (Some t)
  show ?thesis
    unfolding validate_with_mcp_def Let_def if_Inl_eq_Inr_iff Some option.case
    by (rule iffI; elim conjE; simp only: sum.distinct option.distinct)
qed

section \<open>An example request\<close>

definition example_params :: params where
  "example_params =
     [''response_type'' \<mapsto> ''code'', ''client_id'' \<mapsto> ''app'',
      ''redirect_uri'' \<mapsto> loopback_cb '':9000'', ''scope'' \<mapsto> ''openid mcp:read'',
      ''resource'' \<mapsto> ''https://mcp.test/api'', ''code_challenge'' \<mapsto> example_challenge,
      ''code_challenge_method'' \<mapsto> ''S256'',
      ''authorization_details'' \<mapsto> ''[payment]'']"

definition example_request :: authorization_request where
  "example_request =
     (case authorization_parse example_url_lib example_json_lib example_params of Inr r \<Rightarrow> r)"

lemma example_request_parsed:
  "authorization_parse example_url_lib example_json_lib example_params = Inr example_request"
  by code_simp

lemma example_request_accepted:
  "validate_with_mcp example_url_lib example_json_lib example_request example_realm
     (example_client True [loopback_cb '':8080'']) True = Inr ()"
  by code_simp

section \<open>Properties of the endpoint\<close>

text \<open>(C10) An authorization request that is parsed and accepted redirects only where the
  client registered: to a registered URI itself, below the prefix of a registered wildcard,
  or, for an MCP resource request, never through a wildcard but possibly to another port of
  a registered \<open>http\<close> loopback address.  The target has no fragment.\<close>

theorem accepted_redirect_registered:
  assumes "authorization_parse U J params = Inr r"
    and "validate_with_mcp U J r realm client mcp = Inr ()"
  shows "url_fragment (ar_redirect_uri r) = None
    \<and> (\<exists>reg \<in> set (cli_redirect_uris client).
        let target = url_str (ar_redirect_uri r) in
        if mcp \<and> params ''resource'' \<noteq> None
        then (\<nexists>p. reg = p @ ''*'')
          \<and> (target = reg
             \<or> (\<exists>u v. ul_parse U reg = Inr u \<and> ul_parse U target = Inr v
                  \<and> url_scheme u = ''http'' \<and> url_scheme v = ''http'' \<and> url_host v = url_host u
                  \<and> (url_host u = Some (Ipv4 0x7F000001) \<or> url_host u = Some (Ipv6 1))
                  \<and> map_option url_str (ul_set_port_none U u)
                      = map_option url_str (ul_set_port_none U v)))
        else target = reg \<or> (\<exists>p. reg = p @ ''*'' \<and> p \<noteq> [] \<and> prefix p target))"
proof -
  note res = parse_resource_eq [OF assms(1)]
  from assms(2) have frag: "url_fragment (ar_redirect_uri r) = None"
    unfolding validate_with_mcp_Inr_iff by (elim conjE)
  from assms(2) obtain reg where reg: "reg \<in> set (cli_redirect_uris client)"
    and m: "if mcp \<and> params ''resource'' \<noteq> None
            then redirect_matches_mcp U reg (url_str (ar_redirect_uri r))
            else redirect_matches reg (url_str (ar_redirect_uri r))"
    unfolding validate_with_mcp_Inr_iff res by (elim conjE bexE)
  show ?thesis
  proof (intro conjI frag bexI [OF _ reg])
    show "let target = url_str (ar_redirect_uri r) in
        if mcp \<and> params ''resource'' \<noteq> None
        then (\<nexists>p. reg = p @ ''*'')
          \<and> (target = reg
             \<or> (\<exists>u v. ul_parse U reg = Inr u \<and> ul_parse U target = Inr v
                  \<and> url_scheme u = ''http'' \<and> url_scheme v = ''http'' \<and> url_host v = url_host u
                  \<and> (url_host u = Some (Ipv4 0x7F000001) \<or> url_host u = Some (Ipv6 1))
                  \<and> map_option url_str (ul_set_port_none U u)
                      = map_option url_str (ul_set_port_none U v)))
        else target = reg \<or> (\<exists>p. reg = p @ ''*'' \<and> p \<noteq> [] \<and> prefix p target)"
      using m redirect_matches_mcp_cases [of U reg "url_str (ar_redirect_uri r)"]
        redirect_matches_iff [of reg "url_str (ar_redirect_uri r)"]
      by (simp add: native_loopback_host Let_def split: if_splits)
  qed
qed

theorem accepted_redirect_registered_witness:
  "\<exists>reg \<in> set [loopback_cb '':8080'']. (\<nexists>p. reg = p @ ''*'')
     \<and> url_str (ar_redirect_uri example_request) \<noteq> reg"
proof -
  have uris: "cli_redirect_uris (example_client True us) = us"
    and res: "example_params ''resource'' \<noteq> None" for us
    by (simp_all add: example_client_def example_params_def)
  have "url_str (ar_redirect_uri example_request) \<noteq> loopback_cb '':8080''"
    by code_simp
  moreover from res have "\<exists>reg \<in> set [loopback_cb '':8080'']. \<nexists>p. reg = p @ ''*''"
    using accepted_redirect_registered [OF example_request_parsed example_request_accepted]
    unfolding uris Let_def by (simp only: simp_thms if_True) blast
  ultimately show ?thesis by simp
qed

lemma accepted_challenge:
  assumes "authorization_parse U J params = Inr r"
    and "validate_with_mcp U J r realm client mcp = Inr ()"
    and "has_code (ar_response_type r)"
    and "cli_public_client client \<or> mcp \<and> params ''resource'' \<noteq> None"
  shows "\<exists>c. params ''code_challenge'' = Some c \<and> ar_code_challenge r = Some c \<and> c \<noteq> []
    \<and> (\<forall>x \<in> set c. is_base64url_char x) \<and> ar_code_challenge_method r = Some S256"
proof -
  note res = parse_resource_eq [OF assms(1)]
  have "has_code (ar_response_type r) \<and> (mcp \<and> params ''resource'' \<noteq> None \<or> cli_public_client client)
      \<longrightarrow> ar_code_challenge r \<noteq> None"
    and "ar_code_challenge r \<noteq> None \<longrightarrow> ar_code_challenge_method r = Some S256"
    using assms(2) unfolding validate_with_mcp_Inr_iff res by - (elim conjE, assumption)+
  then show ?thesis
    using assms(3,4) parse_code_challenge [OF assms(1)] by auto
qed

text \<open>(C15) Proof key and scopes of an accepted request: a public client asking for a code, and
  any client asking for an MCP resource, has sent a non-empty base64url challenge with method
  S256; every requested scope but the \<open>openid\<close> marker is assigned to the client, and the
  step-up scope is never among them.\<close>

theorem accepted_pkce_and_scopes:
  assumes "authorization_parse U J params = Inr r"
    and "validate_with_mcp U J r realm client mcp = Inr ()"
  shows "(has_code (ar_response_type r)
            \<and> (cli_public_client client \<or> mcp \<and> params ''resource'' \<noteq> None) \<longrightarrow>
          (\<exists>c. params ''code_challenge'' = Some c \<and> ar_code_challenge r = Some c \<and> c \<noteq> []
             \<and> (\<forall>x \<in> set c. is_base64url_char x) \<and> ar_code_challenge_method r = Some S256))
    \<and> (\<forall>s \<in> set (tokens (ar_scope r)). s \<noteq> ''openid'' \<longrightarrow>
          s \<noteq> MCP_SCOPE_STEP_UP
          \<and> (scope_contains (cli_default_scopes client) s
             \<or> scope_contains (cli_optional_scopes client) s))"
proof -
  note res = parse_resource_eq [OF assms(1)]
  have sc: "\<forall>s \<in> set (tokens (ar_scope r)). s \<noteq> ''openid''
      \<longrightarrow> client_scope_request_permitted_with_mcp client s mcp"
    using assms(2) unfolding validate_with_mcp_Inr_iff res by - (elim conjE, assumption)+
  show ?thesis
    using accepted_challenge [OF assms] sc by (auto dest: permitted_assigned)
qed

theorem accepted_pkce_and_scopes_witness:
  "ar_code_challenge example_request = Some example_challenge
     \<and> ar_code_challenge_method example_request = Some S256
     \<and> tokens (ar_scope example_request) = [''mcp:read'', ''openid'']"
proof -
  have "has_code (ar_response_type example_request)" and "cli_public_client (example_client True [loopback_cb '':8080''])"
    and "example_params ''code_challenge'' = Some example_challenge"
    and "tokens (ar_scope example_request) = [''mcp:read'', ''openid'']"
    by code_simp+
  then show ?thesis
    using accepted_pkce_and_scopes [OF example_request_parsed example_request_accepted]
    by (metis option.inject)
qed

lemma if_neqI: "a \<noteq> e \<Longrightarrow> b \<noteq> e \<Longrightarrow> (if c then a else b) \<noteq> e"
  by simp

text \<open>The endpoint answers that the redirect URI is not registered exactly when no
  registration matches it: every other outcome, error or success, concerns a target the
  client registered, so it may be reported by redirecting there.\<close>

lemma unregistered_redirect_error_iff:
  "validate_with_mcp U J r realm client mcp = Inl (InvalidRequest ''redirect_uri not registered'')
   \<longleftrightarrow> \<not> list_ex (\<lambda>reg.
         if mcp \<and> ar_resource r \<noteq> None
         then redirect_matches_mcp U reg (url_str (ar_redirect_uri r))
         else redirect_matches reg (url_str (ar_redirect_uri r))) (cli_redirect_uris client)"
proof (cases "list_ex (\<lambda>reg. if mcp \<and> ar_resource r \<noteq> None
         then redirect_matches_mcp U reg (url_str (ar_redirect_uri r))
         else redirect_matches reg (url_str (ar_redirect_uri r))) (cli_redirect_uris client)")
  case True
  then have "validate_with_mcp U J r realm client mcp
    \<noteq> Inl (InvalidRequest ''redirect_uri not registered'')"
    unfolding validate_with_mcp_def Let_def
    by (subst if_not_P, simp, intro if_neqI) (simp_all split: option.split)
  with True show ?thesis by blast
next
  case False
  then have "validate_with_mcp U J r realm client mcp
    = Inl (InvalidRequest ''redirect_uri not registered'')"
    unfolding validate_with_mcp_def Let_def by simp
  with False show ?thesis by blast
qed

text \<open>Where the realm pins the supported types, every authorization-details element of an
  accepted request has a non-empty type of the realm's list.\<close>

lemma accepted_details_supported:
  assumes "authorization_parse U J params = Inr r"
    and "validate_with_mcp U J r realm client mcp = Inr ()"
    and "authorization_details_types realm = Some supported"
    and "ar_authorization_details r = Some es" and "e \<in> set es"
  shows "\<exists>t. json_get ''type'' e = Some (JString t) \<and> t \<noteq> [] \<and> t \<in> set supported"
proof -
  from parse_details_typed [OF assms(1,4,5)] obtain t where t: "details_type e = Some t" "t \<noteq> []"
    by blast
  from assms(2) have "unsupported_details_type realm r = None"
    unfolding validate_with_mcp_Inr_iff by (elim conjE)
  with assms(3-5) t(1) have "t \<in> set supported"
    by (simp add: unsupported_details_type_None_iff)
  with t show ?thesis
    by (auto simp: details_type_def json_as_str_def split: bind_splits json.splits)
qed

text \<open>The parameters read from a request object: an envelope claim never becomes one, a
  null claim neither, and every other claim becomes the parameter of its own name, a string
  claim unchanged.\<close>

lemma request_object_params_lookup:
  assumes "distinct (map fst claims)"
  shows "request_object_claims_to_params J claims Map.empty name =
    (if name \<in> {''iss'', ''aud'', ''exp'', ''nbf'', ''iat'', ''jti''} then None
     else case map_of claims name of
        None \<Rightarrow> None
      | Some JNull \<Rightarrow> None
      | Some (JString s) \<Rightarrow> Some s
      | Some (JNumber n) \<Rightarrow> Some n
      | Some (JBool b) \<Rightarrow> Some (if b then ''true'' else ''false'')
      | Some v \<Rightarrow> Some (jl_to_string J v))"
proof -
  have dom: "name \<in> fst ` set claims \<longleftrightarrow> map_of claims name \<noteq> None"
    by (metis map_of_eq_None_iff)
  have env: "set REQUEST_OBJECT_ENVELOPE_CLAIMS = {''iss'', ''aud'', ''exp'', ''nbf'', ''iat'', ''jti''}"
    by (simp add: REQUEST_OBJECT_ENVELOPE_CLAIMS_def)
  show ?thesis
    unfolding request_object_params_acc [OF assms] dom env
  proof (cases "map_of claims name")
    case (Some v)
    then show "(if map_of claims name \<noteq> None \<and> name \<notin> {''iss'', ''aud'', ''exp'', ''nbf'', ''iat'', ''jti''}
        \<and> claim_param J (the (map_of claims name)) \<noteq> None
       then claim_param J (the (map_of claims name)) else None) =
        (if name \<in> {''iss'', ''aud'', ''exp'', ''nbf'', ''iat'', ''jti''} then None
         else case map_of claims name of
            None \<Rightarrow> None
          | Some JNull \<Rightarrow> None
          | Some (JString s) \<Rightarrow> Some s
          | Some (JNumber n) \<Rightarrow> Some n
          | Some (JBool b) \<Rightarrow> Some (if b then ''true'' else ''false'')
          | Some v \<Rightarrow> Some (jl_to_string J v))"
      by (cases v) (simp_all add: claim_param_def bool_to_string_def)
  qed simp
qed

text \<open>Response types are sets of words: a text that parses yields the type whose canonical
  text has the same words, and the canonical text parses back to that type.\<close>

lemma response_type_canonical:
  assumes "response_type_from_str s = Inr t"
  shows "response_type_from_str (response_type_as_str t) = Inr t
    \<and> set (split_whitespace (response_type_as_str t)) = set (split_whitespace s)
    \<and> response_type_as_str t \<in> set DEFAULT_RESPONSE_TYPES"
proof -
  have words: "set (split_whitespace ''id_token token'') = set (split_whitespace ''token id_token'')"
    by code_simp
  from response_type_from_str_Inr [OF assms]
  have t: "t \<noteq> TokenIdToken"
    and s: "s = response_type_as_str t \<or> t = IdTokenToken \<and> s = response_type_as_str TokenIdToken"
    by auto
  from t have "response_type_as_str t \<in> set DEFAULT_RESPONSE_TYPES"
    by (cases t) (simp_all add: DEFAULT_RESPONSE_TYPES_def)
  moreover from t have "response_type_from_str (response_type_as_str t) = Inr t"
    by (simp only: response_type_of_as_str if_False)
  moreover from s words
  have "set (split_whitespace (response_type_as_str t)) = set (split_whitespace s)"
    by (elim disjE conjE) (simp_all only: response_type_as_str.simps)
  ultimately show ?thesis by (intro conjI)
qed

end
