(* ===== verification/Token_Endpoint.thy ===== *)
theory Token_Endpoint
  imports Authorization
begin

text \<open>
  The token endpoint's request, \<^verbatim>\<open>issuerd-protocol/src/token.rs\<close>: the grant types, parsing
  of the form body and the per-grant checks against the client.
\<close>

section \<open>Model\<close>

definition CLIENT_ASSERTION_TYPE_JWT_BEARER :: string where
  "CLIENT_ASSERTION_TYPE_JWT_BEARER = ''urn:ietf:params:oauth:client-assertion-type:jwt-bearer''"

definition TOKEN_TYPE_ACCESS_TOKEN :: string where
  "TOKEN_TYPE_ACCESS_TOKEN = ''urn:ietf:params:oauth:token-type:access_token''"

datatype grant_type =
    AuthorizationCodeGrant | ImplicitGrant | RefreshTokenGrant | PasswordGrant
  | ClientCredentialsGrant | DeviceCodeGrant | CibaGrant | TokenExchangeGrant | JwtBearerGrant

fun grant_type_as_str :: "grant_type \<Rightarrow> string" where
  "grant_type_as_str AuthorizationCodeGrant = ''authorization_code''"
| "grant_type_as_str ImplicitGrant = ''implicit''"
| "grant_type_as_str RefreshTokenGrant = ''refresh_token''"
| "grant_type_as_str PasswordGrant = ''password''"
| "grant_type_as_str ClientCredentialsGrant = ''client_credentials''"
| "grant_type_as_str DeviceCodeGrant = ''urn:ietf:params:oauth:grant-type:device_code''"
| "grant_type_as_str CibaGrant = ''urn:openid:params:grant-type:ciba''"
| "grant_type_as_str TokenExchangeGrant = ''urn:ietf:params:oauth:grant-type:token-exchange''"
| "grant_type_as_str JwtBearerGrant = ''urn:ietf:params:oauth:grant-type:jwt-bearer''"

definition grant_type_from_str :: "string \<Rightarrow> issuerd_error + grant_type" where
  "grant_type_from_str s =
     (if s = ''authorization_code'' then Inr AuthorizationCodeGrant
      else if s = ''refresh_token'' then Inr RefreshTokenGrant
      else if s = ''password'' then Inr PasswordGrant
      else if s = ''client_credentials'' then Inr ClientCredentialsGrant
      else if s = ''urn:ietf:params:oauth:grant-type:device_code'' then Inr DeviceCodeGrant
      else if s = ''urn:openid:params:grant-type:ciba'' then Inr CibaGrant
      else if s = ''urn:ietf:params:oauth:grant-type:token-exchange'' then Inr TokenExchangeGrant
      else if s = ''urn:ietf:params:oauth:grant-type:jwt-bearer'' then Inr JwtBearerGrant
      else Inl (InvalidRequest ''unsupported grant_type''))"

record token_request =
  tr_grant_type :: grant_type
  tr_code :: "string option"
  tr_redirect_uri :: "url option"
  tr_client_id :: "string option"
  tr_client_secret :: "string option"
  tr_code_verifier :: "string option"
  tr_refresh_token :: "string option"
  tr_scope :: scope
  tr_username :: "string option"
  tr_password :: "string option"
  tr_totp :: "string option"
  tr_assertion :: "string option"
  tr_assertion_type :: "string option"
  tr_device_code :: "string option"
  tr_auth_req_id :: "string option"
  tr_subject_token :: "string option"
  tr_subject_token_type :: "string option"
  tr_requested_token_type :: "string option"
  tr_audience :: "string option"
  tr_requested_subject :: "string option"
  tr_actor_token :: "string option"
  tr_authorization_details :: "json list option"
  tr_resource :: "string option"

text \<open>\<open>body.get(key).filter(|s| !s.is_empty())\<close>.\<close>

definition non_empty :: "string option \<Rightarrow> string option" where
  "non_empty v = (case v of Some s \<Rightarrow> if s = [] then None else Some s | None \<Rightarrow> None)"

definition token_parse :: "url_lib \<Rightarrow> json_lib \<Rightarrow> params \<Rightarrow> issuerd_error + token_request" where
  "token_parse U J body =
     and_then (and_then (ok_or (InvalidRequest ''missing grant_type'') (body ''grant_type''))
       (\<lambda>s. map_err (\<lambda>_. InvalidRequest ''unsupported grant_type'') (grant_type_from_str s)))
     (\<lambda>grant_type.
     and_then (opt_transpose
       (\<lambda>u. map_err (\<lambda>_. InvalidRequest ''invalid redirect_uri'') (ul_parse U u))
       (body ''redirect_uri''))
     (\<lambda>redirect_uri.
     and_then (opt_transpose authorization_code_new (non_empty (body ''code''))) (\<lambda>code.
     and_then (opt_transpose client_identifier_new (body ''client_id'')) (\<lambda>client_id.
     and_then (opt_transpose client_secret_new (non_empty (body ''client_secret''))) (\<lambda>client_secret.
     and_then (opt_transpose refresh_token_new (non_empty (body ''refresh_token''))) (\<lambda>refresh_token.
     and_then (opt_transpose password_new (non_empty (body ''password''))) (\<lambda>password.
     and_then (opt_transpose assertion_new (non_empty (body ''assertion''))) (\<lambda>assertion.
     and_then (parse_authorization_details J (body ''authorization_details''))
     (\<lambda>authorization_details.
     and_then (parse_resource_indicator U (body ''resource'')) (\<lambda>resource.
     Inr \<lparr>tr_grant_type = grant_type, tr_code = code, tr_redirect_uri = redirect_uri,
          tr_client_id = client_id, tr_client_secret = client_secret,
          tr_code_verifier = body ''code_verifier'', tr_refresh_token = refresh_token,
          tr_scope = parse_scope (body ''scope''), tr_username = body ''username'',
          tr_password = password, tr_totp = non_empty (body ''totp''),
          tr_assertion = assertion, tr_assertion_type = body ''assertion_type'',
          tr_device_code = body ''device_code'', tr_auth_req_id = body ''auth_req_id'',
          tr_subject_token = non_empty (body ''subject_token''),
          tr_subject_token_type = body ''subject_token_type'',
          tr_requested_token_type = body ''requested_token_type'',
          tr_audience = non_empty (body ''audience''),
          tr_requested_subject = non_empty (body ''requested_subject''),
          tr_actor_token = non_empty (body ''actor_token''),
          tr_authorization_details = authorization_details, tr_resource = resource\<rparr>))))))))))"

definition check_grant :: "token_request \<Rightarrow> client \<Rightarrow> issuerd_error + unit" where
  "check_grant r client =
     (case tr_grant_type r of
        AuthorizationCodeGrant \<Rightarrow>
          if tr_code r = None then Inl InvalidGrant
          else if cli_public_client client \<and> tr_code_verifier r = None then Inl InvalidGrant
          else Inr ()
      | ImplicitGrant \<Rightarrow> Inl (InvalidRequest ''unsupported grant_type'')
      | RefreshTokenGrant \<Rightarrow> if tr_refresh_token r = None then Inl InvalidGrant else Inr ()
      | PasswordGrant \<Rightarrow>
          if tr_username r = None \<or> tr_password r = None then Inl InvalidGrant else Inr ()
      | ClientCredentialsGrant \<Rightarrow> Inr ()
      | DeviceCodeGrant \<Rightarrow> if tr_device_code r = None then Inl InvalidGrant else Inr ()
      | CibaGrant \<Rightarrow> if tr_auth_req_id r = None then Inl InvalidGrant else Inr ()
      | TokenExchangeGrant \<Rightarrow>
          if tr_subject_token r = None \<or> tr_subject_token_type r = None then Inl InvalidGrant
          else if tr_subject_token_type r \<noteq> Some TOKEN_TYPE_ACCESS_TOKEN
            then Inl (InvalidRequest ''unsupported subject_token_type'')
          else if (case tr_requested_token_type r of
                     Some requested \<Rightarrow> requested \<noteq> TOKEN_TYPE_ACCESS_TOKEN | None \<Rightarrow> False)
            then Inl (InvalidRequest ''unsupported requested_token_type'')
          else if tr_actor_token r \<noteq> None
            then Inl (InvalidRequest ''actor_token (delegation) is not supported'')
          else Inr ()
      | JwtBearerGrant \<Rightarrow>
          if tr_assertion r = None \<or> tr_assertion_type r = None then Inl InvalidGrant else Inr ())"

definition token_validate_with_mcp ::
    "token_request \<Rightarrow> realm \<Rightarrow> client \<Rightarrow> bool \<Rightarrow> issuerd_error + unit" where
  "token_validate_with_mcp r realm client mcp_enabled =
     and_then (check_grant r client) (\<lambda>_.
       if \<not> scope_is_empty (tr_scope r)
          \<and> list_ex (\<lambda>s. s \<noteq> ''openid''
               \<and> \<not> client_scope_request_permitted_with_mcp client s mcp_enabled)
               (tokens (tr_scope r))
       then Inl InvalidScope else Inr ())"

definition token_validate :: "token_request \<Rightarrow> realm \<Rightarrow> client \<Rightarrow> issuerd_error + unit" where
  "token_validate r realm client = token_validate_with_mcp r realm client False"

section \<open>Facts\<close>

lemma grant_type_of_as_str:
  "grant_type_from_str (grant_type_as_str g) =
     (if g = ImplicitGrant then Inl (InvalidRequest ''unsupported grant_type'') else Inr g)"
  by (cases g) (simp_all add: grant_type_from_str_def)

lemma grant_type_from_str_Inr:
  "grant_type_from_str s = Inr g \<Longrightarrow> s = grant_type_as_str g \<and> g \<noteq> ImplicitGrant"
  unfolding grant_type_from_str_def by (cases g) (simp_all split: if_split_asm)

lemma non_empty_Some_iff [simp]: "non_empty v = Some s \<longleftrightarrow> v = Some s \<and> s \<noteq> []"
  by (auto simp: non_empty_def split: option.splits)

lemma token_parse_fields:
  assumes "token_parse U J body = Inr r"
  shows "(\<exists>s. body ''grant_type'' = Some s \<and> grant_type_from_str s = Inr (tr_grant_type r))
     \<and> opt_transpose authorization_code_new (non_empty (body ''code'')) = Inr (tr_code r)
     \<and> opt_transpose refresh_token_new (non_empty (body ''refresh_token'')) = Inr (tr_refresh_token r)
     \<and> opt_transpose password_new (non_empty (body ''password'')) = Inr (tr_password r)
     \<and> opt_transpose assertion_new (non_empty (body ''assertion'')) = Inr (tr_assertion r)
     \<and> tr_code_verifier r = body ''code_verifier'' \<and> tr_username r = body ''username''
     \<and> tr_device_code r = body ''device_code'' \<and> tr_auth_req_id r = body ''auth_req_id''
     \<and> tr_subject_token r = non_empty (body ''subject_token'')
     \<and> tr_subject_token_type r = body ''subject_token_type''
     \<and> tr_requested_token_type r = body ''requested_token_type''
     \<and> tr_actor_token r = non_empty (body ''actor_token'')
     \<and> tr_assertion_type r = body ''assertion_type''
     \<and> tr_scope r = parse_scope (body ''scope'')"
  using assms unfolding token_parse_def and_then_Inr_iff ok_or_Inr_iff map_err_Inr_iff
  apply (elim exE conjE)
  apply (drule sum.inject(2) [THEN iffD1])
  apply hypsubst
  apply (simp (no_asm) only: token_request.simps)
  apply (intro conjI exI; (assumption | rule refl)?)
  done

lemma opt_raw_newtype:
  assumes "opt_transpose (validate_raw field maxlen) (non_empty v) = Inr w" and "w \<noteq> None"
  shows "\<exists>t. v = Some t \<and> t \<noteq> [] \<and> length t \<le> maxlen \<and> \<not> has_control t"
proof (cases "non_empty v")
  case (Some t)
  then have "v = Some t"
    by simp
  from assms(1) Some obtain u where "validate_raw field maxlen t = Inr u"
    by (auto simp: opt_transpose_Inr_iff split: sum.splits)
  then have "clean_text maxlen t"
    by (simp add: validate_raw_Inr_iff)
  with \<open>v = Some t\<close> show ?thesis
    by (simp add: clean_text_def)
qed (use assms in simp)

lemma check_grant_Inr_iff:
  "check_grant r client = Inr () \<longleftrightarrow>
     (case tr_grant_type r of
        AuthorizationCodeGrant \<Rightarrow> tr_code r \<noteq> None
          \<and> (cli_public_client client \<longrightarrow> tr_code_verifier r \<noteq> None)
      | ImplicitGrant \<Rightarrow> False
      | RefreshTokenGrant \<Rightarrow> tr_refresh_token r \<noteq> None
      | PasswordGrant \<Rightarrow> tr_username r \<noteq> None \<and> tr_password r \<noteq> None
      | ClientCredentialsGrant \<Rightarrow> True
      | DeviceCodeGrant \<Rightarrow> tr_device_code r \<noteq> None
      | CibaGrant \<Rightarrow> tr_auth_req_id r \<noteq> None
      | TokenExchangeGrant \<Rightarrow> tr_subject_token r \<noteq> None
          \<and> tr_subject_token_type r = Some TOKEN_TYPE_ACCESS_TOKEN
          \<and> (tr_requested_token_type r = None
             \<or> tr_requested_token_type r = Some TOKEN_TYPE_ACCESS_TOKEN)
          \<and> tr_actor_token r = None
      | JwtBearerGrant \<Rightarrow> tr_assertion r \<noteq> None \<and> tr_assertion_type r \<noteq> None)"
  by (cases "tr_grant_type r") (auto simp: check_grant_def split: option.splits)

lemma token_validate_Inr_iff:
  "token_validate_with_mcp r realm client mcp = Inr () \<longleftrightarrow>
     check_grant r client = Inr ()
     \<and> (\<forall>s \<in> set (tokens (tr_scope r)). s = ''openid''
          \<or> client_scope_request_permitted_with_mcp client s mcp)"
  by (auto simp: token_validate_with_mcp_def result_simps list_ex_iff scope_is_empty_def
      split: if_splits)

section \<open>Properties of the endpoint\<close>

text \<open>What the form body must hold for each grant.\<close>

definition grant_credentials :: "params \<Rightarrow> client \<Rightarrow> grant_type \<Rightarrow> bool" where
  "grant_credentials body client g \<longleftrightarrow>
     (case g of
        AuthorizationCodeGrant \<Rightarrow>
          (\<exists>c. body ''code'' = Some c \<and> c \<noteq> [] \<and> length c \<le> 2048 \<and> \<not> has_control c)
          \<and> (cli_public_client client \<longrightarrow> body ''code_verifier'' \<noteq> None)
      | ImplicitGrant \<Rightarrow> False
      | RefreshTokenGrant \<Rightarrow> (\<exists>t. body ''refresh_token'' = Some t \<and> t \<noteq> [])
      | PasswordGrant \<Rightarrow> body ''username'' \<noteq> None \<and> (\<exists>p. body ''password'' = Some p \<and> p \<noteq> [])
      | ClientCredentialsGrant \<Rightarrow> True
      | DeviceCodeGrant \<Rightarrow> body ''device_code'' \<noteq> None
      | CibaGrant \<Rightarrow> body ''auth_req_id'' \<noteq> None
      | TokenExchangeGrant \<Rightarrow>
          (\<exists>t. body ''subject_token'' = Some t \<and> t \<noteq> [])
          \<and> body ''subject_token_type'' = Some TOKEN_TYPE_ACCESS_TOKEN
          \<and> body ''requested_token_type'' \<in> {None, Some TOKEN_TYPE_ACCESS_TOKEN}
          \<and> body ''actor_token'' \<in> {None, Some []}
      | JwtBearerGrant \<Rightarrow> body ''assertion_type'' \<noteq> None
          \<and> (\<exists>a. body ''assertion'' = Some a \<and> a \<noteq> []))"

lemma parsed_credentials:
  assumes "token_parse U J body = Inr r"
  shows "tr_code r \<noteq> None \<Longrightarrow>
      \<exists>c. body ''code'' = Some c \<and> c \<noteq> [] \<and> length c \<le> 2048 \<and> \<not> has_control c"
    and "tr_refresh_token r \<noteq> None \<Longrightarrow> \<exists>t. body ''refresh_token'' = Some t \<and> t \<noteq> []"
    and "tr_password r \<noteq> None \<Longrightarrow> \<exists>p. body ''password'' = Some p \<and> p \<noteq> []"
    and "tr_assertion r \<noteq> None \<Longrightarrow> \<exists>a. body ''assertion'' = Some a \<and> a \<noteq> []"
proof -
  have fc: "opt_transpose authorization_code_new (non_empty (body ''code'')) = Inr (tr_code r)"
    and fr: "opt_transpose refresh_token_new (non_empty (body ''refresh_token''))
      = Inr (tr_refresh_token r)"
    and fp: "opt_transpose password_new (non_empty (body ''password'')) = Inr (tr_password r)"
    and fa: "opt_transpose assertion_new (non_empty (body ''assertion'')) = Inr (tr_assertion r)"
    using token_parse_fields [OF assms] by - (elim conjE, assumption)+
  show "\<exists>c. body ''code'' = Some c \<and> c \<noteq> [] \<and> length c \<le> 2048 \<and> \<not> has_control c"
    if "tr_code r \<noteq> None"
    using opt_raw_newtype [OF fc [unfolded authorization_code_new_def] that] .
  show "\<exists>t. body ''refresh_token'' = Some t \<and> t \<noteq> []" if "tr_refresh_token r \<noteq> None"
    using opt_raw_newtype [OF fr [unfolded refresh_token_new_def] that] by blast
  show "\<exists>p. body ''password'' = Some p \<and> p \<noteq> []" if "tr_password r \<noteq> None"
    using opt_raw_newtype [OF fp [unfolded password_new_def] that] by blast
  show "\<exists>a. body ''assertion'' = Some a \<and> a \<noteq> []" if "tr_assertion r \<noteq> None"
    using opt_raw_newtype [OF fa [unfolded assertion_new_def] that] by blast
qed

lemma grant_case_mono:
  assumes "case g of
     AuthorizationCodeGrant \<Rightarrow> a1 | ImplicitGrant \<Rightarrow> a2 | RefreshTokenGrant \<Rightarrow> a3
   | PasswordGrant \<Rightarrow> a4 | ClientCredentialsGrant \<Rightarrow> a5 | DeviceCodeGrant \<Rightarrow> a6
   | CibaGrant \<Rightarrow> a7 | TokenExchangeGrant \<Rightarrow> a8 | JwtBearerGrant \<Rightarrow> a9"
    and "a1 \<Longrightarrow> b1" and "a2 \<Longrightarrow> b2" and "a3 \<Longrightarrow> b3" and "a4 \<Longrightarrow> b4"
    and "a5 \<Longrightarrow> b5" and "a6 \<Longrightarrow> b6" and "a7 \<Longrightarrow> b7" and "a8 \<Longrightarrow> b8" and "a9 \<Longrightarrow> b9"
  shows "case g of
     AuthorizationCodeGrant \<Rightarrow> b1 | ImplicitGrant \<Rightarrow> b2 | RefreshTokenGrant \<Rightarrow> b3
   | PasswordGrant \<Rightarrow> b4 | ClientCredentialsGrant \<Rightarrow> b5 | DeviceCodeGrant \<Rightarrow> b6
   | CibaGrant \<Rightarrow> b7 | TokenExchangeGrant \<Rightarrow> b8 | JwtBearerGrant \<Rightarrow> b9"
  using assms by (cases g) simp_all

lemma non_empty_not_None: "non_empty v \<noteq> None \<longleftrightarrow> (\<exists>t. v = Some t \<and> t \<noteq> [])"
  by (auto simp: non_empty_def split: option.splits)

lemma non_empty_None: "non_empty v = None \<longleftrightarrow> v \<in> {None, Some []}"
  by (auto simp: non_empty_def split: option.splits)

text \<open>(C21) A token request that is parsed and accepted carries the credential of its grant: a
  code within its length bound (with a verifier for a public client), a refresh token, user
  name and password, device code, authentication request id or assertion; a token exchange
  has a non-empty access token as its subject, asks for nothing but an access token and has
  no actor; the implicit grant is never accepted.\<close>

theorem accepted_token_request_complete:
  assumes "token_parse U J body = Inr r" and "token_validate_with_mcp r realm client mcp = Inr ()"
  shows "body ''grant_type'' = Some (grant_type_as_str (tr_grant_type r))
    \<and> grant_credentials body client (tr_grant_type r)"
proof
  note f = token_parse_fields [OF assms(1)]
  show "body ''grant_type'' = Some (grant_type_as_str (tr_grant_type r))"
    using conjunct1 [OF f] by (auto dest: grant_type_from_str_Inr)
  have c: "check_grant r client = Inr ()"
    using assms(2) by (simp add: token_validate_Inr_iff)
  have rest: "tr_code_verifier r = body ''code_verifier''" "tr_username r = body ''username''"
    "tr_device_code r = body ''device_code''" "tr_auth_req_id r = body ''auth_req_id''"
    "tr_subject_token r = non_empty (body ''subject_token'')"
    "tr_subject_token_type r = body ''subject_token_type''"
    "tr_requested_token_type r = body ''requested_token_type''"
    "tr_actor_token r = non_empty (body ''actor_token'')"
    "tr_assertion_type r = body ''assertion_type''"
    using f by - (elim conjE, assumption)+
  have "case tr_grant_type r of
        AuthorizationCodeGrant \<Rightarrow> tr_code r \<noteq> None
          \<and> (cli_public_client client \<longrightarrow> body ''code_verifier'' \<noteq> None)
      | ImplicitGrant \<Rightarrow> False
      | RefreshTokenGrant \<Rightarrow> tr_refresh_token r \<noteq> None
      | PasswordGrant \<Rightarrow> body ''username'' \<noteq> None \<and> tr_password r \<noteq> None
      | ClientCredentialsGrant \<Rightarrow> True
      | DeviceCodeGrant \<Rightarrow> body ''device_code'' \<noteq> None
      | CibaGrant \<Rightarrow> body ''auth_req_id'' \<noteq> None
      | TokenExchangeGrant \<Rightarrow> non_empty (body ''subject_token'') \<noteq> None
          \<and> body ''subject_token_type'' = Some TOKEN_TYPE_ACCESS_TOKEN
          \<and> (body ''requested_token_type'' = None
             \<or> body ''requested_token_type'' = Some TOKEN_TYPE_ACCESS_TOKEN)
          \<and> non_empty (body ''actor_token'') = None
      | JwtBearerGrant \<Rightarrow> tr_assertion r \<noteq> None \<and> body ''assertion_type'' \<noteq> None"
    using c unfolding check_grant_Inr_iff rest .
  then show "grant_credentials body client (tr_grant_type r)"
    unfolding grant_credentials_def non_empty_not_None unfolding non_empty_None
    by (rule grant_case_mono; use parsed_credentials [OF assms(1)] in
        \<open>(elim conjE)?; (intro conjI)?; (assumption | simp)\<close>)
qed

definition example_exchange :: params where
  "example_exchange =
     [''grant_type'' \<mapsto> ''urn:ietf:params:oauth:grant-type:token-exchange'',
      ''subject_token'' \<mapsto> ''eyJ'', ''subject_token_type'' \<mapsto> TOKEN_TYPE_ACCESS_TOKEN,
      ''actor_token'' \<mapsto> []]"

definition example_exchange_request :: token_request where
  "example_exchange_request =
     \<lparr>tr_grant_type = TokenExchangeGrant, tr_code = None, tr_redirect_uri = None,
          tr_client_id = None, tr_client_secret = None,
          tr_code_verifier = None, tr_refresh_token = None,
          tr_scope = scope_empty, tr_username = None,
          tr_password = None, tr_totp = None,
          tr_assertion = None, tr_assertion_type = None,
          tr_device_code = None, tr_auth_req_id = None,
          tr_subject_token = Some ''eyJ'',
          tr_subject_token_type = Some TOKEN_TYPE_ACCESS_TOKEN,
          tr_requested_token_type = None,
          tr_audience = None,
          tr_requested_subject = None,
          tr_actor_token = None,
          tr_authorization_details = None, tr_resource = None\<rparr>"

lemma example_exchange_parsed:
  "token_parse example_url_lib example_json_lib example_exchange = Inr example_exchange_request"
  by (simp add: token_parse_def example_exchange_def example_exchange_request_def
      grant_type_from_str_def non_empty_def parse_scope_def parse_authorization_details_def
      parse_resource_indicator_def cong: and_then_weak_cong)

theorem accepted_token_request_complete_witness:
  "token_validate_with_mcp example_exchange_request example_realm (example_client True []) True = Inr ()
   \<and> example_exchange ''actor_token'' \<in> {None, Some []}"
proof -
  have v: "token_validate_with_mcp example_exchange_request example_realm (example_client True []) True
      = Inr ()"
    by (simp add: token_validate_Inr_iff check_grant_Inr_iff example_exchange_request_def
        scope_empty_def)
  have g: "tr_grant_type example_exchange_request = TokenExchangeGrant"
    by (simp add: example_exchange_request_def)
  from accepted_token_request_complete [OF example_exchange_parsed v] v show ?thesis
    unfolding g grant_credentials_def grant_type.case by (elim conjE) (intro conjI)
qed

text \<open>The grant types the token endpoint reads are those of its documented list, each from
  exactly one text; the discovery-only implicit grant is refused as unsupported.\<close>

lemma grant_type_text:
  "(grant_type_from_str s = Inr g \<longleftrightarrow> s = grant_type_as_str g \<and> g \<noteq> ImplicitGrant)
   \<and> grant_type_from_str (grant_type_as_str ImplicitGrant)
      = Inl (InvalidRequest ''unsupported grant_type'')"
  using grant_type_from_str_Inr [of s g] grant_type_of_as_str [of g]
    grant_type_of_as_str [of ImplicitGrant]
  by auto

end
