(* ===== verification/Cache_Spec.thy ===== *)
theory Cache_Spec
  imports Cache
begin

text \<open>
  The abstract cache: a map of expiring entries and the meaning of each operation of the trait
  on it.  Inside the contract every sequence of calls at increasing instants answers as the
  abstract map does, the default methods of the trait agree with the overriding ones, and a
  value is consumed at most once; the in-memory cache inherits all of it.
\<close>

section \<open>The abstract map\<close>

datatype cache_op =
    OpGet string
  | OpSet string bytes "nat option"
  | OpDelete string
  | OpGetAndDelete string
  | OpCompareAndSwap string "bytes option" bytes
  | OpCompareAndDelete string bytes
  | OpCreateIfAbsent string bytes "nat option"
  | OpClaimAndCreate string bytes string bytes "nat option"
  | OpIncrement string "nat option"

datatype cache_result = RUnit | RValue "bytes option" | RBool bool | RCount u64

definition prune :: "nat \<Rightarrow> (string \<rightharpoonup> entry) \<Rightarrow> string \<rightharpoonup> entry" where
  "prune t m k = (case m k of Some e \<Rightarrow> if live t e then Some e else None | None \<Rightarrow> None)"

fun spec_op :: "nat \<Rightarrow> cache_op \<Rightarrow> (string \<rightharpoonup> entry) \<Rightarrow> cache_result \<times> (string \<rightharpoonup> entry)" where
  "spec_op t (OpGet k) m = (RValue (map_option fst (prune t m k)), m)"
| "spec_op t (OpSet k v ttl) m = (RUnit, m(k \<mapsto> (v, expiry t ttl)))"
| "spec_op t (OpDelete k) m = (RUnit, m(k := None))"
| "spec_op t (OpGetAndDelete k) m = (RValue (map_option fst (prune t m k)), m(k := None))"
| "spec_op t (OpCompareAndSwap k expected v) m =
     (if map_option fst (prune t m k) = expected
      then (RBool True, m(k \<mapsto> (v, Option.bind (prune t m k) snd))) else (RBool False, m))"
| "spec_op t (OpCompareAndDelete k b) m =
     (if map_option fst (prune t m k) = Some b then (RBool True, m(k := None)) else (RBool False, m))"
| "spec_op t (OpCreateIfAbsent k v ttl) m =
     (if prune t m k = None then (RBool True, m(k \<mapsto> (v, expiry t ttl))) else (RBool False, m))"
| "spec_op t (OpClaimAndCreate k b k' v ttl) m =
     (if map_option fst (prune t m k) = Some b
      then (RBool True, m(k := None, k' \<mapsto> (v, expiry t ttl))) else (RBool False, m))"
| "spec_op t (OpIncrement k ttl) m =
     (let (n, x) = counted t ttl (prune t m k) in (RCount n, m(k \<mapsto> (u64_to_string n, x))))"

fun exec_op :: "'s dist_cache \<Rightarrow> nat \<Rightarrow> cache_op \<Rightarrow> 's \<Rightarrow> (issuerd_error + cache_result) \<times> 's" where
  "exec_op C t (OpGet k) s = apfst (map_sum id RValue) (dc_get C t k s)"
| "exec_op C t (OpSet k v ttl) s = apfst (map_sum id (\<lambda>_. RUnit)) (dc_set C t k v ttl s)"
| "exec_op C t (OpDelete k) s = apfst (map_sum id (\<lambda>_. RUnit)) (dc_delete C t k s)"
| "exec_op C t (OpGetAndDelete k) s = apfst (map_sum id RValue) (dc_get_and_delete C t k s)"
| "exec_op C t (OpCompareAndSwap k expected v) s =
     apfst (map_sum id RBool) (dc_compare_and_swap C t k expected v s)"
| "exec_op C t (OpCompareAndDelete k b) s =
     apfst (map_sum id RBool) (dc_compare_and_delete C t k b s)"
| "exec_op C t (OpCreateIfAbsent k v ttl) s =
     apfst (map_sum id RBool) (dc_create_if_absent C t k v ttl s)"
| "exec_op C t (OpClaimAndCreate k b k' v ttl) s =
     apfst (map_sum id RBool) (dc_claim_and_create C t k b k' v ttl s)"
| "exec_op C t (OpIncrement k ttl) s = apfst (map_sum id RCount) (dc_increment C t k ttl s)"

fun run_ops :: "'s dist_cache \<Rightarrow> (nat \<times> cache_op) list \<Rightarrow> 's \<Rightarrow> (issuerd_error + cache_result) list" where
  "run_ops C [] s = []"
| "run_ops C ((t, a) # ops) s = (let (r, s') = exec_op C t a s in r # run_ops C ops s')"

fun spec_run :: "(nat \<times> cache_op) list \<Rightarrow> (string \<rightharpoonup> entry) \<Rightarrow> cache_result list" where
  "spec_run [] m = []"
| "spec_run ((t, a) # ops) m = (let (r, m') = spec_op t a m in r # spec_run ops m')"

section \<open>Simulation inside the contract\<close>

lemma prune_upd [simp]:
  "prune u (m(k \<mapsto> e)) = put u k e (prune u m)" "prune u (m(k := None)) = (prune u m)(k := None)"
  by (auto simp: prune_def put_def fun_eq_iff)

lemma prune_later: "t \<le> u \<Longrightarrow> prune u (prune t m) = prune u m"
  by (auto simp: prune_def fun_eq_iff dest: live_earlier split: option.splits)

lemma fst_snd_apfst [simp]: "fst (apfst f p) = f (fst p)" "snd (apfst f p) = snd p"
  by (cases p; simp)+

context distributed_cache
begin

lemma exec_op_simulates:
  assumes sim: "\<And>u. t \<le> u \<Longrightarrow> view u s = prune u m"
  shows "fst (exec_op C t a s) = Inr (fst (spec_op t a m))
    \<and> (\<forall>u. t \<le> u \<longrightarrow> view u (snd (exec_op C t a s)) = prune u (snd (spec_op t a m)))"
proof -
  have now: "view t s = prune t m"
    by (rule sim) simp
  show ?thesis
    by (cases a) (auto simp: now sim get_result get_view set_result set_view delete_result delete_view
        get_and_delete_result get_and_delete_view cas_result cas_view cad_result cad_view
        create_result create_view claim_result claim_view increment_result increment_view
        split: prod.splits)
qed

lemma run_ops_simulates:
  assumes "sorted (map fst ops)" and "\<And>t. t \<in> fst ` set ops \<Longrightarrow> t0 \<le> t"
    and "\<And>u. t0 \<le> u \<Longrightarrow> view u s = prune u m"
  shows "run_ops C ops s = map Inr (spec_run ops m)"
  using assms
proof (induction ops arbitrary: t0 s m)
  case Nil
  then show ?case by simp
next
  case (Cons op ops)
  obtain t a where op: "op = (t, a)"
    by (cases op)
  have "t0 \<le> t"
    using Cons.prems(2) op by simp
  then have sim: "view u s = prune u m" if "t \<le> u" for u
    using Cons.prems(3) that by simp
  note step = exec_op_simulates [of t s m a, OF sim]
  have "run_ops C ops (snd (exec_op C t a s)) = map Inr (spec_run ops (snd (spec_op t a m)))"
    using Cons.prems(1) op step by (intro Cons.IH [of t]) auto
  with step show ?case
    by (cases "exec_op C t a s"; cases "spec_op t a m") (simp add: op)
qed

lemma call_get:
  "call (dc_get C t k) f s = f (map_option fst (view t s k)) (snd (dc_get C t k s))"
  using get_result [of t k s] by (cases "dc_get C t k s") (simp add: call_def)

lemma call_set: "call (dc_set C t k v ttl) f s = f () (snd (dc_set C t k v ttl s))"
  using set_result [of t k v ttl s] by (cases "dc_set C t k v ttl s") (simp add: call_def)

lemma call_delete: "call (dc_delete C t k) f s = f () (snd (dc_delete C t k s))"
  using delete_result [of t k s] by (cases "dc_delete C t k s") (simp add: call_def)

lemma call_cas:
  "call (dc_compare_and_swap C t k expected v) f s =
     f (map_option fst (view t s k) = expected) (snd (dc_compare_and_swap C t k expected v s))"
  using cas_result [of t k expected v s]
  by (cases "dc_compare_and_swap C t k expected v s") (simp add: call_def)

lemma call_increment:
  "call (dc_increment C t k ttl) f s =
     f (fst (counted t ttl (view t s k))) (snd (dc_increment C t k ttl s))"
  using increment_result [of t k ttl s] by (cases "dc_increment C t k ttl s") (simp add: call_def)

lemmas calls = call_get call_set call_delete call_cas call_increment

lemma default_get_and_delete_agrees:
  "fst (default_get_and_delete C t k s) = fst (dc_get_and_delete C t k s)
   \<and> (t \<le> u \<longrightarrow> view u (snd (default_get_and_delete C t k s)) = view u (snd (dc_get_and_delete C t k s)))"
proof (cases "view t s k")
  case None
  have "view u s k = None" if "t \<le> u"
    using that view_later [of t u s k] None by simp
  with None show ?thesis
    by (simp add: default_get_and_delete_def calls get_view get_and_delete_result
        get_and_delete_view)
next
  case (Some e)
  then show ?thesis
    by (simp add: default_get_and_delete_def calls get_view delete_view get_and_delete_result
        get_and_delete_view)
qed

lemma default_compare_and_delete_agrees:
  "fst (default_compare_and_delete C t k b s) = fst (dc_compare_and_delete C t k b s)
   \<and> (t \<le> u \<longrightarrow> view u (snd (default_compare_and_delete C t k b s))
               = view u (snd (dc_compare_and_delete C t k b s)))"
  by (cases "map_option fst (view t s k) = Some b")
    (simp_all add: default_compare_and_delete_def calls cas_view delete_view cad_result cad_view
      put_def)

lemma default_increment_agrees:
  "fst (default_increment C t k ttl s) = fst (dc_increment C t k None s)
   \<and> (t \<le> u \<longrightarrow> view u (snd (default_increment C t k ttl s)) = view u (snd (dc_increment C t k None s)))"
proof -
  let ?n = "fst (counted t None (view t s k))"
  let ?swap = "dc_compare_and_swap C t k (map_option fst (view t s k)) (u64_to_string ?n)
    (snd (dc_get C t k s))"
  have n: "(case Option.bind (map_option fst (view t s k)) parse_u64 of Some w \<Rightarrow> w | None \<Rightarrow> 0) + 1 = ?n"
    by (auto simp: counted_def split: option.splits)
  have x: "Option.bind (view t s k) snd = snd (counted t None (view t s k))"
    by (auto simp: counted_def expiry_def split: option.splits)
  have same: "view t (snd (dc_get C t k s)) = view t s"
    by (simp add: get_view)
  have "increment_loop (Suc i) C t k s = (Inr ?n, snd ?swap)" for i
    by (simp only: increment_loop.simps calls Let_def n same simp_thms if_True)
  from this [of 15] have "default_increment C t k ttl s = (Inr ?n, snd ?swap)"
    by (simp add: default_increment_def numeral_eq_Suc)
  then show ?thesis
    by (simp add: increment_result increment_view cas_view same get_view x split: prod.splits)
qed

lemma consumed_once:
  assumes "t \<le> u" and "fst (dc_get_and_delete C t k s) = Inr (Some v)"
  shows "fst (dc_get_and_delete C u k (snd (dc_get_and_delete C t k s))) = Inr None"
  using assms by (simp add: get_and_delete_result get_and_delete_view)

end

section \<open>The in-memory cache\<close>

lemma in_memory_ops [simp]:
  "dc_get in_memory = mem_get" "dc_set in_memory = mem_set" "dc_delete in_memory = mem_delete"
  "dc_get_and_delete in_memory = mem_get_and_delete"
  "dc_compare_and_swap in_memory = mem_compare_and_swap"
  "dc_compare_and_delete in_memory = mem_compare_and_delete"
  "dc_create_if_absent in_memory = mem_create_if_absent"
  "dc_claim_and_create in_memory = mem_claim_and_create"
  "dc_increment in_memory = mem_increment"
  by (simp_all add: in_memory_def)

text \<open>(C5) Any sequence of cache calls at increasing instants answers on a fresh in-memory cache
  exactly as on the map of expiring entries, whatever the sweep interval: sweeps, lazy
  eviction and the order of the checks are invisible.\<close>

theorem in_memory_refines_expiring_map:
  assumes "sorted (map fst ops)" and "\<forall>t \<in> fst ` set ops. t0 \<le> t"
  shows "run_ops in_memory ops (with_sweep_interval t0 interval) = map Inr (spec_run ops Map.empty)"
proof (rule mem.run_ops_simulates [OF assms(1)])
  show "mem_view u (with_sweep_interval t0 interval) = prune u Map.empty" for u
    by (simp add: mem_view_def with_sweep_interval_def prune_def fun_eq_iff lookup_empty)
qed (use assms(2) in auto)

theorem in_memory_refines_expiring_map_witness:
  "run_ops in_memory
      [(5, OpIncrement ''k'' (Some 10)), (9, OpIncrement ''k'' None), (15, OpGet ''k'')]
      (with_sweep_interval 0 1000000)
   = [Inr (RCount 1), Inr (RCount 2), Inr (RValue None)]"
proof -
  let ?ops = "[(5, OpIncrement ''k'' (Some 10)), (9, OpIncrement ''k'' None), (15, OpGet ''k'')]"
  have "spec_run ?ops Map.empty = [RCount 1, RCount 2, RValue None]"
    by (simp add: prune_def counted_def expiry_def live_def)
  then show ?thesis
    using in_memory_refines_expiring_map [of ?ops 0 1000000] by simp
qed


text \<open>A stored value is consumed at most once: after a take that found a value every later
  take finds nothing, until the key is written again.\<close>

lemma in_memory_single_use:
  assumes "t \<le> u" and "fst (mem_get_and_delete t k c) = Inr (Some v)"
  shows "mem_view t c k \<noteq> None
    \<and> fst (mem_get_and_delete u k (snd (mem_get_and_delete t k c))) = Inr None"
  using assms mem.consumed_once [of t u k c v] mem_get_and_delete_spec(1) [of t k c]
  by (cases "mem_view t c k") auto

end
