(* ===== verification/Login_Failures.thy ===== *)
theory Login_Failures
  imports Cache_Spec Entities
begin

text \<open>
  Brute-force protection, \<^verbatim>\<open>issuerd-auth-flow/src/login_failures.rs\<close>: failure counters
  and lockout markers in the cache for passwords, and the reservation of one-time-code checks.
  The tracker calls any cache (a \<open>dist_cache\<close>); its facts are proved inside the contract of
  \<open>distributed_cache\<close>.  The calls of a reservation are separate steps, so that racing
  requests interleave.
\<close>

section \<open>Configuration\<close>

record login_failure_config =
  lf_max_failures :: u32
  lf_failure_ttl_secs :: u64
  lf_wait_increment_secs :: u64
  lf_max_failure_wait_secs :: u64
  lf_lockout_duration_secs :: u64

definition login_failure_config_default :: login_failure_config where
  "login_failure_config_default =
     \<lparr>lf_max_failures = 5, lf_failure_ttl_secs = 300, lf_wait_increment_secs = 60,
      lf_max_failure_wait_secs = 900, lf_lockout_duration_secs = 900\<rparr>"

definition from_realm :: "realm \<Rightarrow> login_failure_config" where
  "from_realm realm =
     login_failure_config_default\<lparr>lf_max_failures := rlm_max_login_failures realm,
       lf_wait_increment_secs := ucast (rlm_wait_increment_secs realm),
       lf_max_failure_wait_secs := ucast (rlm_max_failure_wait_secs realm),
       lf_lockout_duration_secs := ucast (rlm_lockout_duration_secs realm)\<rparr>"

definition saturating_mul :: "u64 \<Rightarrow> u64 \<Rightarrow> u64" where
  "saturating_mul a b = (if unat a * unat b < 2 ^ 64 then a * b else - 1)"

definition lockout_for :: "login_failure_config \<Rightarrow> u64 \<Rightarrow> u64" where
  "lockout_for c failures =
     (if lf_wait_increment_secs c = 0 then lf_lockout_duration_secs c
      else (let overage = saturating_sub failures (ucast (lf_max_failures c)) + 1;
                wait = saturating_mul (lf_wait_increment_secs c) overage
            in if lf_max_failure_wait_secs c = 0 then wait
               else min wait (lf_max_failure_wait_secs c)))"

definition otp_failure_config :: "realm \<Rightarrow> login_failure_config" where
  "otp_failure_config realm =
     (if rlm_brute_force_protected realm then from_realm realm else login_failure_config_default)"

section \<open>Cache keys\<close>

definition OTP_FAILURE_SOURCE :: string where "OTP_FAILURE_SOURCE = ''otp''"

definition failure_count_key :: "string \<Rightarrow> string \<Rightarrow> string \<Rightarrow> string" where
  "failure_count_key realm ident ip = ''login-failure:'' @ realm @ '':'' @ ident @ '':'' @ ip"

definition lockout_key :: "string \<Rightarrow> string \<Rightarrow> string \<Rightarrow> string" where
  "lockout_key realm ident ip = ''login-lockout:'' @ realm @ '':'' @ ident @ '':'' @ ip"

section \<open>The tracker\<close>

text \<open>\<open>Duration::from_secs\<close> of a configured number of seconds.\<close>

definition secs :: "u64 \<Rightarrow> nat" where "secs n = from_secs (unat n)"

definition record_failure ::
    "'s dist_cache \<Rightarrow> nat \<Rightarrow> string \<Rightarrow> string \<Rightarrow> string \<Rightarrow> login_failure_config
     \<Rightarrow> 's \<Rightarrow> (issuerd_error + unit) \<times> 's" where
  "record_failure C now realm ident ip config =
     call (dc_increment C now (failure_count_key realm ident ip)
             (Some (secs (lf_failure_ttl_secs config)))) (\<lambda>count.
       if ucast (lf_max_failures config) \<le> count then
         (let wait = lockout_for config count in
          if wait > 0
          then call (dc_set C now (lockout_key realm ident ip) ''1'' (Some (secs wait)))
                 (\<lambda>_ s. (Inr (), s))
          else (\<lambda>s. (Inr (), s)))
       else (\<lambda>s. (Inr (), s)))"

definition is_temporarily_locked ::
    "'s dist_cache \<Rightarrow> nat \<Rightarrow> string \<Rightarrow> string \<Rightarrow> string \<Rightarrow> 's \<Rightarrow> (issuerd_error + bool) \<times> 's" where
  "is_temporarily_locked C now realm ident ip =
     call (dc_get C now (lockout_key realm ident ip)) (\<lambda>v s. (Inr (v \<noteq> None), s))"

definition reset_failures ::
    "'s dist_cache \<Rightarrow> nat \<Rightarrow> string \<Rightarrow> string \<Rightarrow> string \<Rightarrow> 's \<Rightarrow> (issuerd_error + unit) \<times> 's" where
  "reset_failures C now realm ident ip =
     call (dc_delete C now (failure_count_key realm ident ip)) (\<lambda>_.
     call (dc_delete C now (lockout_key realm ident ip)) (\<lambda>_ s. (Inr (), s)))"

text \<open>A reservation stops between its awaited calls: the marker check, the counting of the
  attempt, the claim of the marker.\<close>

datatype otp_pc = OtpStart | OtpUnlocked | OtpClaim u64 | OtpDone "issuerd_error + bool"

definition otp_step ::
    "'s dist_cache \<Rightarrow> login_failure_config \<Rightarrow> string \<Rightarrow> string \<Rightarrow> nat \<Rightarrow> otp_pc \<Rightarrow> 's
     \<Rightarrow> otp_pc \<times> 's" where
  "otp_step C config realm ident now pc s =
     (case pc of
        OtpStart \<Rightarrow>
          (case is_temporarily_locked C now realm ident OTP_FAILURE_SOURCE s of
             (Inl e, s') \<Rightarrow> (OtpDone (Inl e), s')
           | (Inr locked, s') \<Rightarrow> (if locked then OtpDone (Inr False) else OtpUnlocked, s'))
      | OtpUnlocked \<Rightarrow>
          (case dc_increment C now (failure_count_key realm ident OTP_FAILURE_SOURCE)
                  (Some (secs (lf_failure_ttl_secs config))) s of
             (Inl e, s') \<Rightarrow> (OtpDone (Inl e), s')
           | (Inr attempts, s') \<Rightarrow>
               if attempts < ucast (lf_max_failures config) then (OtpDone (Inr True), s')
               else (let wait = lockout_for config attempts in
                     if wait = 0
                     then (OtpDone (Inr (attempts \<le> ucast (max (lf_max_failures config) 1))), s')
                     else (OtpClaim wait, s')))
      | OtpClaim wait \<Rightarrow>
          (case dc_increment C now (lockout_key realm ident OTP_FAILURE_SOURCE)
                  (Some (secs wait)) s of
             (Inl e, s') \<Rightarrow> (OtpDone (Inl e), s')
           | (Inr claimed, s') \<Rightarrow> (OtpDone (Inr (claimed = 1)), s'))
      | OtpDone r \<Rightarrow> (OtpDone r, s))"

text \<open>The whole reservation, its three calls at the given instants.\<close>

definition reserve_otp_attempt ::
    "'s dist_cache \<Rightarrow> login_failure_config \<Rightarrow> string \<Rightarrow> string \<Rightarrow> nat \<times> nat \<times> nat \<Rightarrow> 's
     \<Rightarrow> otp_pc \<times> 's" where
  "reserve_otp_attempt C config realm ident ts s =
     (case ts of (t1, t2, t3) \<Rightarrow>
        let (pc1, s1) = otp_step C config realm ident t1 OtpStart s;
            (pc2, s2) = otp_step C config realm ident t2 pc1 s1
        in otp_step C config realm ident t3 pc2 s2)"

definition clear_otp_attempts ::
    "'s dist_cache \<Rightarrow> nat \<Rightarrow> string \<Rightarrow> string \<Rightarrow> 's \<Rightarrow> (issuerd_error + unit) \<times> 's" where
  "clear_otp_attempts C now realm ident = reset_failures C now realm ident OTP_FAILURE_SOURCE"

section \<open>Facts on the lockout duration\<close>

lemma unat_saturating_sub: "unat (saturating_sub a b) = unat a - unat b"
  by (auto simp: saturating_sub_def unat_sub word_less_nat_alt word_le_nat_alt)

lemma unat_saturating_mul: "unat (saturating_mul a b) = min (unat a * unat b) (2 ^ 64 - 1)"
proof -
  have "unat (a * b) = unat a * unat b" if "unat a * unat b < 2 ^ 64"
    using that unat_mult_lem [of a b] by simp
  then show ?thesis
    by (auto simp: saturating_mul_def unsigned_minus_1_eq_mask mask_eq_exp_minus_1)
qed

lemma unat_ucast_u32: "unat (ucast (w :: u32) :: u64) = unat w"
proof -
  have "unat w < 2 ^ LENGTH(32)"
    by (rule unsigned_less)
  then have "unat w < 2 ^ 64"
    by simp
  then show ?thesis
    by (simp add: unsigned_ucast_eq take_bit_nat_eq_self)
qed

lemma overage_no_wrap:
  assumes "unat n < 2 ^ 64 - 1"
  shows "unat (saturating_sub n (ucast (lf_max_failures c)) + 1) = unat n - unat (lf_max_failures c) + 1"
proof -
  have "unat (saturating_sub n (ucast (lf_max_failures c))) + 1 < 2 ^ 64"
    using assms by (simp add: unat_saturating_sub unat_ucast_u32)
  then show ?thesis
    by (simp add: unat_word_ariths unat_saturating_sub unat_ucast_u32)
qed

text \<open>The duration in seconds, as a number.\<close>

lemma unat_lockout_for:
  assumes "unat n < 2 ^ 64 - 1"
  shows "unat (lockout_for c n) =
    (if lf_wait_increment_secs c = 0 then unat (lf_lockout_duration_secs c)
     else let w = min (unat (lf_wait_increment_secs c) * (unat n - unat (lf_max_failures c) + 1))
                    (2 ^ 64 - 1)
          in if lf_max_failure_wait_secs c = 0 then w
             else min w (unat (lf_max_failure_wait_secs c)))"
proof -
  have min: "unat (min a b) = min (unat a) (unat b)" for a b :: u64
    by (simp add: min_def word_le_nat_alt)
  show ?thesis
    unfolding lockout_for_def Let_def
    by (simp add: min unat_saturating_mul overage_no_wrap [OF assms])
qed

lemma lockout_for_mono:
  assumes "unat m \<le> unat n" and "unat n < 2 ^ 64 - 1"
  shows "unat (lockout_for c m) \<le> unat (lockout_for c n)"
proof -
  define w where "w k = unat (lf_wait_increment_secs c) * (unat k - unat (lf_max_failures c) + 1)"
    for k :: u64
  have "min (w m) (2 ^ 64 - 1) \<le> min (w n) (2 ^ 64 - 1)"
    using assms(1) unfolding w_def by (intro min.mono mult_le_mono2) simp_all
  moreover have m: "unat m < 2 ^ 64 - 1"
    using assms by linarith
  ultimately show ?thesis
    unfolding unat_lockout_for [OF assms(2), of c, folded w_def]
      unat_lockout_for [OF m, of c, folded w_def] Let_def
    by (auto intro: min.mono)
qed

lemma lockout_for_pos_iff:
  assumes "unat n < 2 ^ 64 - 1"
  shows "lockout_for c n = 0 \<longleftrightarrow> lf_wait_increment_secs c = 0 \<and> lf_lockout_duration_secs c = 0"
proof -
  have "unat (lockout_for c n) = 0 \<longleftrightarrow>
      lf_wait_increment_secs c = 0 \<and> lf_lockout_duration_secs c = 0"
    unfolding unat_lockout_for [OF assms]
    by (auto simp: Let_def unat_eq_0 unat_gt_0 min_def)
  then show ?thesis
    by (simp add: unat_eq_0)
qed

lemma keys_differ: "failure_count_key realm ident ip \<noteq> lockout_key realm' ident' ip'"
  by (simp add: failure_count_key_def lockout_key_def)

section \<open>Password failures\<close>

text \<open>A run of failed attempts at the given instants.\<close>

fun record_failures ::
    "'s dist_cache \<Rightarrow> string \<Rightarrow> string \<Rightarrow> string \<Rightarrow> login_failure_config \<Rightarrow> nat list \<Rightarrow> 's \<Rightarrow> 's" where
  "record_failures C realm ident ip config [] s = s"
| "record_failures C realm ident ip config (t # ts) s =
     record_failures C realm ident ip config ts (snd (record_failure C t realm ident ip config s))"

text \<open>A counter that stands at \<open>n\<close> and expires at \<open>x\<close> or later; no entry stands for zero.\<close>

definition counter_at :: "nat \<Rightarrow> nat \<Rightarrow> entry option \<Rightarrow> bool" where
  "counter_at x n e \<longleftrightarrow>
     (if n = 0 then e = None else \<exists>y \<ge> x. e = Some (u64_to_string (of_nat n), Some y))"

lemma counter_at_None [simp]: "counter_at x 0 None"
  by (simp add: counter_at_def)

lemma counted_counter_at:
  assumes "counter_at x n e" and "x \<le> t + d"
  obtains y where "counted t (Some d) e = (of_nat (Suc n), Some y)" and "x \<le> y"
  using assms by (auto simp: counter_at_def counted_def expiry_def add.commute split: if_splits)

lemma counter_at_Suc: "x \<le> y \<Longrightarrow> counter_at x (Suc n) (Some (u64_to_string (of_nat (Suc n)), Some y))"
  by (auto simp: counter_at_def)

lemma unat_of_nat_u64: "n < 2 ^ 64 \<Longrightarrow> unat (of_nat n :: u64) = n"
  by (simp add: unat_of_nat take_bit_nat_eq_self)

context distributed_cache
begin

lemma view_counter:
  assumes "counter_at x n (view t s k)" and "t \<le> u" and "n = 0 \<or> u < x"
  shows "counter_at x n (view u s k)"
  using assms view_later [of t u s k] by (auto simp: counter_at_def live_def split: if_splits)

lemma increment_counter:
  assumes "counter_at x n (view t s k)" and "x \<le> t + d"
  shows "fst (dc_increment C t k (Some d) s) = Inr (of_nat (Suc n))"
    and "t \<le> u \<Longrightarrow> u < x \<Longrightarrow> counter_at x (Suc n) (view u (snd (dc_increment C t k (Some d) s)) k)"
proof -
  from assms obtain y where y: "counted t (Some d) (view t s k) = (of_nat (Suc n), Some y)" "x \<le> y"
    by (rule counted_counter_at)
  show "fst (dc_increment C t k (Some d) s) = Inr (of_nat (Suc n))"
    by (simp add: increment_result y)
  show "counter_at x (Suc n) (view u (snd (dc_increment C t k (Some d) s)) k)"
    if "t \<le> u" "u < x"
    using that y counter_at_Suc [OF y(2)] by (simp add: increment_view put_def live_def)
qed

lemma increment_other:
  "t \<le> u \<Longrightarrow> k' \<noteq> k \<Longrightarrow> view u (snd (dc_increment C t k ttl s)) k' = view u s k'"
  by (simp add: increment_view put_def split: prod.splits)

lemma is_temporarily_locked_result:
  "fst (is_temporarily_locked C t realm ident ip s) = Inr (view t s (lockout_key realm ident ip) \<noteq> None)"
  by (simp add: is_temporarily_locked_def calls)

lemma record_failure_step:
  assumes n: "counter_at x n (view t s (failure_count_key realm ident ip))"
    and x: "x \<le> t + secs (lf_failure_ttl_secs config)"
    and small: "Suc n < 2 ^ 64" and u: "t \<le> u"
  defines "s' \<equiv> snd (record_failure C t realm ident ip config s)"
    and "wait \<equiv> lockout_for config (of_nat (Suc n))"
  shows "fst (record_failure C t realm ident ip config s) = Inr ()"
    and "u < x \<Longrightarrow> counter_at x (Suc n) (view u s' (failure_count_key realm ident ip))"
    and "view u s' (lockout_key realm ident ip) =
      (if unat (lf_max_failures config) \<le> Suc n \<and> wait \<noteq> 0
       then (if u < t + secs wait then Some (''1'', Some (t + secs wait)) else None)
       else view u s (lockout_key realm ident ip))"
proof -
  let ?inc = "dc_increment C t (failure_count_key realm ident ip)
    (Some (secs (lf_failure_ttl_secs config))) s"
  note inc = increment_counter [OF n x]
  have le: "ucast (lf_max_failures config) \<le> (of_nat (Suc n) :: u64)
      \<longleftrightarrow> unat (lf_max_failures config) \<le> Suc n"
    by (simp only: word_le_nat_alt unat_ucast_u32 unat_of_nat_u64 [OF small])
  have run: "record_failure C t realm ident ip config s =
      (Inr (), if unat (lf_max_failures config) \<le> Suc n \<and> wait \<noteq> 0
        then snd (dc_set C t (lockout_key realm ident ip) ''1'' (Some (secs wait)) (snd ?inc))
        else snd ?inc)"
    using inc(1) unfolding record_failure_def calls increment_result wait_def
    by (simp add: le calls Let_def word_gt_0 del: of_nat_Suc)
  show "fst (record_failure C t realm ident ip config s) = Inr ()"
    by (simp add: run)
  show "counter_at x (Suc n) (view u s' (failure_count_key realm ident ip))" if "u < x"
    using inc(2) [OF u that] u keys_differ by (simp add: s'_def run set_view put_def)
  show "view u s' (lockout_key realm ident ip) =
      (if unat (lf_max_failures config) \<le> Suc n \<and> wait \<noteq> 0
       then (if u < t + secs wait then Some (''1'', Some (t + secs wait)) else None)
       else view u s (lockout_key realm ident ip))"
    using u keys_differ [of realm ident ip realm ident ip, symmetric]
    by (simp add: s'_def run set_view put_def expiry_def live_def increment_other)
qed

lemma record_failures_lock:
  assumes "sorted ts" and "ts \<noteq> []" and "\<And>t. t \<in> set ts \<Longrightarrow> t < x"
    and "x \<le> hd ts + secs (lf_failure_ttl_secs config)"
    and "counter_at x n (view (hd ts) s (failure_count_key realm ident ip))"
    and "n + length ts < 2 ^ 64 - 1" and "last ts \<le> u"
  shows "view u (record_failures C realm ident ip config ts s) (lockout_key realm ident ip) =
    (let wait = lockout_for config (of_nat (n + length ts)) in
     if unat (lf_max_failures config) \<le> n + length ts \<and> wait \<noteq> 0
     then (if u < last ts + secs wait then Some (''1'', Some (last ts + secs wait)) else None)
     else view u s (lockout_key realm ident ip))"
  using assms
proof (induction ts arbitrary: n s)
  case Nil
  then show ?case by simp
next
  case (Cons t ts)
  have small: "Suc n < 2 ^ 64"
    using Cons.prems(6) by simp
  have "t \<le> last (t # ts)"
    using Cons.prems(1) by simp
  with Cons.prems(7) have tu: "t \<le> u"
    by (rule order.trans [rotated])
  note step = record_failure_step [OF Cons.prems(5,4) [simplified] small]
  show ?case
  proof (cases "ts = []")
    case True
    then show ?thesis
      using step(3) [OF tu] by (simp add: Let_def)
  next
    case False
    then have hd: "t \<le> hd ts" "hd ts < x"
      using Cons.prems(1,3) by auto
    have x: "x \<le> hd ts + secs (lf_failure_ttl_secs config)"
      using Cons.prems(4) hd(1) by simp
    let ?s = "snd (record_failure C t realm ident ip config s)"
    have zero: "lockout_for config (of_nat (Suc n)) = 0 \<longleftrightarrow>
        lockout_for config (of_nat (Suc n + length ts)) = 0"
      using Cons.prems(6) small
      by (simp add: lockout_for_pos_iff unat_of_nat_u64 del: of_nat_Suc of_nat_add)
    have "view u (record_failures C realm ident ip config ts ?s) (lockout_key realm ident ip) =
      (let wait = lockout_for config (of_nat (Suc n + length ts)) in
       if unat (lf_max_failures config) \<le> Suc n + length ts \<and> wait \<noteq> 0
       then (if u < last ts + secs wait then Some (''1'', Some (last ts + secs wait)) else None)
       else view u ?s (lockout_key realm ident ip))"
      using Cons.prems False x step(2) [OF hd] by (intro Cons.IH) auto
    then show ?thesis
      using False step(3) [OF tu] zero
      by (auto simp: Let_def simp del: of_nat_Suc of_nat_add)
  qed
qed

end

text \<open>(C16) Brute-force lockout of a password: failures in a row within the counting window lock the
  account exactly when the realm's threshold is reached, and then exactly for the lockout
  duration after the last failure; below the threshold the lock status does not change.\<close>

theorem failures_lock_account:
  assumes "sorted ts" and "ts \<noteq> []"
    and "last ts < hd ts + secs (lf_failure_ttl_secs config)"
    and "mem_view (hd ts) c (failure_count_key realm ident ip) = None"
    and "length ts < 2 ^ 64 - 1" and "last ts \<le> u"
  shows "fst (is_temporarily_locked in_memory u realm ident ip
      (record_failures in_memory realm ident ip config ts c)) =
    (let wait = lockout_for config (of_nat (length ts)) in
     if unat (lf_max_failures config) \<le> length ts \<and> wait \<noteq> 0
     then Inr (u < last ts + secs wait)
     else Inr (mem_view u c (lockout_key realm ident ip) \<noteq> None))"
proof -
  have "t < hd ts + secs (lf_failure_ttl_secs config)" if "t \<in> set ts" for t
  proof -
    have "t \<le> last ts"
      using assms(1,2) that by (auto simp: in_set_conv_nth last_conv_nth intro!: sorted_nth_mono)
    then show ?thesis
      using assms(3) by simp
  qed
  from mem.record_failures_lock [OF assms(1,2) this order.refl, of 0 c realm ident ip u] assms(4-6)
  show ?thesis
    by (simp add: mem.is_temporarily_locked_result Let_def)
qed

theorem failures_lock_account_witness:
  "fst (is_temporarily_locked in_memory 9 ''r'' ''u'' ''ip''
      (record_failures in_memory ''r'' ''u'' ''ip'' login_failure_config_default [1,2,3,4,5]
        (cache_new 0 :: nat in_memory_cache))) = Inr True"
proof -
  let ?d = login_failure_config_default
  have config: "lockout_for ?d 5 = 60" "lf_max_failures ?d = 5"
      "secs (lf_failure_ttl_secs ?d) = from_secs 300" "secs 60 = from_secs 60"
    by (simp_all add: lockout_for_def saturating_sub_def saturating_mul_def
        login_failure_config_default_def secs_def)
  have "mem_view t (cache_new 0 :: nat in_memory_cache) k = None" for t k
    by (simp add: mem_view_def cache_new_def with_sweep_interval_def lookup_empty)
  then show ?thesis
    using failures_lock_account [of "[1,2,3,4,5]" ?d "cache_new 0 :: nat in_memory_cache"
        "''r''" "''u''" "''ip''" 9]
    by (simp add: config from_secs_def NANOS_PER_SEC_def)
qed

end
