(* ===== verification/Grant_Base.thy ===== *)
theory Grant_Base
  imports Token_Endpoint Login_Failures
begin

text \<open>
  What the grants of the token endpoint share, from \<^verbatim>\<open>issuerd-server/src/routes/oidc.rs\<close>: the
  records kept in the cache under a code, the cache keys, the replies, the server state (cache,
  sessions of the in-memory storage, audit events) and the small helpers of
  \<^verbatim>\<open>dpop.rs\<close>, \<^verbatim>\<open>claims.rs\<close> and \<^verbatim>\<open>protected_resource.rs\<close>.  One clock, in nanoseconds since
  the epoch, serves the cache and the wall-clock readings.  The collaborators behind trait
  objects (user and client storage, token issuer, token validation), the claims assembly and
  the codec of the cached records are fields of a record.
\<close>

section \<open>Time\<close>

text \<open>\<open>Utc::now()\<close>, \<open>Utc::now().timestamp()\<close> and \<open>now_secs()\<close> at an instant.\<close>

definition utc :: "nat \<Rightarrow> timestamp" where "utc now = int now"

definition now_secs :: "nat \<Rightarrow> u64" where "now_secs now = of_nat (now div NANOS_PER_SEC)"

definition utc_seconds :: "nat \<Rightarrow> int" where "utc_seconds n = int (from_secs n)"

definition remaining_ttl :: "nat \<Rightarrow> timestamp \<Rightarrow> nat option" where
  "remaining_ttl now expires_at =
     (if expires_at - utc now < 0 then None else Some (nat (expires_at - utc now)))"

section \<open>Cached records\<close>

record auth_code_data =
  ac_realm_id :: string
  ac_user_id :: string
  ac_client_id :: string
  ac_redirect_uri :: string
  ac_scope :: "string list"
  ac_state :: "string option"
  ac_nonce :: "string option"
  ac_code_challenge :: "string option"
  ac_code_challenge_method :: "pkce_method option"
  ac_session_id :: "string option"
  ac_auth_time :: "timestamp option"
  ac_acr_values :: "string list"
  ac_claims :: "json option"
  ac_authorization_details :: "json list option"
  ac_resource :: "string option"

record used_auth_code =
  uc_access_token :: string
  uc_refresh_token :: "string option"
  uc_access_exp :: u64
  uc_refresh_exp :: "u64 option"

record device_code_data =
  dcd_device_code :: string
  dcd_user_code :: string
  dcd_client_id :: string
  dcd_realm_id :: string
  dcd_scope :: "string list"
  dcd_user_id :: "string option"
  dcd_authorized :: bool
  dcd_last_polled_at :: "timestamp option"
  dcd_expires_at :: timestamp

text \<open>\<open>serde_json::to_vec\<close> and \<open>from_slice\<close> of these records.\<close>

record codec =
  enc_auth_code :: "auth_code_data \<Rightarrow> bytes"
  dec_auth_code :: "bytes \<Rightarrow> auth_code_data option"
  enc_used_code :: "used_auth_code \<Rightarrow> bytes"
  dec_used_code :: "bytes \<Rightarrow> used_auth_code option"
  enc_device_code :: "device_code_data \<Rightarrow> bytes"
  dec_device_code :: "bytes \<Rightarrow> device_code_data option"

section \<open>Cache keys\<close>

definition auth_code_cache_key :: "string \<Rightarrow> string \<Rightarrow> string" where
  "auth_code_cache_key realm_id code = ''auth_code:'' @ realm_id @ '':'' @ code"

definition used_auth_code_key :: "string \<Rightarrow> string" where
  "used_auth_code_key code = ''used_auth_code:'' @ code"

definition revoked_key :: "string \<Rightarrow> string" where
  "revoked_key token = ''revoked:'' @ token"

definition revoked_refresh_key :: "string \<Rightarrow> string" where
  "revoked_refresh_key token = ''revoked_refresh:'' @ token"

definition device_code_key :: "string \<Rightarrow> string" where
  "device_code_key device_code = ''device:'' @ device_code"

definition user_code_key :: "string \<Rightarrow> string" where
  "user_code_key user_code = ''user_code:'' @ user_code"

definition session_key :: "string \<Rightarrow> string \<Rightarrow> string" where
  "session_key realm sid = ''session:'' @ realm @ '':'' @ sid"

definition session_tombstone_key :: "string \<Rightarrow> string \<Rightarrow> string" where
  "session_tombstone_key realm sid = ''session-tombstone:'' @ realm @ '':'' @ sid"

lemmas key_defs = auth_code_cache_key_def used_auth_code_key_def revoked_key_def
  revoked_refresh_key_def device_code_key_def user_code_key_def session_key_def
  session_tombstone_key_def

section \<open>Replies\<close>

record token_response =
  tp_access_token :: string
  tp_token_type :: string
  tp_expires_in :: u64
  tp_refresh_token :: "string option"
  tp_id_token :: "string option"
  tp_scope :: "string option"
  tp_issued_token_type :: "string option"
  tp_authorization_details :: "json list option"

text \<open>The response: tokens, or a status with an OAuth error code.\<close>

datatype reply = Tokens token_response | Refused nat string

definition error_reply :: "nat \<Rightarrow> issuerd_error \<Rightarrow> reply" where
  "error_reply status e = Refused status (code_as_ref (oauth_error_code e))"

definition cache_failure_response :: "issuerd_error \<Rightarrow> reply" where
  "cache_failure_response e = error_reply 503 TemporarilyUnavailable"

definition invalid_grant :: reply where "invalid_grant = Refused 400 ''invalid_grant''"

definition token_type :: "bool \<Rightarrow> string" where
  "token_type dpop_bound = (if dpop_bound then ''DPoP'' else ''Bearer'')"

section \<open>Claim overlays\<close>

type_synonym overlay = "string \<rightharpoonup> json"

definition unwrap_overlay :: "overlay option \<Rightarrow> overlay" where
  "unwrap_overlay ov = (case ov of Some m \<Rightarrow> m | None \<Rightarrow> Map.empty)"

definition bind_cnf_overlay :: "overlay option \<Rightarrow> string option \<Rightarrow> overlay option" where
  "bind_cnf_overlay ov dpop_jkt =
     (case dpop_jkt of None \<Rightarrow> ov
      | Some jkt \<Rightarrow> Some ((unwrap_overlay ov)(''cnf'' \<mapsto> JObject [(''jkt'', JString jkt)])))"

definition bind_authorization_details_overlay :: "overlay option \<Rightarrow> json list option \<Rightarrow> overlay option" where
  "bind_authorization_details_overlay ov details =
     (case details of None \<Rightarrow> ov
      | Some ds \<Rightarrow> Some ((unwrap_overlay ov)(''authorization_details'' \<mapsto> JArray ds)))"

definition bind_resource_aud_overlay :: "overlay option \<Rightarrow> string \<Rightarrow> string option \<Rightarrow> overlay option" where
  "bind_resource_aud_overlay ov client_id resource =
     (case resource of None \<Rightarrow> ov
      | Some r \<Rightarrow> Some ((unwrap_overlay ov)(''aud'' \<mapsto> JArray [JString client_id, JString r],
          ''resource'' \<mapsto> JString r)))"

section \<open>Server state and collaborators\<close>

datatype event_type =
    LoginEvent | LoginError | RegisterEvent | LogoutEvent | CodeToToken | CodeToTokenError
  | ClientLogin | ClientLoginError | RefreshTokenEvent | RefreshTokenError | InvalidSignature
  | RegisterError | LogoutError | TokenExchangeEvent | TokenExchangeError | CibaAuthEvent
  | CibaAuthError | CibaApprove | CibaDeny | CustomEvent string

record oidc_event =
  ev_type :: event_type
  ev_ip :: string
  ev_client_id :: "string option"
  ev_user_id :: "string option"
  ev_session_id :: "string option"
  ev_error :: "string option"
  ev_details :: "(string \<times> string) list"

record 's server =
  sv_cache :: 's
  sv_sessions :: "string \<times> string \<Rightarrow> user_session option"
  sv_events :: "(string \<times> oidc_event) list"

text \<open>The fresh identifiers a request draws (\<open>generate_id\<close> and the token identifiers the issuer
  draws) come from the request.\<close>

record grant_env =
  ge_url :: url_lib
  ge_digest :: digest_lib
  ge_codec :: codec
  ge_get_realm :: "string \<Rightarrow> issuerd_error + realm option"
  ge_get_user :: "string \<Rightarrow> string \<Rightarrow> issuerd_error + user option"
  ge_get_client :: "string \<Rightarrow> string \<Rightarrow> issuerd_error + client option"
  ge_claims_overlay :: "string \<Rightarrow> client \<Rightarrow> user \<Rightarrow> string list \<Rightarrow> issuerd_error + overlay"
  ge_id_claims :: "user \<Rightarrow> json option \<Rightarrow> client \<Rightarrow> string list \<Rightarrow> overlay option"
  ge_access_token :: "string \<Rightarrow> nat \<Rightarrow> user \<Rightarrow> client \<Rightarrow> realm \<Rightarrow> string list \<Rightarrow> string \<Rightarrow> json option
    \<Rightarrow> overlay option \<Rightarrow> issuerd_error + string"
  ge_refresh_token :: "string \<Rightarrow> nat \<Rightarrow> user \<Rightarrow> client \<Rightarrow> realm \<Rightarrow> string \<Rightarrow> string list \<Rightarrow> bool
    \<Rightarrow> string option \<Rightarrow> json list option \<Rightarrow> string option \<Rightarrow> issuerd_error + string"
  ge_id_token :: "string \<Rightarrow> nat \<Rightarrow> user \<Rightarrow> client \<Rightarrow> realm \<Rightarrow> string option \<Rightarrow> timestamp \<Rightarrow> string
    \<Rightarrow> string \<Rightarrow> string option \<Rightarrow> string list option \<Rightarrow> overlay option \<Rightarrow> issuerd_error + string"
  ge_mcp_enabled :: bool
  ge_mcp_resource :: "string \<Rightarrow> string"

text \<open>The token request after the steps all grants share: realm, authenticated client, parsed and
  validated parameters, the verified proof key.\<close>

record token_ctx =
  tc_realm :: realm
  tc_client :: client
  tc_req :: token_request
  tc_dpop_jkt :: "string option"
  tc_ip :: string
  tc_ids :: "nat \<Rightarrow> string"

definition emit_oidc_event :: "grant_env \<Rightarrow> string \<Rightarrow> oidc_event \<Rightarrow> 's server \<Rightarrow> 's server" where
  "emit_oidc_event E realm_id ev st =
     (case ge_get_realm E realm_id of
        Inr (Some r) \<Rightarrow> if rlm_events_enabled r then st\<lparr>sv_events := sv_events st @ [(realm_id, ev)]\<rparr> else st
      | _ \<Rightarrow> st\<lparr>sv_events := sv_events st @ [(realm_id, ev)]\<rparr>)"

definition validate_resource_param :: "grant_env \<Rightarrow> string \<Rightarrow> string option \<Rightarrow> issuerd_error + unit" where
  "validate_resource_param E realm_name resource =
     (case resource of None \<Rightarrow> Inr ()
      | Some r \<Rightarrow>
          if \<not> ge_mcp_enabled E
          then Inl (InvalidTarget ''resource indicators are not supported by this server'')
          else if r \<noteq> ge_mcp_resource E realm_name then Inl (InvalidTarget ''unknown resource'')
          else Inr ())"

text \<open>The sessions of the in-memory storage.\<close>

definition get_user_session :: "string \<Rightarrow> string \<Rightarrow> 's server \<Rightarrow> user_session option" where
  "get_user_session realm sid st = sv_sessions st (realm, sid)"

definition create_user_session :: "string \<Rightarrow> user_session \<Rightarrow> 's server \<Rightarrow> (issuerd_error + unit) \<times> 's server" where
  "create_user_session realm session st =
     (Inr (), st\<lparr>sv_sessions := (sv_sessions st)((realm, us_id session) \<mapsto> session)\<rparr>)"

definition update_user_session :: "string \<Rightarrow> user_session \<Rightarrow> 's server \<Rightarrow> (issuerd_error + unit) \<times> 's server" where
  "update_user_session realm session st =
     (if sv_sessions st (realm, us_id session) = None then (Inl NotFound, st)
      else (Inr (), st\<lparr>sv_sessions := (sv_sessions st)((realm, us_id session) \<mapsto> session)\<rparr>))"

definition delete_user_session :: "string \<Rightarrow> string \<Rightarrow> 's server \<Rightarrow> 's server" where
  "delete_user_session realm sid st = st\<lparr>sv_sessions := (sv_sessions st)((realm, sid) := None)\<rparr>"

definition persist_session :: "string \<Rightarrow> user_session \<Rightarrow> bool \<Rightarrow> 's server \<Rightarrow> (reply + unit) \<times> 's server" where
  "persist_session realm session update_existing st =
     (case if update_existing then update_user_session realm session st
           else create_user_session realm session st of
        (Inl e, st') \<Rightarrow> (Inl (error_reply 500 (ServerError (error_display e))), st')
      | (Inr _, st') \<Rightarrow> (Inr (), st'))"

text \<open>A cache call on the server.\<close>

definition on_cache :: "('s \<Rightarrow> 'r \<times> 's) \<Rightarrow> 's server \<Rightarrow> 'r \<times> 's server" where
  "on_cache f st = (case f (sv_cache st) of (r, c) \<Rightarrow> (r, st\<lparr>sv_cache := c\<rparr>))"

definition invalidate_session ::
    "'s dist_cache \<Rightarrow> nat \<Rightarrow> string \<Rightarrow> string \<Rightarrow> string \<Rightarrow> 's server \<Rightarrow> 's server" where
  "invalidate_session C now realm sid fresh st =
     (let st1 = snd (on_cache (dc_set C now (session_tombstone_key realm sid) fresh
                  (Some (from_secs (24 * 60 * 60)))) st)
      in snd (on_cache (dc_delete C now (session_key realm sid)) st1))"

section \<open>Cache calls under the contract\<close>

lemma on_cache_eq: "on_cache f st = (fst (f (sv_cache st)), st\<lparr>sv_cache := snd (f (sv_cache st))\<rparr>)"
  by (simp add: on_cache_def case_prod_beta)

lemma sv_cache_emit [simp]: "sv_cache (emit_oidc_event E realm_id ev st) = sv_cache st"
  by (simp add: emit_oidc_event_def split: sum.splits option.splits)

lemma sv_sessions_emit [simp]: "sv_sessions (emit_oidc_event E rid ev st) = sv_sessions st"
  by (simp add: emit_oidc_event_def split: sum.splits option.splits)

lemma sv_cache_persist [simp]: "sv_cache (snd (persist_session realm session b st)) = sv_cache st"
  by (simp add: persist_session_def update_user_session_def create_user_session_def)

context distributed_cache
begin

lemma on_cache_get:
  "on_cache (dc_get C t k) st = (Inr (map_option fst (view t (sv_cache st) k)),
     st\<lparr>sv_cache := snd (dc_get C t k (sv_cache st))\<rparr>)"
  using get_result [of t k "sv_cache st"] by (simp add: on_cache_eq)

lemma on_cache_take:
  "on_cache (dc_get_and_delete C t k) st = (Inr (map_option fst (view t (sv_cache st) k)),
     st\<lparr>sv_cache := snd (dc_get_and_delete C t k (sv_cache st))\<rparr>)"
  using get_and_delete_result [of t k "sv_cache st"] by (simp add: on_cache_eq)

lemma on_cache_set:
  "on_cache (dc_set C t k v ttl) st = (Inr (), st\<lparr>sv_cache := snd (dc_set C t k v ttl (sv_cache st))\<rparr>)"
  using set_result [of t k v ttl "sv_cache st"] by (simp add: on_cache_eq)

lemma on_cache_delete:
  "on_cache (dc_delete C t k) st = (Inr (), st\<lparr>sv_cache := snd (dc_delete C t k (sv_cache st))\<rparr>)"
  using delete_result [of t k "sv_cache st"] by (simp add: on_cache_eq)

lemma on_cache_increment:
  "on_cache (dc_increment C t k ttl) st = (Inr (fst (counted t ttl (view t (sv_cache st) k))),
     st\<lparr>sv_cache := snd (dc_increment C t k ttl (sv_cache st))\<rparr>)"
  using increment_result [of t k ttl "sv_cache st"] by (simp add: on_cache_eq)

lemmas on_caches = on_cache_get on_cache_take on_cache_set on_cache_delete on_cache_increment

end

end
