(* ===== verification/Interleaving.thy ===== *)
theory Interleaving
  imports Issuerd_Prelude
begin

text \<open>
  Requests that run at once.  A request is a process that stops before each call on shared
  state; in every step of the system one process makes its next call at some later instant, or
  the environment changes the state.  The theory holds the step relation, the counting of
  processes and the lifting of an invariant to everything reachable.
\<close>

section \<open>Systems of processes\<close>

record ('pc, 's) system =
  sys_state :: 's
  sys_now :: nat
  sys_pcs :: "nat \<Rightarrow> 'pc"

inductive system_step ::
    "(nat \<Rightarrow> nat \<Rightarrow> 'pc \<Rightarrow> 's \<Rightarrow> 'pc \<times> 's) \<Rightarrow> (nat \<Rightarrow> 's \<Rightarrow> 's \<Rightarrow> bool) \<Rightarrow> nat
     \<Rightarrow> ('pc, 's) system \<Rightarrow> ('pc, 's) system \<Rightarrow> bool"
  for act env n where
  request: "i < n \<Longrightarrow> sys_now \<sigma> \<le> t \<Longrightarrow> act i t (sys_pcs \<sigma> i) (sys_state \<sigma>) = (pc, s) \<Longrightarrow>
    system_step act env n \<sigma> \<lparr>sys_state = s, sys_now = t, sys_pcs = (sys_pcs \<sigma>)(i := pc)\<rparr>"
| other: "sys_now \<sigma> \<le> t \<Longrightarrow> env t (sys_state \<sigma>) s \<Longrightarrow>
    system_step act env n \<sigma> (\<sigma>\<lparr>sys_state := s, sys_now := t\<rparr>)"

inductive_cases system_stepE [elim]: "system_step act env n \<sigma> \<sigma>'"

definition system_init :: "'pc \<Rightarrow> 's \<Rightarrow> nat \<Rightarrow> ('pc, 's) system" where
  "system_init pc s t0 = \<lparr>sys_state = s, sys_now = t0, sys_pcs = (\<lambda>_. pc)\<rparr>"

lemma system_step_now: "system_step act env n \<sigma> \<sigma>' \<Longrightarrow> sys_now \<sigma> \<le> sys_now \<sigma>'"
  by (erule system_stepE) simp_all

text \<open>An invariant of the steps inside a time window holds in every state reached inside it.\<close>

lemma system_invariant:
  assumes "(system_step act env n)\<^sup>*\<^sup>* \<sigma>0 \<sigma>" and "W (sys_now \<sigma>)"
    and window: "\<And>t u. W u \<Longrightarrow> t \<le> u \<Longrightarrow> W t" and base: "I \<sigma>0"
    and step: "\<And>\<sigma> \<sigma>'. system_step act env n \<sigma> \<sigma>' \<Longrightarrow> I \<sigma> \<Longrightarrow> W (sys_now \<sigma>') \<Longrightarrow> I \<sigma>'"
  shows "I \<sigma>"
  using assms(1,2)
proof (induction rule: rtranclp_induct)
  case base
  then show ?case by (simp add: assms(4))
next
  case (step \<sigma> \<sigma>')
  then have "W (sys_now \<sigma>)"
    using window system_step_now by blast
  with step show ?case
    using assms(5) by blast
qed

text \<open>One request alone, and requests in a given order: who makes the next call, and when.\<close>

fun run_alone :: "(nat \<Rightarrow> 'pc \<Rightarrow> 's \<Rightarrow> 'pc \<times> 's) \<Rightarrow> nat list \<Rightarrow> 'pc \<Rightarrow> 's \<Rightarrow> 'pc \<times> 's" where
  "run_alone step [] pc st = (pc, st)"
| "run_alone step (t # ts) pc st = (let (pc', st') = step t pc st in run_alone step ts pc' st')"

fun run_schedule ::
    "(nat \<Rightarrow> nat \<Rightarrow> 'pc \<Rightarrow> 's \<Rightarrow> 'pc \<times> 's) \<Rightarrow> (nat \<times> nat) list \<Rightarrow> ('pc, 's) system \<Rightarrow> ('pc, 's) system" where
  "run_schedule act [] \<sigma> = \<sigma>"
| "run_schedule act ((i, t) # turns) \<sigma> =
     (let (pc, s) = act i t (sys_pcs \<sigma> i) (sys_state \<sigma>)
      in run_schedule act turns \<lparr>sys_state = s, sys_now = t, sys_pcs = (sys_pcs \<sigma>)(i := pc)\<rparr>)"

lemma run_schedule_reaches:
  assumes "sorted (sys_now \<sigma> # map snd turns)" and "\<And>i t. (i, t) \<in> set turns \<Longrightarrow> i < n"
  shows "(system_step act env n)\<^sup>*\<^sup>* \<sigma> (run_schedule act turns \<sigma>)"
  using assms
proof (induction act turns \<sigma> rule: run_schedule.induct)
  case (2 act i t turns \<sigma>)
  obtain pc s where act: "act i t (sys_pcs \<sigma> i) (sys_state \<sigma>) = (pc, s)"
    by (cases "act i t (sys_pcs \<sigma> i) (sys_state \<sigma>)")
  let ?\<sigma>' = "\<lparr>sys_state = s, sys_now = t, sys_pcs = (sys_pcs \<sigma>)(i := pc)\<rparr>"
  have "system_step act env n \<sigma> ?\<sigma>'"
    using 2(2,3) act by (intro system_step.request) auto
  moreover have "(system_step act env n)\<^sup>*\<^sup>* ?\<sigma>' (run_schedule act turns ?\<sigma>')"
    using 2(2,3) by (intro 2(1) [OF act [symmetric] refl]) auto
  ultimately show ?case
    by (simp add: act)
qed simp

text \<open>Requests that do not overlap: request \<open>i\<close> makes its calls at the instants \<open>ts\<close>, then the rest
  of the schedule follows.\<close>

lemma run_schedule_alone:
  "run_schedule act (map (Pair i) ts @ turns) \<sigma> =
     (let (pc, s) = run_alone (act i) ts (sys_pcs \<sigma> i) (sys_state \<sigma>)
      in run_schedule act turns \<lparr>sys_state = s, sys_now = last (sys_now \<sigma> # ts), sys_pcs = (sys_pcs \<sigma>)(i := pc)\<rparr>)"
proof (induction ts arbitrary: \<sigma>)
  case Nil
  show ?case
    by (cases \<sigma>) (simp del: fun_upd_apply)
next
  case (Cons t ts)
  then show ?case
    by (simp add: case_prod_beta Let_def fun_upd_same del: fun_upd_apply)
qed

section \<open>Counting processes\<close>

definition how_many :: "nat \<Rightarrow> (nat \<Rightarrow> 'pc \<Rightarrow> bool) \<Rightarrow> (nat \<Rightarrow> 'pc) \<Rightarrow> nat" where
  "how_many n P pcs = length (filter (\<lambda>i. P i (pcs i)) [0..<n])"

lemma how_many_upd:
  "i < n \<Longrightarrow> how_many n P (f(i := x)) + of_bool (P i (f i)) = how_many n P f + of_bool (P i x)"
proof (induction n)
  case 0
  then show ?case by simp
next
  case (Suc n)
  have "how_many n P (f(n := x)) = how_many n P f"
    by (auto simp: how_many_def intro!: arg_cong [where f = length] filter_cong)
  with Suc show ?case
    by (cases "i = n") (auto simp: how_many_def)
qed

lemma how_many_le: "how_many n P f \<le> n"
  using length_filter_le [of "\<lambda>i. P i (f i)" "[0..<n]"] by (simp add: how_many_def)

lemma how_many_0: "(\<And>i. i < n \<Longrightarrow> \<not> P i (f i)) \<Longrightarrow> how_many n P f = 0"
  by (auto simp: how_many_def filter_empty_conv)

lemma how_many_pos: "i < n \<Longrightarrow> P i (f i) \<Longrightarrow> 0 < how_many n P f"
  by (auto simp: how_many_def filter_empty_conv)

lemma how_many_mono:
  "(\<And>i. P i (f i) \<Longrightarrow> Q i (f i)) \<Longrightarrow> how_many n P f \<le> how_many n Q f"
  by (induction n) (auto simp: how_many_def)

lemma how_many_le_1:
  assumes "how_many n P f \<le> 1" and "i < n" "j < n" "P i (f i)" "P j (f j)"
  shows "i = j"
proof -
  have "card {k. k < n \<and> P k (f k)} \<le> 1"
    using assms(1) distinct_card [of "filter (\<lambda>i. P i (f i)) [0..<n]"] by (simp add: how_many_def)
  then show ?thesis
    using assms(2-5) by (auto simp: card_le_Suc0_iff_eq)
qed

end
