(* ===== verification/Cache_Races.thy ===== *)
theory Cache_Races
  imports Interleaving Cache_Spec
begin

text \<open>
  Races on the cache: the keys an operation touches, the environment that leaves some keys
  alone, and what such an environment and the passing of time do to an entry.
\<close>

fun op_keys :: "cache_op \<Rightarrow> string set" where
  "op_keys (OpGet k) = {k}"
| "op_keys (OpSet k v ttl) = {k}"
| "op_keys (OpDelete k) = {k}"
| "op_keys (OpGetAndDelete k) = {k}"
| "op_keys (OpCompareAndSwap k e v) = {k}"
| "op_keys (OpCompareAndDelete k b) = {k}"
| "op_keys (OpCreateIfAbsent k v ttl) = {k}"
| "op_keys (OpClaimAndCreate k b k' v ttl) = {k, k'}"
| "op_keys (OpIncrement k ttl) = {k}"

text \<open>The rest of the server: any cache call on other keys.\<close>

definition spares :: "'s dist_cache \<Rightarrow> string set \<Rightarrow> nat \<Rightarrow> 's \<Rightarrow> 's \<Rightarrow> bool" where
  "spares C keys t s s' \<longleftrightarrow> (\<exists>a. op_keys a \<inter> keys = {} \<and> s' = snd (exec_op C t a s))"

context distributed_cache
begin

lemma exec_op_frame:
  "t \<le> u \<Longrightarrow> k \<notin> op_keys a \<Longrightarrow> view u (snd (exec_op C t a s)) k = view u s k"
  by (cases a) (auto simp: get_view set_view delete_view get_and_delete_view cas_view cad_view
      create_view claim_view increment_view put_def split: prod.splits)

lemma spares_view: "spares C keys t s s' \<Longrightarrow> t \<le> u \<Longrightarrow> k \<in> keys \<Longrightarrow> view u s' k = view u s k"
  by (auto simp: spares_def intro: exec_op_frame)

lemma view_gone: "t \<le> u \<Longrightarrow> view t s k = None \<Longrightarrow> view u s k = None"
  using view_later [of t u s k] by simp

end

end
