(* ===== verification/Code_Grant.thy ===== *)
theory Code_Grant
  imports Grant_Base Cache_Races
begin

text \<open>
  The authorization-code grant of \<^verbatim>\<open>token_handler_inner\<close> in
  \<^verbatim>\<open>issuerd-server/src/routes/oidc.rs\<close> and the storing of a code.  A redemption is a process
  that stops at each cache call: the atomic take of the code, for an unknown code the reuse
  check and the revocations, for a known one the checks and the issuing and then the record of
  the used code.  The storage calls of the issuing step happen between two cache calls.
\<close>

section \<open>Storing a code\<close>

definition store_auth_code ::
    "'s dist_cache \<Rightarrow> codec \<Rightarrow> nat \<Rightarrow> string \<Rightarrow> auth_code_data \<Rightarrow> nat \<Rightarrow> 's \<Rightarrow> (issuerd_error + unit) \<times> 's" where
  "store_auth_code C K now code d ttl s =
     (case id_new ''RealmId'' (ac_realm_id d) of
        Inl _ \<Rightarrow> (Inl (InvalidRequest ''authorization code realm is invalid''), s)
      | Inr _ \<Rightarrow> dc_set C now (auth_code_cache_key (ac_realm_id d) code) (enc_auth_code K d) (Some ttl) s)"

section \<open>The checks on a redeemed code\<close>

text \<open>The resource the grant is for: the request may restate the granted one or introduce one.\<close>

definition code_resource :: "token_request \<Rightarrow> auth_code_data \<Rightarrow> issuerd_error + string option" where
  "code_resource req d =
     (case (tr_resource req, ac_resource d) of
        (Some requested, Some granted) \<Rightarrow>
          if requested \<noteq> granted
          then Inl (InvalidTarget ''resource does not match the resource granted with the code'')
          else Inr (Some requested)
      | (Some requested, None) \<Rightarrow> Inr (Some requested)
      | (None, granted) \<Rightarrow> Inr granted)"

definition mcp_redirect_valid :: "url_lib \<Rightarrow> client \<Rightarrow> string \<Rightarrow> bool" where
  "mcp_redirect_valid U client uri \<longleftrightarrow>
     (case ul_parse U uri of Inl _ \<Rightarrow> False | Inr u \<Rightarrow> url_fragment u = None)
     \<and> list_ex (\<lambda>registered. redirect_matches_mcp U registered uri) (cli_redirect_uris client)"

definition verify_pkce :: "digest_lib \<Rightarrow> string \<Rightarrow> string \<Rightarrow> pkce_method option \<Rightarrow> bool" where
  "verify_pkce D verifier challenge pmethod = is_ok (pkce_verify D verifier challenge pmethod)"

definition narrow_details ::
    "string \<Rightarrow> json list option \<Rightarrow> json list option \<Rightarrow> issuerd_error + json list option" where
  "narrow_details msg requested granted =
     (case requested of None \<Rightarrow> Inr granted
      | Some ds \<Rightarrow>
          if authorization_details_is_subset ds (case granted of Some gs \<Rightarrow> gs | None \<Rightarrow> [])
          then Inr (Some ds) else Inl (InvalidAuthorizationDetails msg))"

record code_grant =
  cg_user :: user
  cg_resource :: "string option"
  cg_details :: "json list option"
  cg_redirect_uri :: string

text \<open>A refusal carries whether it is reported as an event.\<close>

definition check_code_grant ::
    "grant_env \<Rightarrow> token_ctx \<Rightarrow> auth_code_data \<Rightarrow> (reply \<times> bool) + code_grant" where
  "check_code_grant E ctx d =
     (let req = tc_req ctx; client = tc_client ctx; realm = tc_realm ctx in
      if ac_realm_id d \<noteq> rlm_id realm then Inl (invalid_grant, False)
      else if ac_client_id d \<noteq> cli_client_id client then Inl (invalid_grant, False)
      else if (case tr_redirect_uri req of Some u \<Rightarrow> url_str u \<noteq> ac_redirect_uri d | None \<Rightarrow> False)
        then Inl (invalid_grant, False)
      else (case code_resource req d of
        Inl e \<Rightarrow> Inl (error_reply 400 e, False)
      | Inr resource \<Rightarrow>
        if resource \<noteq> None \<and> \<not> mcp_redirect_valid (ge_url E) client (ac_redirect_uri d)
          then Inl (invalid_grant, False)
        else if resource \<noteq> None
            \<and> (ac_code_challenge d = None \<or> ac_code_challenge_method d \<noteq> Some S256)
          then Inl (invalid_grant, False)
        else if (case ac_code_challenge d of
              Some challenge \<Rightarrow>
                \<not> verify_pkce (ge_digest E) (case tr_code_verifier req of Some v \<Rightarrow> v | None \<Rightarrow> [])
                    challenge (ac_code_challenge_method d)
            | None \<Rightarrow> False)
          then Inl (invalid_grant, True)
        else (case id_new ''UserId'' (ac_user_id d) of
          Inl _ \<Rightarrow> Inl (invalid_grant, False)
        | Inr user_id \<Rightarrow>
          (case ge_get_user E (rlm_id realm) user_id of
            Inr (Some user) \<Rightarrow>
              if \<not> usr_enabled user then Inl (invalid_grant, False)
              else if MCP_SCOPE_STEP_UP \<in> set (ac_scope d) then Inl (error_reply 400 InvalidScope, False)
              else (case narrow_details
                  ''requested authorization_details exceed the details granted with the code''
                  (tr_authorization_details req) (ac_authorization_details d) of
                Inl e \<Rightarrow> Inl (error_reply 400 e, False)
              | Inr details \<Rightarrow>
                (case validate_resource_param E (rlm_name realm) resource of
                  Inl e \<Rightarrow> Inl (error_reply 400 e, False)
                | Inr _ \<Rightarrow>
                  (case redirect_uri_new (ge_url E) (ac_redirect_uri d) of
                    Inl _ \<Rightarrow> Inl (invalid_grant, False)
                  | Inr uri \<Rightarrow>
                      Inr \<lparr>cg_user = user, cg_resource = resource, cg_details = details,
                           cg_redirect_uri = uri\<rparr>)))
          | _ \<Rightarrow> Inl (invalid_grant, False)))))"

section \<open>Sessions\<close>

definition code_client_session :: "token_ctx \<Rightarrow> nat \<Rightarrow> string \<Rightarrow> auth_code_data \<Rightarrow> string \<Rightarrow> client_session" where
  "code_client_session ctx now sid d uri =
     \<lparr>cs_id = tc_ids ctx 1, cs_client_id = cli_id (tc_client ctx), cs_session_id = sid,
      cs_redirect_uri = Some uri, cs_state = ac_state d, cs_auth_method = PasswordAuth,
      cs_timestamp = utc now\<rparr>"

text \<open>The login's session takes the client in; without one a session is created.\<close>

definition attach_code_session ::
    "token_ctx \<Rightarrow> nat \<Rightarrow> string \<Rightarrow> auth_code_data \<Rightarrow> code_grant \<Rightarrow> 's server \<Rightarrow> (reply + user_session) \<times> 's server" where
  "attach_code_session ctx now sid d g st =
     (let realm_id = rlm_id (tc_realm ctx);
          cs = code_client_session ctx now sid d (cg_redirect_uri g) in
      case get_user_session realm_id sid st of
        Some session \<Rightarrow>
          (let session' = session\<lparr>
                 us_clients := (if list_ex (\<lambda>c. cs_client_id c = cli_id (tc_client ctx)) (us_clients session)
                   then us_clients session else us_clients session @ [cs]),
                 us_last_session_refresh := utc now\<rparr>
           in apfst (map_sum id (\<lambda>_. session')) (persist_session realm_id session' True st))
      | None \<Rightarrow>
          (let session' = \<lparr>us_id = sid, us_realm_id = realm_id, us_user_id = usr_id (cg_user g),
                 us_login_username = usr_username (cg_user g), us_ip_address = tc_ip ctx,
                 us_auth_method = PasswordAuth, us_remember_me = False, us_offline = False,
                 us_started = utc now, us_last_session_refresh = utc now,
                 us_auth_time = (case ac_auth_time d of Some t \<Rightarrow> t | None \<Rightarrow> utc now),
                 us_impersonator = None, us_clients = [cs]\<rparr>
           in apfst (map_sum id (\<lambda>_. session')) (persist_session realm_id session' False st)))"

definition offline_code_session :: "token_ctx \<Rightarrow> nat \<Rightarrow> auth_code_data \<Rightarrow> code_grant \<Rightarrow> user_session \<Rightarrow> user_session" where
  "offline_code_session ctx now d g session =
     \<lparr>us_id = tc_ids ctx 2, us_realm_id = rlm_id (tc_realm ctx), us_user_id = usr_id (cg_user g),
      us_login_username = usr_username (cg_user g), us_ip_address = tc_ip ctx,
      us_auth_method = PasswordAuth, us_remember_me = us_remember_me session, us_offline = True,
      us_started = utc now, us_last_session_refresh = utc now,
      us_auth_time = (case ac_auth_time d of Some t \<Rightarrow> t | None \<Rightarrow> utc now), us_impersonator = None,
      us_clients = map (\<lambda>(i, c). c\<lparr>cs_id := tc_ids ctx (6 + i), cs_session_id := tc_ids ctx 2\<rparr>)
        (enumerate 0 (us_clients session))\<rparr>"

section \<open>Issuing\<close>

record code_tokens =
  ct_response :: token_response
  ct_used :: used_auth_code
  ct_used_ttl :: u64
  ct_session_id :: string
  ct_user :: user

definition issue_code_tokens ::
    "grant_env \<Rightarrow> token_ctx \<Rightarrow> nat \<Rightarrow> string \<Rightarrow> auth_code_data \<Rightarrow> code_grant \<Rightarrow> string \<Rightarrow> reply + code_tokens" where
  "issue_code_tokens E ctx now code d g token_sid =
     (let realm = tc_realm ctx; client = tc_client ctx; user = cg_user g; scope = ac_scope d;
          offline = (OFFLINE_ACCESS_SCOPE \<in> set scope);
          auth_time = (case ac_auth_time d of Some t \<Rightarrow> t | None \<Rightarrow> utc now);
          overlay0 = (case ge_claims_overlay E (rlm_id realm) client user scope of
             Inr m \<Rightarrow> m | Inl _ \<Rightarrow> Map.empty);
          overlay = bind_resource_aud_overlay
             (bind_authorization_details_overlay
               (bind_cnf_overlay (Some overlay0) (tc_dpop_jkt ctx)) (cg_details g))
             (cli_client_id client) (cg_resource g)
      in case ge_access_token E (tc_ids ctx 3) now user client realm scope token_sid (ac_claims d) overlay of
           Inl e \<Rightarrow> Inl (error_reply 500 e)
         | Inr access \<Rightarrow>
             (let refresh = (case ge_refresh_token E (tc_ids ctx 4) now user client realm token_sid scope offline
                    (tc_dpop_jkt ctx) (ac_authorization_details d) (cg_resource g) of
                    Inr t \<Rightarrow> Some t | Inl _ \<Rightarrow> None);
                  id_token = (if ''openid'' \<in> set scope then
                    (case ge_id_token E (tc_ids ctx 5) now user client realm (ac_nonce d) auth_time token_sid
                       access (Some code) (Some (ac_acr_values d))
                       (ge_id_claims E user (ac_claims d) client scope) of
                       Inr t \<Rightarrow> Some t | Inl _ \<Rightarrow> None) else None);
                  access_exp = now_secs now + rlm_access_token_lifespan realm;
                  refresh_lifespan = (if offline then rlm_offline_session_idle_timeout realm
                    else rlm_refresh_token_lifespan realm);
                  refresh_exp = map_option (\<lambda>_. now_secs now + refresh_lifespan) refresh
              in Inr \<lparr>ct_response = \<lparr>tp_access_token = access,
                        tp_token_type = token_type (tc_dpop_jkt ctx \<noteq> None),
                        tp_expires_in = rlm_access_token_lifespan realm, tp_refresh_token = refresh,
                        tp_id_token = id_token, tp_scope = Some (join '' '' scope),
                        tp_issued_token_type = None, tp_authorization_details = cg_details g\<rparr>,
                      ct_used = \<lparr>uc_access_token = access, uc_refresh_token = refresh,
                        uc_access_exp = access_exp, uc_refresh_exp = refresh_exp\<rparr>,
                      ct_used_ttl = max access_exp (case refresh_exp of Some x \<Rightarrow> x | None \<Rightarrow> 0) - now_secs now,
                      ct_session_id = token_sid, ct_user = user\<rparr>))"

text \<open>Checks, sessions and tokens of a code that was taken.\<close>

definition redeem_code ::
    "grant_env \<Rightarrow> token_ctx \<Rightarrow> nat \<Rightarrow> string \<Rightarrow> auth_code_data \<Rightarrow> 's server \<Rightarrow> (reply + code_tokens) \<times> 's server" where
  "redeem_code E ctx now code d st =
     (let realm_id = rlm_id (tc_realm ctx) in
      case check_code_grant E ctx d of
        Inl (r, report) \<Rightarrow>
          (Inl r, if report
             then emit_oidc_event E realm_id
               \<lparr>ev_type = CodeToTokenError, ev_ip = tc_ip ctx, ev_client_id = Some (cli_id (tc_client ctx)),
                ev_user_id = (case id_new ''UserId'' (ac_user_id d) of Inr u \<Rightarrow> Some u | Inl _ \<Rightarrow> None),
                ev_session_id = Option.bind (ac_session_id d) (\<lambda>s. if s = [] then None else Some s),
                ev_error = Some ''invalid_grant'', ev_details = [(''grant_type'', ''authorization_code'')]\<rparr> st
             else st)
      | Inr g \<Rightarrow>
          (let sid = (case Option.bind (ac_session_id d) (\<lambda>s. if s = [] then None else Some s) of
                 Some s \<Rightarrow> s | None \<Rightarrow> tc_ids ctx 0)
           in case attach_code_session ctx now sid d g st of
                (Inl r, st1) \<Rightarrow> (Inl r, st1)
              | (Inr session, st1) \<Rightarrow>
                  if OFFLINE_ACCESS_SCOPE \<in> set (ac_scope d)
                  then (case persist_session realm_id (offline_code_session ctx now d g session) False st1 of
                      (Inl r, st2) \<Rightarrow> (Inl r, st2)
                    | (Inr _, st2) \<Rightarrow> (issue_code_tokens E ctx now code d g (tc_ids ctx 2), st2))
                  else (issue_code_tokens E ctx now code d g sid, st1)))"

section \<open>A redemption as a process\<close>

datatype code_pc =
    CodeStart | CodeMissing | CodeRevoke used_auth_code | CodeRevokeRefresh used_auth_code u64
  | CodeTaken auth_code_data | CodeIssued code_tokens | CodeDone reply

definition req_code :: "token_ctx \<Rightarrow> string" where
  "req_code ctx = (case tr_code (tc_req ctx) of Some c \<Rightarrow> c | None \<Rightarrow> [])"

definition code_error_event :: "token_ctx \<Rightarrow> oidc_event" where
  "code_error_event ctx =
     \<lparr>ev_type = CodeToTokenError, ev_ip = tc_ip ctx, ev_client_id = Some (cli_id (tc_client ctx)),
      ev_user_id = None, ev_session_id = None, ev_error = Some ''invalid_grant'',
      ev_details = [(''grant_type'', ''authorization_code'')]\<rparr>"

definition code_event :: "token_ctx \<Rightarrow> code_tokens \<Rightarrow> oidc_event" where
  "code_event ctx t =
     \<lparr>ev_type = CodeToToken, ev_ip = tc_ip ctx, ev_client_id = Some (cli_id (tc_client ctx)),
      ev_user_id = Some (usr_id (ct_user t)), ev_session_id = Some (ct_session_id t), ev_error = None,
      ev_details = [(''grant_type'', ''authorization_code''), (''username'', usr_username (ct_user t))]\<rparr>"

text \<open>A revocation marker with the remaining lifetime of its token, if any is left.\<close>

definition mark_revoked ::
    "'s dist_cache \<Rightarrow> nat \<Rightarrow> string \<Rightarrow> u64 \<Rightarrow> 's server \<Rightarrow> (issuerd_error + unit) \<times> 's server" where
  "mark_revoked C now key ttl st =
     (if ttl > 0 then on_cache (dc_set C now key [CHR 0x01] (Some (secs ttl))) st else (Inr (), st))"

definition code_step ::
    "'s dist_cache \<Rightarrow> grant_env \<Rightarrow> token_ctx \<Rightarrow> nat \<Rightarrow> code_pc \<Rightarrow> 's server \<Rightarrow> code_pc \<times> 's server" where
  "code_step C E ctx now pc st =
     (let realm_id = rlm_id (tc_realm ctx); code = req_code ctx; K = ge_codec E;
          refuse = (\<lambda>st. (CodeDone invalid_grant, emit_oidc_event E realm_id (code_error_event ctx) st)) in
      case pc of
        CodeStart \<Rightarrow>
          (case on_cache (dc_get_and_delete C now (auth_code_cache_key realm_id code)) st of
             (Inr (Some bytes), st') \<Rightarrow>
               (case dec_auth_code K bytes of Some d \<Rightarrow> CodeTaken d | None \<Rightarrow> CodeMissing, st')
           | (_, st') \<Rightarrow> (CodeMissing, st'))
      | CodeMissing \<Rightarrow>
          (case on_cache (dc_get C now (used_auth_code_key code)) st of
             (Inr (Some bytes), st') \<Rightarrow>
               (case dec_used_code K bytes of Some used \<Rightarrow> (CodeRevoke used, st') | None \<Rightarrow> refuse st')
           | (_, st') \<Rightarrow> refuse st')
      | CodeRevoke used \<Rightarrow>
          (case mark_revoked C now (revoked_key (uc_access_token used))
                  (saturating_sub (uc_access_exp used) (now_secs now)) st of
             (Inl e, st') \<Rightarrow> (CodeDone (cache_failure_response e), st')
           | (Inr _, st') \<Rightarrow> (CodeRevokeRefresh used (now_secs now), st'))
      | CodeRevokeRefresh used at_secs \<Rightarrow>
          (case (uc_refresh_token used, uc_refresh_exp used) of
             (Some rt, Some refresh_exp) \<Rightarrow>
               (case mark_revoked C now (revoked_refresh_key rt) (saturating_sub refresh_exp at_secs) st of
                  (Inl e, st') \<Rightarrow> (CodeDone (cache_failure_response e), st')
                | (Inr _, st') \<Rightarrow> refuse st')
           | _ \<Rightarrow> refuse st)
      | CodeTaken d \<Rightarrow>
          (case redeem_code E ctx now code d st of
             (Inl r, st') \<Rightarrow> (CodeDone r, st') | (Inr t, st') \<Rightarrow> (CodeIssued t, st'))
      | CodeIssued t \<Rightarrow>
          (case on_cache (dc_set C now (used_auth_code_key code) (enc_used_code K (ct_used t))
                  (Some (secs (ct_used_ttl t)))) st of
             (Inl e, st') \<Rightarrow> (CodeDone (cache_failure_response e), st')
           | (Inr _, st') \<Rightarrow>
               (CodeDone (Tokens (ct_response t)), emit_oidc_event E realm_id (code_event ctx t) st'))
      | CodeDone r \<Rightarrow> (CodeDone r, st))"

text \<open>Everything else the server does: sessions and events may change, and the cache outside the
  given keys.\<close>

definition server_spares :: "'s dist_cache \<Rightarrow> string set \<Rightarrow> nat \<Rightarrow> 's server \<Rightarrow> 's server \<Rightarrow> bool" where
  "server_spares C keys t st st' \<longleftrightarrow> spares C keys t (sv_cache st) (sv_cache st')"

section \<open>A code is redeemed at most once\<close>

definition code_key_of :: "token_ctx \<Rightarrow> string" where
  "code_key_of ctx = auth_code_cache_key (rlm_id (tc_realm ctx)) (req_code ctx)"

fun holds_code :: "code_pc \<Rightarrow> bool" where
  "holds_code (CodeTaken _) = True"
| "holds_code (CodeIssued _) = True"
| "holds_code (CodeDone (Tokens _)) = True"
| "holds_code _ = False"

lemma sv_cache_attach [simp]: "sv_cache (snd (attach_code_session ctx now sid d g st)) = sv_cache st"
  by (simp add: attach_code_session_def Let_def split: option.split)

lemma sv_cache_redeem [simp]: "sv_cache (snd (redeem_code E ctx now code d st)) = sv_cache st"
proof -
  have "sv_cache st2 = sv_cache st"
    if "attach_code_session ctx now sid d g st = (r, st1)" "persist_session rid s b st1 = (q, st2)"
    for sid g r st1 rid s b q st2
    using sv_cache_attach [of ctx now sid d g st] sv_cache_persist [of rid s b st1] that by simp
  moreover have "sv_cache st1 = sv_cache st" if "attach_code_session ctx now sid d g st = (r, st1)"
    for sid g r st1
    using sv_cache_attach [of ctx now sid d g st] that by simp
  ultimately show ?thesis
    by (auto simp: redeem_code_def Let_def split: sum.splits prod.splits)
qed

lemma auth_code_key_differs [simp]:
  "auth_code_cache_key r c \<noteq> used_auth_code_key x" "used_auth_code_key x \<noteq> auth_code_cache_key r c"
  "auth_code_cache_key r c \<noteq> revoked_key x" "revoked_key x \<noteq> auth_code_cache_key r c"
  "auth_code_cache_key r c \<noteq> revoked_refresh_key x" "revoked_refresh_key x \<noteq> auth_code_cache_key r c"
  by (simp_all add: key_defs)

lemma refusals_hold_nothing [simp]:
  "\<not> holds_code (CodeDone invalid_grant)" "\<not> holds_code (CodeDone (cache_failure_response e))"
  by (simp_all add: invalid_grant_def cache_failure_response_def error_reply_def)

context distributed_cache
begin

lemma mark_revoked_run:
  "mark_revoked C t key ttl st = (Inr (), if ttl > 0
     then st\<lparr>sv_cache := snd (dc_set C t key [CHR 0x01] (Some (secs ttl)) (sv_cache st))\<rparr> else st)"
  by (simp add: mark_revoked_def on_caches)

text \<open>Only the first step of a redemption touches a stored code, and takes it.\<close>

lemma code_step_other_key:
  assumes "t \<le> u" and "auth_code_cache_key r c \<noteq> code_key_of ctx \<or> pc \<noteq> CodeStart"
  shows "view u (sv_cache (snd (code_step C E ctx t pc st))) (auth_code_cache_key r c)
    = view u (sv_cache st) (auth_code_cache_key r c)"
proof -
  have "sv_cache st' = sv_cache st" if "redeem_code E ctx t (req_code ctx) d st = (x, st')" for d x st'
    using sv_cache_redeem [of E ctx t "req_code ctx" d st] that by simp
  then show ?thesis
    using assms
    by (cases pc) (auto simp: code_step_def Let_def code_key_of_def on_caches mark_revoked_run
        get_view set_view get_and_delete_view put_def split: prod.splits sum.splits option.splits)
qed

lemma code_step_holds:
  assumes "code_key_of ctx = k" and "code_step C E ctx t pc st = (pc', st')"
  shows "of_bool (holds_code pc') + of_bool (view t (sv_cache st') k \<noteq> None)
    \<le> (of_bool (holds_code pc) + of_bool (view t (sv_cache st) k \<noteq> None) :: nat)"
proof (cases "pc = CodeStart")
  case True
  then show ?thesis
    using assms by (auto simp: code_step_def Let_def code_key_of_def on_caches get_and_delete_view
        split: option.splits)
next
  case False
  have "view t (sv_cache st') k = view t (sv_cache st) k"
    using code_step_other_key [of t t "rlm_id (tc_realm ctx)" "req_code ctx" ctx pc E st] False assms
    by (auto simp: code_key_of_def)
  moreover have "holds_code pc' \<Longrightarrow> holds_code pc"
    using False assms(2) by (cases pc) (auto simp: code_step_def Let_def on_caches mark_revoked_run
        split: prod.splits sum.splits option.splits)
  ultimately show ?thesis
    by (auto simp: of_bool_def)
qed

end

definition code_system_step ::
    "'s dist_cache \<Rightarrow> grant_env \<Rightarrow> (nat \<Rightarrow> token_ctx) \<Rightarrow> string \<Rightarrow> nat
     \<Rightarrow> (code_pc, 's server) system \<Rightarrow> (code_pc, 's server) system \<Rightarrow> bool" where
  "code_system_step C E ctxs k = system_step (\<lambda>i. code_step C E (ctxs i)) (server_spares C {k})"

definition holder :: "(nat \<Rightarrow> token_ctx) \<Rightarrow> string \<Rightarrow> nat \<Rightarrow> code_pc \<Rightarrow> bool" where
  "holder ctxs k i pc \<longleftrightarrow> code_key_of (ctxs i) = k \<and> holds_code pc"

context distributed_cache
begin

text \<open>The redemptions that hold the code, and the code itself if it is still there, are at most
  one.\<close>

lemma code_system_step_inv:
  assumes "code_system_step C E ctxs (auth_code_cache_key r c) n \<sigma> \<sigma>'"
  defines "k \<equiv> auth_code_cache_key r c"
  shows "how_many n (holder ctxs k) (sys_pcs \<sigma>') + of_bool (view (sys_now \<sigma>') (sv_cache (sys_state \<sigma>')) k \<noteq> None)
    \<le> how_many n (holder ctxs k) (sys_pcs \<sigma>) + of_bool (view (sys_now \<sigma>) (sv_cache (sys_state \<sigma>)) k \<noteq> None)"
  using assms(1) unfolding code_system_step_def k_def [symmetric]
proof cases
  case (request i t pc st)
  let ?c = "sv_cache (sys_state \<sigma>)"
  have later: "of_bool (view t ?c k \<noteq> None) \<le> (of_bool (view (sys_now \<sigma>) ?c k \<noteq> None) :: nat)"
    using view_gone [OF request(3), of ?c k] by (cases "view (sys_now \<sigma>) ?c k") auto
  have "of_bool (holder ctxs k i pc) + of_bool (view t (sv_cache st) k \<noteq> None)
      \<le> of_bool (holder ctxs k i (sys_pcs \<sigma> i)) + (of_bool (view t ?c k \<noteq> None) :: nat)"
  proof (cases "code_key_of (ctxs i) = k")
    case True
    then show ?thesis
      using code_step_holds [OF True request(4)] by (simp add: holder_def)
  next
    case False
    then show ?thesis
      using code_step_other_key [of t t r c "ctxs i" "sys_pcs \<sigma> i" E "sys_state \<sigma>"] request(4)
      by (simp add: holder_def k_def)
  qed
  then show ?thesis
    using later how_many_upd [OF request(2), of "holder ctxs k" "sys_pcs \<sigma>" pc]
    unfolding request(1) system.select_convs by linarith
next
  case (other t st)
  then have "view t (sv_cache st) k = view t (sv_cache (sys_state \<sigma>)) k"
    by (auto simp: server_spares_def intro: spares_view)
  then show ?thesis
    using other view_gone [OF other(2), of "sv_cache (sys_state \<sigma>)" k]
    by (cases "view (sys_now \<sigma>) (sv_cache (sys_state \<sigma>)) k") auto
qed

lemma code_redeemed_once:
  assumes "(code_system_step C E ctxs (auth_code_cache_key r c) n)\<^sup>*\<^sup>* (system_init CodeStart st t0) \<sigma>"
  shows "how_many n (holder ctxs (auth_code_cache_key r c)) (sys_pcs \<sigma>) \<le> 1"
proof -
  let ?k = "auth_code_cache_key r c"
  let ?m = "\<lambda>\<sigma>. how_many n (holder ctxs ?k) (sys_pcs \<sigma>)
    + of_bool (view (sys_now \<sigma>) (sv_cache (sys_state \<sigma>)) ?k \<noteq> None) :: nat"
  have "?m \<sigma> \<le> ?m (system_init CodeStart st t0)"
    using assms
  proof (induction rule: rtranclp_induct)
    case (step \<sigma> \<sigma>')
    show ?case
      by (rule order.trans [OF code_system_step_inv [OF step.hyps(2)] step.IH])
  qed simp
  also have "\<dots> \<le> 1"
    by (simp add: system_init_def how_many_0 holder_def of_bool_def)
  finally show ?thesis
    by simp
qed

end

end
