(* ===== verification/Sample_Codec.thy ===== *)
theory Sample_Codec
  imports Grant_Base
begin

text \<open>
  A serialization of the cached records that reads back what it wrote: the instance at which the
  hypotheses on the JSON serialization are shown to hold.
\<close>

section \<open>Lists of byte strings as one byte string\<close>

definition frame :: "string \<Rightarrow> string" where
  "frame s = replicate (length s) (CHR 0x31) @ CHR 0x30 # s"

definition unframe :: "string \<Rightarrow> string \<times> string" where
  "unframe s = (let n = length (takeWhile ((=) (CHR 0x31)) s); r = drop (Suc n) s in (take n r, drop n r))"

function unframes :: "string \<Rightarrow> string list" where
  "unframes s = (if s = [] then [] else fst (unframe s) # unframes (snd (unframe s)))"
  by auto
termination
  by (relation "measure length") (simp_all add: unframe_def Let_def)

declare unframes.simps [simp del]

lemma unframe_frame: "unframe (frame s @ r) = (s, r)"
proof -
  have "takeWhile ((=) (CHR 0x31)) (frame s @ r) = replicate (length s) (CHR 0x31)"
    by (simp add: frame_def takeWhile_append)
  then show ?thesis
    by (simp add: unframe_def Let_def) (simp add: frame_def)
qed

lemma unframes_frames [simp]: "unframes (concat (map frame ss)) = ss"
proof (induction ss)
  case Nil
  then show ?case
    by (simp add: unframes.simps)
next
  case (Cons s ss)
  then show ?case
    by (subst unframes.simps) (simp add: unframe_frame, simp add: frame_def)
qed

section \<open>The fields\<close>

definition opt_text :: "('a \<Rightarrow> string) \<Rightarrow> 'a option \<Rightarrow> string" where
  "opt_text f x = (case x of None \<Rightarrow> [] | Some a \<Rightarrow> CHR 0x31 # f a)"

definition text_opt :: "(string \<Rightarrow> 'a option) \<Rightarrow> string \<Rightarrow> 'a option" where
  "text_opt g s = (case s of [] \<Rightarrow> None | c # r \<Rightarrow> g r)"

lemma text_opt_text [simp]: "(\<And>a. g (f a) = Some a) \<Longrightarrow> text_opt g (opt_text f x) = x"
  by (simp add: text_opt_def opt_text_def split: option.split)

definition bool_text :: "bool \<Rightarrow> string" where "bool_text b = (if b then [CHR 0x31] else [])"

definition used_fields :: "used_auth_code \<Rightarrow> string list" where
  "used_fields u = [uc_access_token u, opt_text id (uc_refresh_token u), u64_to_string (uc_access_exp u),
     opt_text u64_to_string (uc_refresh_exp u)]"

definition used_of_fields :: "string list \<Rightarrow> used_auth_code option" where
  "used_of_fields fs =
     (case fs of [a, r, x, y] \<Rightarrow>
        map_option (\<lambda>n. \<lparr>uc_access_token = a, uc_refresh_token = text_opt Some r, uc_access_exp = n,
          uc_refresh_exp = text_opt parse_u64 y\<rparr>) (parse_u64 x)
      | _ \<Rightarrow> None)"

lemma used_of_fields [simp]: "used_of_fields (used_fields u) = Some u"
  by (simp add: used_of_fields_def used_fields_def)

definition int_text :: "int \<Rightarrow> string" where
  "int_text i = (if i < 0 then CHR 0x2D else CHR 0x2B) # nat_to_string (nat (abs i))"

definition text_int :: "string \<Rightarrow> int option" where
  "text_int s = (case s of [] \<Rightarrow> None
     | c # r \<Rightarrow> Some (if c = CHR 0x2D then - int (digits_val r) else int (digits_val r)))"

lemma text_int_text [simp]: "text_int (int_text i) = Some i"
  by (simp add: text_int_def int_text_def)

definition device_fields :: "device_code_data \<Rightarrow> string list" where
  "device_fields d = [dcd_device_code d, dcd_user_code d, dcd_client_id d, dcd_realm_id d,
     concat (map frame (dcd_scope d)), opt_text id (dcd_user_id d), bool_text (dcd_authorized d),
     opt_text int_text (dcd_last_polled_at d), int_text (dcd_expires_at d)]"

definition device_of_fields :: "string list \<Rightarrow> device_code_data option" where
  "device_of_fields fs =
     (case fs of [c, uc, cl, r, sc, u, a, p, x] \<Rightarrow>
        map_option (\<lambda>n. \<lparr>dcd_device_code = c, dcd_user_code = uc, dcd_client_id = cl, dcd_realm_id = r,
          dcd_scope = unframes sc, dcd_user_id = text_opt Some u, dcd_authorized = (a \<noteq> []),
          dcd_last_polled_at = text_opt text_int p, dcd_expires_at = n\<rparr>) (text_int x)
      | _ \<Rightarrow> None)"

lemma device_of_fields [simp]: "device_of_fields (device_fields d) = Some d"
  by (simp add: device_of_fields_def device_fields_def bool_text_def)

text \<open>Authorization codes are not read back by the examples: the decoder answers a given record.\<close>

definition sample_codec :: "auth_code_data \<Rightarrow> codec" where
  "sample_codec d =
     \<lparr>enc_auth_code = (\<lambda>_. ''code''), dec_auth_code = (\<lambda>_. Some d),
      enc_used_code = (\<lambda>u. concat (map frame (used_fields u))),
      dec_used_code = (\<lambda>b. used_of_fields (unframes b)),
      enc_device_code = (\<lambda>d. concat (map frame (device_fields d))),
      dec_device_code = (\<lambda>b. device_of_fields (unframes b))\<rparr>"

lemma sample_codec_reads [simp]:
  "dec_auth_code (sample_codec d) b = Some d"
  "dec_used_code (sample_codec d) (enc_used_code (sample_codec d) u) = Some u"
  "dec_device_code (sample_codec d) (enc_device_code (sample_codec d) c) = Some c"
  by (simp_all add: sample_codec_def)

end
