(* ===== verification/Code_Flow.thy ===== *)
theory Code_Flow
  imports Code_Grant Sample_Codec
begin

text \<open>
  The authorization-code flow end to end: the login state an authorization request leaves
  (\<^verbatim>\<open>PendingAuthData\<close>), the code data built from it (\<^verbatim>\<open>AuthCodeData::from_pending\<close>), and what a
  successful redemption implies about both.
\<close>

section \<open>From the authorization request to the code\<close>

record pending_auth_data =
  pa_realm_id :: string
  pa_client_id :: string
  pa_redirect_uri :: string
  pa_scope :: "string list"
  pa_state :: "string option"
  pa_nonce :: "string option"
  pa_response_type :: string
  pa_code_challenge :: "string option"
  pa_code_challenge_method :: "pkce_method option"
  pa_ip_address :: "string option"
  pa_execution_id :: string
  pa_acr_values :: "string list"
  pa_claims :: "json option"
  pa_typestate_tag :: string
  pa_attempt_count :: "8 word"
  pa_remember_me :: bool
  pa_user_id :: "string option"
  pa_prompt_consent :: bool
  pa_locale :: "string option"
  pa_response_mode :: "response_mode option"
  pa_authorization_details :: "json list option"
  pa_resource :: "string option"

text \<open>The state of a flow that authenticated at once (the paused flows differ in the stage, the
  tag and the user).\<close>

definition pending_of_request ::
    "string \<Rightarrow> authorization_request \<Rightarrow> string \<Rightarrow> bool \<Rightarrow> string \<Rightarrow> bool \<Rightarrow> string \<Rightarrow> pending_auth_data" where
  "pending_of_request realm_id r ip remember user_id prompt_consent locale =
     \<lparr>pa_realm_id = realm_id, pa_client_id = ar_client_id r,
      pa_redirect_uri = url_str (ar_redirect_uri r), pa_scope = tokens (ar_scope r),
      pa_state = ar_state r, pa_nonce = ar_nonce r,
      pa_response_type = response_type_as_str (ar_response_type r),
      pa_code_challenge = ar_code_challenge r,
      pa_code_challenge_method = ar_code_challenge_method r, pa_ip_address = Some ip,
      pa_execution_id = ''consent'', pa_acr_values = ar_acr_values r, pa_claims = ar_claims r,
      pa_typestate_tag = ''challenged'', pa_attempt_count = 0, pa_remember_me = remember,
      pa_user_id = Some user_id, pa_prompt_consent = prompt_consent, pa_locale = Some locale,
      pa_response_mode = ar_response_mode r,
      pa_authorization_details = ar_authorization_details r, pa_resource = ar_resource r\<rparr>"

definition from_pending :: "pending_auth_data \<Rightarrow> string \<Rightarrow> string \<Rightarrow> timestamp \<Rightarrow> auth_code_data" where
  "from_pending p user_id session_id auth_time =
     \<lparr>ac_realm_id = pa_realm_id p, ac_user_id = user_id, ac_client_id = pa_client_id p,
      ac_redirect_uri = pa_redirect_uri p, ac_scope = pa_scope p, ac_state = pa_state p,
      ac_nonce = pa_nonce p, ac_code_challenge = pa_code_challenge p,
      ac_code_challenge_method = pa_code_challenge_method p, ac_session_id = Some session_id,
      ac_auth_time = Some auth_time, ac_acr_values = pa_acr_values p, ac_claims = pa_claims p,
      ac_authorization_details = pa_authorization_details p, ac_resource = pa_resource p\<rparr>"

section \<open>What a redemption checks\<close>

lemma verify_pkce_iff:
  "verify_pkce D v c pm \<longleftrightarrow>
     43 \<le> length v \<and> length v \<le> 128 \<and> pm = Some S256 \<and> s256_challenge D v = c"
  using pkce_verify_Inr_iff [of D v c pm] by (auto simp: verify_pkce_def is_ok_iff)

lemma narrow_details_Inr:
  "narrow_details msg requested granted = Inr ds \<Longrightarrow>
     (case ds of Some es \<Rightarrow> set es | None \<Rightarrow> {}) \<subseteq> (case granted of Some gs \<Rightarrow> set gs | None \<Rightarrow> {})"
  by (cases granted) (auto simp: narrow_details_def split: option.splits if_splits)

lemma check_code_grant_Inr:
  assumes "check_code_grant E ctx d = Inr g"
  shows "ac_realm_id d = rlm_id (tc_realm ctx)" and "ac_client_id d = cli_client_id (tc_client ctx)"
    and "\<And>u. tr_redirect_uri (tc_req ctx) = Some u \<Longrightarrow> url_str u = ac_redirect_uri d"
    and "code_resource (tc_req ctx) d = Inr (cg_resource g)"
    and "cg_resource g \<noteq> None \<Longrightarrow> ac_code_challenge d \<noteq> None \<and> ge_mcp_enabled E
      \<and> cg_resource g = Some (ge_mcp_resource E (rlm_name (tc_realm ctx)))
      \<and> mcp_redirect_valid (ge_url E) (tc_client ctx) (ac_redirect_uri d)"
    and "\<And>c. ac_code_challenge d = Some c \<Longrightarrow> \<exists>v. tr_code_verifier (tc_req ctx) = Some v
      \<and> ac_code_challenge_method d = Some S256 \<and> s256_challenge (ge_digest E) v = c
      \<and> 43 \<le> length v \<and> length v \<le> 128"
    and "ge_get_user E (rlm_id (tc_realm ctx)) (ac_user_id d) = Inr (Some (cg_user g))"
    and "usr_enabled (cg_user g)" and "MCP_SCOPE_STEP_UP \<notin> set (ac_scope d)"
    and "narrow_details ''requested authorization_details exceed the details granted with the code''
      (tr_authorization_details (tc_req ctx)) (ac_authorization_details d) = Inr (cg_details g)"
proof -
  note g = assms [unfolded check_code_grant_def Let_def]
  show "ac_realm_id d = rlm_id (tc_realm ctx)" "ac_client_id d = cli_client_id (tc_client ctx)"
    "\<And>u. tr_redirect_uri (tc_req ctx) = Some u \<Longrightarrow> url_str u = ac_redirect_uri d"
    using g by (simp_all split: if_splits option.splits)
  from g obtain resource where r: "code_resource (tc_req ctx) d = Inr resource"
    by (cases "code_resource (tc_req ctx) d") (simp_all split: if_splits)
  note h = g [unfolded r]
  show "code_resource (tc_req ctx) d = Inr (cg_resource g)"
    using h r by (auto simp: id_new_def split: if_splits sum.splits option.splits)
  show "cg_resource g \<noteq> None \<Longrightarrow> ac_code_challenge d \<noteq> None \<and> ge_mcp_enabled E
      \<and> cg_resource g = Some (ge_mcp_resource E (rlm_name (tc_realm ctx)))
      \<and> mcp_redirect_valid (ge_url E) (tc_client ctx) (ac_redirect_uri d)"
    using h by (auto simp: id_new_def validate_resource_param_def split: if_splits sum.splits option.splits)
  show "\<exists>v. tr_code_verifier (tc_req ctx) = Some v \<and> ac_code_challenge_method d = Some S256
      \<and> s256_challenge (ge_digest E) v = c \<and> 43 \<le> length v \<and> length v \<le> 128"
    if "ac_code_challenge d = Some c" for c
    using h that by (auto simp: verify_pkce_iff split: if_splits option.splits)
  show "ge_get_user E (rlm_id (tc_realm ctx)) (ac_user_id d) = Inr (Some (cg_user g))"
    "usr_enabled (cg_user g)" "MCP_SCOPE_STEP_UP \<notin> set (ac_scope d)"
    using h by (auto simp: id_new_def split: if_splits sum.splits option.splits)
  show "narrow_details ''requested authorization_details exceed the details granted with the code''
      (tr_authorization_details (tc_req ctx)) (ac_authorization_details d) = Inr (cg_details g)"
    using h by (auto simp: id_new_def split: if_splits sum.splits option.splits)
qed

lemma issue_code_tokens_Inr:
  "issue_code_tokens E ctx now code d g sid = Inr t \<Longrightarrow>
     ct_user t = cg_user g \<and> tp_scope (ct_response t) = Some (join '' '' (ac_scope d))
     \<and> tp_authorization_details (ct_response t) = cg_details g
     \<and> tp_token_type (ct_response t) = token_type (tc_dpop_jkt ctx \<noteq> None)"
  by (auto simp: issue_code_tokens_def Let_def split: sum.splits)

lemma redeem_code_Inr:
  assumes "redeem_code E ctx now code d st = (Inr t, st')"
  obtains g sid where "check_code_grant E ctx d = Inr g" and "issue_code_tokens E ctx now code d g sid = Inr t"
  using assms by (auto simp: redeem_code_def Let_def split: sum.splits prod.splits if_splits)

section \<open>An example\<close>

definition example_user :: user where
  "example_user =
     \<lparr>usr_id = ''u-1'', usr_realm_id = ''r-1'', usr_username = ''alice'', usr_email = None,
      usr_email_verified = False, usr_first_name = None, usr_last_name = None, usr_enabled = True,
      usr_federation_link = None, usr_attributes = Map.empty, usr_required_actions = [],
      usr_created_at = 0, usr_updated_at = 0\<rparr>"

definition example_verifier :: string where
  "example_verifier = ''dBjftJeZ4CVP-mB92K27uhbUJU1p1r_wW1gFWFOEjXk''"

definition example_env :: "codec \<Rightarrow> grant_env" where
  "example_env K =
     \<lparr>ge_url = example_url_lib,
      ge_digest = \<lparr>dl_sha256 = id, dl_base64url = (\<lambda>b. if b = example_verifier then example_challenge else [])\<rparr>,
      ge_codec = K, ge_get_realm = (\<lambda>_. Inr None),
      ge_get_user = (\<lambda>_ u. Inr (if u = ''u-1'' then Some example_user else None)),
      ge_get_client = (\<lambda>_ c. Inr (if c = ''app'' then Some (example_client True [loopback_cb '':8080'']) else None)),
      ge_claims_overlay = (\<lambda>_ _ _ _. Inr Map.empty), ge_id_claims = (\<lambda>_ _ _ _. None),
      ge_access_token = (\<lambda>j _ _ _ _ _ _ _ _. Inr (''at-'' @ j)),
      ge_refresh_token = (\<lambda>j _ _ _ _ _ _ _ _ _ _. Inr (''rt-'' @ j)),
      ge_id_token = (\<lambda>j _ _ _ _ _ _ _ _ _ _ _. Inr (''id-'' @ j)),
      ge_mcp_enabled = True, ge_mcp_resource = (\<lambda>_. ''https://mcp.test/api'')\<rparr>"

definition example_token_request :: token_request where
  "example_token_request =
     \<lparr>tr_grant_type = AuthorizationCodeGrant, tr_code = Some ''code-1'', tr_redirect_uri = None,
      tr_client_id = Some ''app'', tr_client_secret = None, tr_code_verifier = Some example_verifier,
      tr_refresh_token = Some ''rt-1'', tr_scope = scope_empty, tr_username = None, tr_password = None,
      tr_totp = None, tr_assertion = None, tr_assertion_type = None, tr_device_code = Some ''d-1'',
      tr_auth_req_id = None, tr_subject_token = None, tr_subject_token_type = None,
      tr_requested_token_type = None, tr_audience = None, tr_requested_subject = None,
      tr_actor_token = None, tr_authorization_details = None, tr_resource = None\<rparr>"

definition example_ctx :: "string \<Rightarrow> token_ctx" where
  "example_ctx seed =
     \<lparr>tc_realm = example_realm, tc_client = example_client True [loopback_cb '':8080''],
      tc_req = example_token_request, tc_dpop_jkt = None, tc_ip = ''10.0.0.1'',
      tc_ids = (\<lambda>i. seed @ nat_to_string i)\<rparr>"

definition example_code_data :: auth_code_data where
  "example_code_data =
     from_pending (pending_of_request (rlm_id example_realm) example_request ''10.0.0.1'' False ''u-1'' False ''en'')
       ''u-1'' ''s-1'' 0"

definition example_codec :: codec where
  "example_codec = sample_codec example_code_data"

definition example_server :: "nat in_memory_cache server" where
  "example_server = \<lparr>sv_cache = cache_new 0, sv_sessions = Map.empty, sv_events = []\<rparr>"

lemma example_check: "is_ok (check_code_grant (example_env example_codec) (example_ctx s) example_code_data)"
  by code_simp

text \<open>An issuer that always issues completes every redemption that passes the checks.\<close>

lemma redeem_code_completes:
  assumes "check_code_grant E ctx d = Inr g"
    and "\<And>j t u c r sc sid cl ov. ge_access_token E j t u c r sc sid cl ov = Inr (f j)"
    and "sv_sessions st = Map.empty"
  shows "\<exists>t st'. redeem_code E ctx now code d st = (Inr t, st')"
  using assms
  by (simp add: redeem_code_def Let_def attach_code_session_def issue_code_tokens_def persist_session_def
      create_user_session_def get_user_session_def)

lemma example_redeems:
  assumes "sv_sessions st = Map.empty"
  shows "\<exists>t st'. redeem_code (example_env example_codec) (example_ctx sd) now code example_code_data st
    = (Inr t, st')"
proof -
  obtain g where "check_code_grant (example_env example_codec) (example_ctx sd) example_code_data = Inr g"
    using example_check [of sd] by (auto simp: is_ok_iff)
  then show ?thesis
    by (rule redeem_code_completes [where f = "\<lambda>j. ''at-'' @ j"]) (simp_all add: example_env_def assms)
qed

lemma example_sessions [simp]: "sv_sessions example_server = Map.empty"
  by (simp add: example_server_def)

lemmas example_redeemed = example_redeems [OF example_sessions]

context distributed_cache
begin

text \<open>The steps of a redemption that succeeds.\<close>

lemma code_steps_succeed:
  assumes "view t1 (sv_cache st) (code_key_of ctx) = Some (b, x)" and "dec_auth_code (ge_codec E) b = Some d"
    and "redeem_code E ctx t2 (req_code ctx) d (snd (code_step C E ctx t1 CodeStart st)) = (Inr tk, st2)"
  shows "fst (code_step C E ctx t1 CodeStart st) = CodeTaken d"
    and "code_step C E ctx t2 (CodeTaken d) (snd (code_step C E ctx t1 CodeStart st)) = (CodeIssued tk, st2)"
    and "fst (code_step C E ctx t3 (CodeIssued tk) st2) = CodeDone (Tokens (ct_response tk))"
  using assms by (simp_all add: code_step_def Let_def code_key_of_def on_caches)

lemma code_system_succeeds:
  assumes "view 1 (sv_cache st) (code_key_of (ctxs 0)) = Some (b, x)" and "dec_auth_code (ge_codec E) b = Some d"
    and "\<And>st1 :: 's server. sv_sessions st1 = sv_sessions st \<Longrightarrow>
      \<exists>tk st2. redeem_code E (ctxs 0) 2 (req_code (ctxs 0)) d st1 = (Inr tk, st2)"
    and "0 < n"
  shows "\<exists>\<sigma> a. (code_system_step C E ctxs k n)\<^sup>*\<^sup>* (system_init CodeStart st 0) \<sigma>
    \<and> sys_pcs \<sigma> 0 = CodeDone (Tokens a)"
proof -
  let ?pcs = "\<lambda>_ :: nat. CodeStart"
  let ?st1 = "snd (code_step C E (ctxs 0) 1 CodeStart st)"
  have "sv_sessions ?st1 = sv_sessions st"
    using assms(1,2) by (simp add: code_step_def Let_def code_key_of_def on_caches)
  then obtain tk st2 where r: "redeem_code E (ctxs 0) 2 (req_code (ctxs 0)) d ?st1 = (Inr tk, st2)"
    using assms(3) by blast
  note run = code_steps_succeed [OF assms(1,2) r]
  let ?st3 = "snd (code_step C E (ctxs 0) 3 (CodeIssued tk) st2)"
  let ?s1 = "\<lparr>sys_state = ?st1, sys_now = 1, sys_pcs = ?pcs(0 := CodeTaken d)\<rparr>"
  let ?s2 = "\<lparr>sys_state = st2, sys_now = 2, sys_pcs = ?pcs(0 := CodeTaken d, 0 := CodeIssued tk)\<rparr>"
  let ?s3 = "\<lparr>sys_state = ?st3, sys_now = 3,
    sys_pcs = ?pcs(0 := CodeTaken d, 0 := CodeIssued tk, 0 := CodeDone (Tokens (ct_response tk)))\<rparr>"
  note req = system_step.request [where act = "\<lambda>i. code_step C E (ctxs i)" and i = 0 and n = n
      and env = "server_spares C {k}", OF assms(4), folded code_system_step_def]
  have "code_system_step C E ctxs k n (system_init CodeStart st 0) ?s1"
    using req [of "system_init CodeStart st 0" 1 "CodeTaken d" ?st1] run(1)
    by (simp add: system_init_def prod_eq_iff)
  moreover have "code_system_step C E ctxs k n ?s1 ?s2"
    using req [of ?s1 2 "CodeIssued tk" st2] run(2) by simp
  moreover have "code_system_step C E ctxs k n ?s2 ?s3"
    using req [of ?s2 3 "CodeDone (Tokens (ct_response tk))" ?st3] run(3) by (simp add: prod_eq_iff)
  ultimately have "(code_system_step C E ctxs k n)\<^sup>*\<^sup>* (system_init CodeStart st 0) ?s3"
    by (meson rtranclp.rtrancl_refl rtranclp.rtrancl_into_rtrancl)
  then show ?thesis
    by (intro exI [of _ ?s3] exI [of _ "ct_response tk"]) simp
qed

end

section \<open>Properties\<close>



text \<open>(C1) Proof key end to end: when a public client (or an MCP resource request) is sent a code
  for an accepted authorization request, the code can only be redeemed with a verifier whose
  SHA-256 hash is the challenge of that request, by that client, in that realm and for that
  redirect target.\<close>

theorem pkce_end_to_end:
  assumes "authorization_parse U J params = Inr r"
    and "validate_with_mcp U J r realm client mcp = Inr ()"
    and "has_code (ar_response_type r)"
    and "cli_public_client client \<or> mcp \<and> params ''resource'' \<noteq> None"
    and "d = from_pending (pending_of_request realm_id r ip rem uid consent loc) uid sid auth_time"
    and "redeem_code E ctx now code d st = (Inr t, st')"
  shows "\<exists>c v. params ''code_challenge'' = Some c \<and> tr_code_verifier (tc_req ctx) = Some v
    \<and> s256_challenge (ge_digest E) v = c \<and> 43 \<le> length v \<and> length v \<le> 128
    \<and> cli_client_id (tc_client ctx) = ar_client_id r \<and> rlm_id (tc_realm ctx) = realm_id
    \<and> (\<forall>u. tr_redirect_uri (tc_req ctx) = Some u \<longrightarrow> url_str u = url_str (ar_redirect_uri r))"
proof -
  from assms(6) obtain g s where g: "check_code_grant E ctx d = Inr g"
    and "issue_code_tokens E ctx now code d g s = Inr t"
    by (rule redeem_code_Inr)
  note check = check_code_grant_Inr [OF g]
  from accepted_challenge [OF assms(1-4)] obtain c
    where c: "params ''code_challenge'' = Some c" "ar_code_challenge r = Some c"
    by (elim exE conjE)
  have d: "ac_code_challenge d = ar_code_challenge r" "ac_client_id d = ar_client_id r"
      "ac_realm_id d = realm_id" "ac_redirect_uri d = url_str (ar_redirect_uri r)"
    unfolding assms(5) from_pending_def pending_of_request_def by simp_all
  have "ac_code_challenge d = Some c"
    using c(2) d(1) by simp
  from check(6) [OF this] obtain v where v: "tr_code_verifier (tc_req ctx) = Some v"
      "s256_challenge (ge_digest E) v = c" "43 \<le> length v" "length v \<le> 128"
    by (elim exE conjE)
  have who: "cli_client_id (tc_client ctx) = ar_client_id r" "rlm_id (tc_realm ctx) = realm_id"
    using check(1,2) d(2,3) by simp_all
  have "url_str u = url_str (ar_redirect_uri r)" if "tr_redirect_uri (tc_req ctx) = Some u" for u
    using check(3) [OF that] d(4) by (rule trans)
  then show ?thesis
    by (intro exI [of _ c] exI [of _ v] conjI allI impI c(1) v who)
qed

theorem pkce_end_to_end_witness:
  "\<exists>t st'. redeem_code (example_env example_codec) (example_ctx ''x'') 0 ''code-1'' example_code_data
       example_server = (Inr t, st')
     \<and> (\<exists>c v. example_params ''code_challenge'' = Some c
          \<and> tr_code_verifier (tc_req (example_ctx ''x'')) = Some v
          \<and> s256_challenge (ge_digest (example_env example_codec)) v = c)"
proof -
  obtain t st' where run: "redeem_code (example_env example_codec) (example_ctx ''x'') 0 ''code-1''
      example_code_data example_server = (Inr t, st')"
    using example_redeemed by blast
  have code: "has_code (ar_response_type example_request)"
    and public: "cli_public_client (example_client True [loopback_cb '':8080''])"
    by code_simp+
  from pkce_end_to_end [OF example_request_parsed example_request_accepted code disjI1 [OF public]
      example_code_data_def run]
  obtain c v where "example_params ''code_challenge'' = Some c"
      "tr_code_verifier (tc_req (example_ctx ''x'')) = Some v"
      "s256_challenge (ge_digest (example_env example_codec)) v = c"
    by (elim exE conjE)
  then show ?thesis
    using run by (intro exI conjI)
qed

text \<open>(C2) However any number of redemptions of authorization codes and the rest of the server
  interleave, at most one redemption of a code is answered with tokens: the code is taken in one
  atomic step and nothing else puts it back.\<close>

theorem code_redeemed_at_most_once:
  assumes "(code_system_step in_memory E ctxs (auth_code_cache_key realm code) n)\<^sup>*\<^sup>*
      (system_init CodeStart st t0) \<sigma>"
    and "i < n" and "j < n" and "code_key_of (ctxs i) = auth_code_cache_key realm code"
    and "code_key_of (ctxs j) = auth_code_cache_key realm code"
    and "sys_pcs \<sigma> i = CodeDone (Tokens a)" and "sys_pcs \<sigma> j = CodeDone (Tokens b)"
  shows "i = j"
  using mem.code_redeemed_once [OF assms(1)] assms(2,3)
  by (rule how_many_le_1) (simp_all add: holder_def assms)

theorem code_redeemed_at_most_once_witness:
  "\<exists>(\<sigma> :: (code_pc, nat in_memory_cache server) system) a. sys_pcs \<sigma> 0 = CodeDone (Tokens a)
     \<and> (\<forall>j. j < 2 \<longrightarrow> (\<forall>b. sys_pcs \<sigma> j = CodeDone (Tokens b) \<longrightarrow> (0 :: nat) = j))"
proof -
  let ?E = "example_env example_codec" and ?ctxs = "\<lambda>_ :: nat. example_ctx ''x''"
  let ?k = "code_key_of (example_ctx ''x'')"
  let ?st = "example_server\<lparr>sv_cache := snd (dc_set in_memory 0 ?k ''code'' None (cache_new 0))\<rparr>"
  have view: "mem_view 1 (sv_cache ?st) ?k = Some (''code'', None)"
    unfolding server.simps using mem.set_view [of 0 1 ?k "''code''" None "cache_new 0 :: nat in_memory_cache"]
    by (simp add: put_def live_def expiry_def)
  have dec: "dec_auth_code (ge_codec ?E) ''code'' = Some example_code_data"
    by (simp add: example_env_def example_codec_def)
  have redeem: "\<exists>tk st2. redeem_code ?E (?ctxs 0) 2 (req_code (?ctxs 0)) example_code_data st1 = (Inr tk, st2)"
    if "sv_sessions st1 = sv_sessions ?st" for st1 :: "nat in_memory_cache server"
    using that by (intro example_redeems) simp
  obtain \<sigma> a where run: "(code_system_step in_memory ?E ?ctxs ?k 2)\<^sup>*\<^sup>* (system_init CodeStart ?st 0) \<sigma>"
    and won: "sys_pcs \<sigma> 0 = CodeDone (Tokens a)"
    using mem.code_system_succeeds [of ?st ?ctxs "''code''" None ?E, OF view dec redeem, of 2 ?k] by auto
  have "0 = j" if "j < 2" "sys_pcs \<sigma> j = CodeDone (Tokens b)" for j b
    using run [unfolded code_key_of_def] that(1) _ _ won that(2)
    by (intro code_redeemed_at_most_once [where i = 0 and j = j and n = 2])
      (simp_all add: code_key_of_def)
  with won show ?thesis
    by blast
qed

end
