(* ===== verification/Code_Reuse.thy ===== *)
theory Code_Reuse
  imports Code_Flow
begin

text \<open>
  The reuse of an authorization code: a second presentation of a code that was redeemed gets an
  error and revokes the tokens of the first until they expire.
\<close>

abbreviation code_run ::
    "'s dist_cache \<Rightarrow> grant_env \<Rightarrow> token_ctx \<Rightarrow> nat list \<Rightarrow> code_pc \<Rightarrow> 's server \<Rightarrow> code_pc \<times> 's server" where
  "code_run C E ctx \<equiv> run_alone (code_step C E ctx)"

definition refresh_lifespan_of :: "realm \<Rightarrow> auth_code_data \<Rightarrow> u64" where
  "refresh_lifespan_of realm d =
     (if OFFLINE_ACCESS_SCOPE \<in> set (ac_scope d) then rlm_offline_session_idle_timeout realm
      else rlm_refresh_token_lifespan realm)"

lemma secs_div: "t div NANOS_PER_SEC * NANOS_PER_SEC \<le> t" "t < from_secs n \<Longrightarrow> t div NANOS_PER_SEC < n"
  by (simp_all add: from_secs_def NANOS_PER_SEC_def less_mult_imp_div_less)

text \<open>A marker with the remaining lifetime, rounded down to seconds at \<open>t\<close>, lives until the expiry.\<close>

lemma remaining_covers:
  assumes "t \<le> v" and "v \<le> u" and "u < from_secs (unat x)"
  shows "0 < saturating_sub x (now_secs t) \<and> u < v + secs (saturating_sub x (now_secs t))"
proof -
  let ?n = "t div NANOS_PER_SEC"
  have n: "?n < unat x"
    using assms by (intro secs_div(2)) simp
  moreover have "unat x < 2 ^ LENGTH(64)"
    by (rule unsigned_less)
  ultimately have "?n < 2 ^ 64"
    by simp
  then have now: "unat (now_secs t) = ?n"
    by (simp add: now_secs_def unat_of_nat_u64)
  then have sub: "unat (saturating_sub x (now_secs t)) = unat x - ?n"
    by (simp add: unat_saturating_sub)
  have "from_secs (unat x) = from_secs (unat x - ?n) + ?n * NANOS_PER_SEC"
    using n by (simp add: from_secs_def diff_mult_distrib)
  also have "\<dots> \<le> from_secs (unat x - ?n) + t"
    using secs_div(1) [of t] by simp
  finally have "u < v + from_secs (unat x - ?n)"
    using assms by simp
  moreover have "0 < saturating_sub x (now_secs t)"
    using sub n by (simp add: word_less_nat_alt)
  ultimately show ?thesis
    by (simp add: secs_def sub)
qed

lemma refusal_not_tokens [simp]: "error_reply n e \<noteq> Tokens a" "invalid_grant \<noteq> Tokens a"
  by (simp_all add: error_reply_def invalid_grant_def)

lemma check_code_grant_refuses [simp]: "check_code_grant E ctx d \<noteq> Inl (Tokens a, b)"
  by (simp add: check_code_grant_def Let_def split: sum.split option.split)

lemma issue_code_tokens_refuses [simp]: "issue_code_tokens E ctx now code d g sid \<noteq> Inl (Tokens a)"
  by (simp add: issue_code_tokens_def Let_def split: sum.split)

lemma persist_session_refuses: "persist_session r s b st \<noteq> (Inl (Tokens a), st')"
  by (simp add: persist_session_def split: prod.split sum.split)

lemma apfst_map_sum_Inl: "apfst (map_sum id f) p = (Inl r, s) \<longleftrightarrow> p = (Inl r, s)"
  by (cases p; cases "fst p") auto

lemma attach_code_session_refuses: "attach_code_session ctx now sid d g st \<noteq> (Inl (Tokens a), st')"
  by (simp add: attach_code_session_def Let_def apfst_map_sum_Inl persist_session_refuses split: option.split)

lemma redeem_code_refuses: "redeem_code E ctx now code d st = (Inl r, st') \<Longrightarrow> r \<noteq> Tokens a"
  by (auto simp: redeem_code_def Let_def attach_code_session_refuses persist_session_refuses
      split: sum.splits prod.splits if_splits)

lemma code_start_sessions: "sv_sessions (snd (code_step C E ctx now CodeStart st)) = sv_sessions st"
  by (simp add: code_step_def Let_def on_cache_eq split: sum.split option.split)

lemma code_step_taken:
  "code_step C E ctx now (CodeTaken d) st =
     (case redeem_code E ctx now (req_code ctx) d st of
        (Inl r, st') \<Rightarrow> (CodeDone r, st') | (Inr t, st') \<Rightarrow> (CodeIssued t, st'))"
  "code_step C E ctx now (CodeDone r) st = (CodeDone r, st)"
  by (simp_all add: code_step_def Let_def)

context distributed_cache
begin

lemma mark_revoked_live:
  assumes "t \<le> v" and "v \<le> u" and "u < from_secs (unat x)"
  shows "view u (sv_cache (snd (mark_revoked C v key (saturating_sub x (now_secs t)) st))) key \<noteq> None"
  using remaining_covers [OF assms] assms(2)
  by (simp add: mark_revoked_run set_view put_def live_def expiry_def)

lemma mark_revoked_other:
  "t \<le> u \<Longrightarrow> k \<noteq> key \<Longrightarrow> view u (sv_cache (snd (mark_revoked C t key ttl st))) k = view u (sv_cache st) k"
  by (simp add: mark_revoked_run set_view put_def)

text \<open>A code that is not stored is refused, used before or not.\<close>

lemma missing_code_refused:
  assumes "view t1 (sv_cache st) (code_key_of ctx) = None"
  shows "fst (code_run C E ctx [t1, t2, t3, t4] CodeStart st) = CodeDone invalid_grant"
proof -
  have 1: "fst (code_step C E ctx t1 CodeStart st) = CodeMissing"
    using assms by (simp add: code_step_def Let_def on_caches code_key_of_def)
  have 2: "fst (code_step C E ctx t2 CodeMissing s) = CodeDone invalid_grant
      \<or> (\<exists>u. fst (code_step C E ctx t2 CodeMissing s) = CodeRevoke u)" for s
    by (simp add: code_step_def Let_def on_caches split: option.split)
  have 3: "fst (code_step C E ctx t3 (CodeRevoke u) s) = CodeRevokeRefresh u (now_secs t3)" for u s
    by (simp add: code_step_def Let_def mark_revoked_run)
  have 4: "fst (code_step C E ctx t4 (CodeRevokeRefresh u n) s) = CodeDone invalid_grant" for u n s
    by (simp add: code_step_def Let_def mark_revoked_run split: option.split)
  show ?thesis
    using 2 [of "snd (code_step C E ctx t1 CodeStart st)"]
    by (auto simp: case_prod_beta 1 3 4 code_step_taken)
qed

lemma reused_code_steps:
  assumes t: "t1 \<le> t2" "t2 \<le> t3" "t3 \<le> t4"
    and gone: "view t1 (sv_cache st) (code_key_of ctx) = None"
    and used: "view t2 (sv_cache st) (used_auth_code_key (req_code ctx)) = Some (b, x)"
      "dec_used_code (ge_codec E) b = Some u"
  shows "t4 \<le> v \<Longrightarrow> v < from_secs (unat (uc_access_exp u)) \<Longrightarrow>
      view v (sv_cache (snd (code_run C E ctx [t1, t2, t3, t4] CodeStart st))) (revoked_key (uc_access_token u)) \<noteq> None"
    and "t4 \<le> v \<Longrightarrow> uc_refresh_token u = Some rt \<Longrightarrow> uc_refresh_exp u = Some re \<Longrightarrow> v < from_secs (unat re) \<Longrightarrow>
      view v (sv_cache (snd (code_run C E ctx [t1, t2, t3, t4] CodeStart st))) (revoked_refresh_key rt) \<noteq> None"
proof -
  define st1 where "st1 = st\<lparr>sv_cache := snd (dc_get_and_delete C t1 (code_key_of ctx) (sv_cache st))\<rparr>"
  define st2 where "st2 = st1\<lparr>sv_cache := snd (dc_get C t2 (used_auth_code_key (req_code ctx)) (sv_cache st1))\<rparr>"
  define st3 where "st3 = snd (mark_revoked C t3 (revoked_key (uc_access_token u))
    (saturating_sub (uc_access_exp u) (now_secs t3)) st2)"
  have s1: "code_step C E ctx t1 CodeStart st = (CodeMissing, st1)"
    using gone by (simp add: code_step_def Let_def on_caches st1_def code_key_of_def)
  have "view t2 (sv_cache st1) (used_auth_code_key (req_code ctx)) = Some (b, x)"
    using t used(1) by (simp add: st1_def get_and_delete_view code_key_of_def)
  then have s2: "code_step C E ctx t2 CodeMissing st1 = (CodeRevoke u, st2)"
    using used(2) by (simp add: code_step_def Let_def on_caches st2_def)
  have s3: "code_step C E ctx t3 (CodeRevoke u) st2 = (CodeRevokeRefresh u (now_secs t3), st3)"
    by (simp add: code_step_def Let_def st3_def mark_revoked_run)
  let ?e = "emit_oidc_event E (rlm_id (tc_realm ctx)) (code_error_event ctx)"
  have s4: "code_step C E ctx t4 (CodeRevokeRefresh u (now_secs t3)) st3 = (CodeDone invalid_grant,
      case (uc_refresh_token u, uc_refresh_exp u) of
        (Some r, Some e) \<Rightarrow> ?e (snd (mark_revoked C t4 (revoked_refresh_key r) (saturating_sub e (now_secs t3)) st3))
      | _ \<Rightarrow> ?e st3)"
    by (auto simp: code_step_def Let_def mark_revoked_run split: option.splits)
  note run = s1 s2 s3 s4
  show "view v (sv_cache (snd (code_run C E ctx [t1, t2, t3, t4] CodeStart st)))
      (revoked_key (uc_access_token u)) \<noteq> None"
    if "t4 \<le> v" "v < from_secs (unat (uc_access_exp u))"
  proof -
    have "view v (sv_cache st3) (revoked_key (uc_access_token u)) \<noteq> None"
      unfolding st3_def using that t by (intro mark_revoked_live) simp_all
    moreover have "revoked_key a \<noteq> revoked_refresh_key b" for a b
      by (simp add: key_defs)
    ultimately show ?thesis
      using that t by (simp add: run mark_revoked_other split: option.splits)
  qed
  show "view v (sv_cache (snd (code_run C E ctx [t1, t2, t3, t4] CodeStart st))) (revoked_refresh_key rt) \<noteq> None"
    if "t4 \<le> v" "uc_refresh_token u = Some rt" "uc_refresh_exp u = Some re" "v < from_secs (unat re)"
    using mark_revoked_live [of t3 t4 v re "revoked_refresh_key rt" st3] that t by (simp add: run)
qed

text \<open>A run that ends in tokens: the code was there, and its record is kept for the reuse check.\<close>

lemma code_run_tokens:
  assumes run: "code_run C E ctx [t1, t2, t3] CodeStart st = (CodeDone (Tokens a), st')"
    and code: "view t1 (sv_cache st) (code_key_of ctx) = Some (b, x)" "dec_auth_code (ge_codec E) b = Some d"
  obtains tk st1 st2 where "redeem_code E ctx t2 (req_code ctx) d st1 = (Inr tk, st2)" "a = ct_response tk"
    "sv_cache st1 = snd (dc_get_and_delete C t1 (code_key_of ctx) (sv_cache st))" "sv_cache st2 = sv_cache st1"
    "sv_cache st' = snd (dc_set C t3 (used_auth_code_key (req_code ctx)) (enc_used_code (ge_codec E) (ct_used tk))
      (Some (secs (ct_used_ttl tk))) (sv_cache st2))"
proof -
  define st1 where "st1 = st\<lparr>sv_cache := snd (dc_get_and_delete C t1 (code_key_of ctx) (sv_cache st))\<rparr>"
  have s1: "code_step C E ctx t1 CodeStart st = (CodeTaken d, st1)"
    using code by (simp add: code_step_def Let_def on_caches st1_def code_key_of_def)
  show thesis
  proof (cases "redeem_code E ctx t2 (req_code ctx) d st1")
    case (Pair r st2)
    then have "sv_cache st2 = sv_cache st1"
      using sv_cache_redeem [of E ctx t2 "req_code ctx" d st1] by simp
    moreover obtain tk where r: "r = Inr tk"
      using run Pair by (cases r) (auto simp: s1 code_step_taken dest: redeem_code_refuses)
    ultimately show thesis
      using run Pair that [of st1 tk st2]
      by (simp add: s1 code_step_taken st1_def) (auto simp: code_step_def Let_def on_caches)
  qed
qed

end


lemma issue_code_tokens_used:
  assumes "issue_code_tokens E ctx now code d g sid = Inr t"
  shows "uc_access_token (ct_used t) = tp_access_token (ct_response t)"
    and "uc_refresh_token (ct_used t) = tp_refresh_token (ct_response t)"
    and "uc_access_exp (ct_used t) = now_secs now + rlm_access_token_lifespan (tc_realm ctx)"
    and "uc_refresh_exp (ct_used t) = map_option (\<lambda>_. now_secs now + refresh_lifespan_of (tc_realm ctx) d)
      (tp_refresh_token (ct_response t))"
    and "ct_used_ttl t = max (uc_access_exp (ct_used t))
      (case uc_refresh_exp (ct_used t) of Some x \<Rightarrow> x | None \<Rightarrow> 0) - now_secs now"
  using assms by (auto simp: issue_code_tokens_def Let_def refresh_lifespan_of_def split: sum.splits)

text \<open>Token expiries computed without wrap-around.\<close>

definition lifespan_fits :: "nat \<Rightarrow> u64 \<Rightarrow> bool" where
  "lifespan_fits now n \<longleftrightarrow> now div NANOS_PER_SEC + unat n < 2 ^ 64"

lemma lifespan_fits_early: "now < NANOS_PER_SEC \<Longrightarrow> lifespan_fits now n"
  using unsigned_less [of n] by (simp add: lifespan_fits_def)

lemma unat_expiry:
  assumes "lifespan_fits now n"
  shows "unat (now_secs now) = now div NANOS_PER_SEC"
    and "unat (now_secs now + n) = now div NANOS_PER_SEC + unat n"
proof -
  show *: "unat (now_secs now) = now div NANOS_PER_SEC"
    using assms by (simp add: lifespan_fits_def now_secs_def unat_of_nat_u64)
  show "unat (now_secs now + n) = now div NANOS_PER_SEC + unat n"
    using assms by (simp add: unat_word_ariths * lifespan_fits_def)
qed

text \<open>The record of a used code outlives both tokens.\<close>

lemma used_record_outlives:
  assumes "lifespan_fits now n" and "now \<le> t" and "u < from_secs (now div NANOS_PER_SEC + unat n)"
    and "now_secs now + n \<le> x"
  shows "u < t + secs (x - now_secs now)"
proof -
  have "unat (now_secs now + n) \<le> unat x"
    using assms(4) by (simp add: word_le_nat_alt)
  then have "now div NANOS_PER_SEC + unat n \<le> unat x"
    by (simp only: unat_expiry(2) [OF assms(1)])
  moreover from this have "unat (x - now_secs now) = unat x - now div NANOS_PER_SEC"
    by (simp add: unat_sub word_le_nat_alt unat_expiry(1) [OF assms(1)])
  ultimately have "unat n \<le> unat (x - now_secs now)"
    by linarith
  then have "from_secs (unat n) \<le> secs (x - now_secs now)"
    by (simp add: secs_def from_secs_def)
  moreover have "from_secs (now div NANOS_PER_SEC + unat n) \<le> now + from_secs (unat n)"
    using secs_div(1) [of now] by (simp add: from_secs_def distrib_right)
  ultimately show ?thesis
    using assms(2,3) by linarith
qed

context distributed_cache
begin

lemma code_reuse:
  assumes first: "code_run C E ctx [t1, t2, t3] CodeStart st = (CodeDone (Tokens a), st1)"
    and code: "view t1 (sv_cache st) (code_key_of ctx) = Some (b, x)" "dec_auth_code (ge_codec E) b = Some d"
    and again: "code_key_of ctx' = code_key_of ctx" "req_code ctx' = req_code ctx"
    and t: "sorted [t1, t2, t3, t4, t5, t6, t7]"
    and serde: "\<And>u. dec_used_code (ge_codec E) (enc_used_code (ge_codec E) u) = Some u"
    and fits: "lifespan_fits t2 (rlm_access_token_lifespan (tc_realm ctx))"
      "lifespan_fits t2 (refresh_lifespan_of (tc_realm ctx) d)"
    and second: "code_run C E ctx' [t4, t5, t6, t7] CodeStart st1 = (pc, st2)"
  shows "pc = CodeDone invalid_grant"
    and "t7 \<le> v \<Longrightarrow> v < from_secs (t2 div NANOS_PER_SEC + unat (rlm_access_token_lifespan (tc_realm ctx))) \<Longrightarrow>
      view v (sv_cache st2) (revoked_key (tp_access_token a)) \<noteq> None"
    and "t7 \<le> v \<Longrightarrow> v < from_secs (t2 div NANOS_PER_SEC + unat (refresh_lifespan_of (tc_realm ctx) d)) \<Longrightarrow>
      tp_refresh_token a = Some rt \<Longrightarrow> view v (sv_cache st2) (revoked_refresh_key rt) \<noteq> None"
proof -
  obtain tk sa sb where r: "redeem_code E ctx t2 (req_code ctx) d sa = (Inr tk, sb)" "a = ct_response tk"
    and caches: "sv_cache sa = snd (dc_get_and_delete C t1 (code_key_of ctx) (sv_cache st))"
      "sv_cache sb = sv_cache sa"
      "sv_cache st1 = snd (dc_set C t3 (used_auth_code_key (req_code ctx)) (enc_used_code (ge_codec E) (ct_used tk))
        (Some (secs (ct_used_ttl tk))) (sv_cache sb))"
    using first code by (rule code_run_tokens)
  obtain g sid where "issue_code_tokens E ctx t2 (req_code ctx) d g sid = Inr tk"
    using r(1) by (rule redeem_code_Inr)
  note used = issue_code_tokens_used [OF this, folded r(2)]
  have gone: "view t4 (sv_cache st1) (code_key_of ctx') = None"
    using t by (simp add: caches set_view put_def get_and_delete_view code_key_of_def again(1) [unfolded code_key_of_def])
  have kept: "view t5 (sv_cache st1) (used_auth_code_key (req_code ctx')) =
      Some (enc_used_code (ge_codec E) (ct_used tk), Some (t3 + secs (ct_used_ttl tk)))"
    if "t5 < t3 + secs (ct_used_ttl tk)"
    using t that by (simp add: caches set_view put_def live_def expiry_def again)
  note steps = reused_code_steps [of t4 t5 t6 t7 st1 ctx', OF _ _ _ gone kept serde, unfolded second]
  show "view v (sv_cache st2) (revoked_key (tp_access_token a)) \<noteq> None"
    if v: "t7 \<le> v" "v < from_secs (t2 div NANOS_PER_SEC + unat (rlm_access_token_lifespan (tc_realm ctx)))"
  proof -
    have "v < t3 + secs (ct_used_ttl tk)"
      unfolding used(5) using t v by (intro used_record_outlives [OF fits(1)]) (simp_all add: used(3))
    then show ?thesis
      using steps(1) [of v] t v by (simp add: used(1,3) unat_expiry [OF fits(1)])
  qed
  show "view v (sv_cache st2) (revoked_refresh_key rt) \<noteq> None"
    if v: "t7 \<le> v" "v < from_secs (t2 div NANOS_PER_SEC + unat (refresh_lifespan_of (tc_realm ctx) d))"
      and rt: "tp_refresh_token a = Some rt"
  proof -
    have "v < t3 + secs (ct_used_ttl tk)"
      unfolding used(5) using t v by (intro used_record_outlives [OF fits(2)]) (simp_all add: used(4) rt)
    then show ?thesis
      using steps(2) [of v rt] t v by (simp add: used(2,4) rt unat_expiry [OF fits(2)])
  qed
  show "pc = CodeDone invalid_grant"
    using missing_code_refused [OF gone, of E t5 t6 t7] second by simp
qed

end

section \<open>Property\<close>

text \<open>(C6) Presenting an authorization code a second time, whoever does it, is refused and revokes the
  tokens of the first redemption: from the answer on, the access token and the refresh token have
  a revocation marker that lives until they expire.\<close>

theorem reused_code_revokes_tokens:
  assumes "code_run in_memory E ctx [t1, t2, t3] CodeStart st = (CodeDone (Tokens a), st1)"
    and "mem_view t1 (sv_cache st) (code_key_of ctx) = Some (b, x)" and "dec_auth_code (ge_codec E) b = Some d"
    and "code_key_of ctx' = code_key_of ctx" and "req_code ctx' = req_code ctx"
    and "sorted [t1, t2, t3, t4, t5, t6, t7]"
    and "\<And>u. dec_used_code (ge_codec E) (enc_used_code (ge_codec E) u) = Some u"
    and "lifespan_fits t2 (rlm_access_token_lifespan (tc_realm ctx))"
    and "lifespan_fits t2 (refresh_lifespan_of (tc_realm ctx) d)"
    and "code_run in_memory E ctx' [t4, t5, t6, t7] CodeStart st1 = (pc, st2)"
  shows "pc = CodeDone invalid_grant
    \<and> (\<forall>v. t7 \<le> v \<and> v < from_secs (t2 div NANOS_PER_SEC + unat (rlm_access_token_lifespan (tc_realm ctx))) \<longrightarrow>
         mem_view v (sv_cache st2) (revoked_key (tp_access_token a)) \<noteq> None)
    \<and> (\<forall>v rt. t7 \<le> v \<and> v < from_secs (t2 div NANOS_PER_SEC + unat (refresh_lifespan_of (tc_realm ctx) d))
         \<and> tp_refresh_token a = Some rt \<longrightarrow> mem_view v (sv_cache st2) (revoked_refresh_key rt) \<noteq> None)"
proof -
  note reuse = mem.code_reuse [OF assms(1,2,3,4,5,6,7,8,9,10)]
  show ?thesis
    by (intro conjI allI impI; (elim conjE)?; rule reuse)
qed

theorem reused_code_revokes_tokens_witness:
  "\<exists>(st :: nat in_memory_cache server) a st1 st2.
     code_run in_memory (example_env example_codec) (example_ctx ''x'') [1, 2, 3] CodeStart st
       = (CodeDone (Tokens a), st1)
     \<and> code_run in_memory (example_env example_codec) (example_ctx ''y'') [4, 5, 6, 7] CodeStart st1
       = (CodeDone invalid_grant, st2)
     \<and> mem_view 8 (sv_cache st2) (revoked_key (tp_access_token a)) \<noteq> None"
proof -
  let ?E = "example_env example_codec" and ?x = "example_ctx ''x''" and ?y = "example_ctx ''y''"
  let ?k = "code_key_of ?x"
  let ?st = "example_server\<lparr>sv_cache := snd (dc_set in_memory 0 ?k ''code'' None (cache_new 0))\<rparr>"
  have view: "mem_view 1 (sv_cache ?st) ?k = Some (''code'', None)"
    unfolding server.simps using mem.set_view [of 0 1 ?k "''code''" None "cache_new 0 :: nat in_memory_cache"]
    by (simp add: put_def live_def expiry_def)
  have codec: "ge_codec ?E = sample_codec example_code_data"
    by (simp add: example_env_def example_codec_def)
  have dec: "dec_auth_code (ge_codec ?E) ''code'' = Some example_code_data"
    by (simp add: codec)
  let ?s1 = "snd (code_step in_memory ?E ?x 1 CodeStart ?st)"
  have "sv_sessions ?s1 = Map.empty"
    by (simp add: code_start_sessions)
  then obtain tk s2 where redeem: "redeem_code ?E ?x 2 (req_code ?x) example_code_data ?s1 = (Inr tk, s2)"
    using example_redeems by blast
  note run = mem.code_steps_succeed [OF view dec redeem]
  obtain st1 where first: "code_run in_memory ?E ?x [1, 2, 3] CodeStart ?st = (CodeDone (Tokens (ct_response tk)), st1)"
    using run by (simp add: case_prod_beta prod_eq_iff)
  obtain pc st2 where second: "code_run in_memory ?E ?y [4, 5, 6, 7] CodeStart st1 = (pc, st2)"
    by fastforce
  have same: "code_key_of ?y = code_key_of ?x" "req_code ?y = req_code ?x"
    by (simp_all add: code_key_of_def req_code_def example_ctx_def)
  have small: "2 < NANOS_PER_SEC"
    by (simp add: NANOS_PER_SEC_def)
  have now: "8 < from_secs (2 div NANOS_PER_SEC + unat (rlm_access_token_lifespan (tc_realm ?x)))"
    by (simp add: example_ctx_def example_realm_def realm_default_def NANOS_PER_SEC_def from_secs_def)
  show ?thesis
    using reused_code_revokes_tokens [OF first view dec same _ _ lifespan_fits_early [OF small] lifespan_fits_early [OF small] second] first second now
    by (intro exI [of _ ?st] exI [of _ "ct_response tk"] exI [of _ st1] exI [of _ st2]) (simp add: codec)
qed

end
