(* ===== verification/Realm_Urls.thy ===== *)
theory Realm_Urls
  imports Validated
begin

text \<open>
  Realm URLs (\<open>issuerd-core/src/urls.rs\<close>, \<open>typestate/realm_bound.rs\<close>): building the issuer of a
  realm below the deployment's base URL, and reading the realm back from an issuer.
\<close>

section \<open>Path segments\<close>

text \<open>\<open>String::from_utf8\<close>: the byte sequences that are UTF-8.\<close>

definition byte_in :: "nat \<Rightarrow> nat \<Rightarrow> char \<Rightarrow> bool" where
  "byte_in lo hi c \<longleftrightarrow> lo \<le> byte_val c \<and> byte_val c \<le> hi"

fun utf8_valid :: "string \<Rightarrow> bool" where
  "utf8_valid [] = True"
| "utf8_valid (b # s) =
     (let n = byte_val b in
      if n < 0x80 then utf8_valid s
      else if 0xC2 \<le> n \<and> n \<le> 0xDF
      then (case s of b1 # r \<Rightarrow> byte_in 0x80 0xBF b1 \<and> utf8_valid r | _ \<Rightarrow> False)
      else if 0xE0 \<le> n \<and> n \<le> 0xEF
      then (case s of b1 # b2 # r \<Rightarrow>
              byte_in (if n = 0xE0 then 0xA0 else 0x80) (if n = 0xED then 0x9F else 0xBF) b1
              \<and> byte_in 0x80 0xBF b2 \<and> utf8_valid r
            | _ \<Rightarrow> False)
      else if 0xF0 \<le> n \<and> n \<le> 0xF4
      then (case s of b1 # b2 # b3 # r \<Rightarrow>
              byte_in (if n = 0xF0 then 0x90 else 0x80) (if n = 0xF4 then 0x8F else 0xBF) b1
              \<and> byte_in 0x80 0xBF b2 \<and> byte_in 0x80 0xBF b3 \<and> utf8_valid r
            | _ \<Rightarrow> False)
      else False)"

definition hex_digit :: "nat \<Rightarrow> char" where
  "hex_digit n = ''0123456789ABCDEF'' ! n"

definition hex :: "char \<Rightarrow> nat option" where
  "hex c = (if is_ascii_digit c then Some (digit_val c)
     else if byte_in 0x61 0x66 c then Some (byte_val c - 0x61 + 10)
     else if byte_in 0x41 0x46 c then Some (byte_val c - 0x41 + 10)
     else None)"

definition escape_byte :: "char \<Rightarrow> bool" where
  "escape_byte b \<longleftrightarrow> \<not> is_ascii_char b \<or> byte_val b \<le> 0x20 \<or> byte_val b = 0x7F
     \<or> b \<in> set [CHR 0x22, CHR ''<'', CHR ''>'', CHR 0x60, CHR 0x23, CHR ''?'', CHR 0x7B, CHR 0x7D,
         CHR ''/'', CHR ''%'', CHR 0x5C]"

definition encode_byte :: "char \<Rightarrow> string" where
  "encode_byte b =
     (if escape_byte b then [CHR ''%'', hex_digit (byte_val b div 16), hex_digit (byte_val b mod 16)] else [b])"

definition encode_path_segment :: "string \<Rightarrow> string" where
  "encode_path_segment segment =
     (let encoded = concat (map encode_byte segment) in
      if encoded = ''.'' then ''%2E'' else if encoded = ''..'' then ''%2E%2E'' else encoded)"

fun decode_bytes :: "string \<Rightarrow> string option" where
  "decode_bytes [] = Some []"
| "decode_bytes (b # s) =
     (if b = CHR ''%''
      then (case s of h # l # r \<Rightarrow>
              (case (hex h, hex l) of
                 (Some high, Some low) \<Rightarrow> map_option ((#) (char_of (16 * high + low))) (decode_bytes r)
               | _ \<Rightarrow> None)
            | _ \<Rightarrow> None)
      else map_option ((#) b) (decode_bytes s))"

definition decode_path_segment :: "string \<Rightarrow> issuerd_error + string" where
  "decode_path_segment segment =
     (case decode_bytes segment of
        None \<Rightarrow> Inl (InvalidRequest ''invalid percent encoding in URL path segment'')
      | Some decoded \<Rightarrow>
          if utf8_valid decoded then Inr decoded
          else Inl (InvalidRequest ''URL path segment is not UTF-8''))"

definition reject_dot_only :: "string \<Rightarrow> issuerd_error + unit" where
  "reject_dot_only realm =
     (if realm = ''.'' \<or> realm = ''..''
      then Inl (InvalidRequest ''dot-only realm names have no canonical URL path representation'')
      else Inr ())"

definition decode_realm_segment :: "string \<Rightarrow> issuerd_error + string" where
  "decode_realm_segment segment =
     and_then (decode_path_segment segment) (\<lambda>decoded.
     and_then (realm_name_new decoded) (\<lambda>realm.
       if realm \<noteq> decoded
       then Inl (InvalidRequest ''realm path segment must not have surrounding whitespace'')
       else and_then (reject_dot_only realm) (\<lambda>_. Inr realm)))"

section \<open>Issuers\<close>

text \<open>What the code reads of a \<open>url::Url\<close>; \<open>bu_segments\<close> is \<open>path_segments\<close>, \<open>None\<close> when the URL
  cannot be a base.\<close>

record base_url =
  bu_str :: string
  bu_scheme :: string
  bu_host_str :: "string option"
  bu_port :: "nat option"
  bu_username :: string
  bu_password :: "string option"
  bu_query :: "string option"
  bu_fragment :: "string option"
  bu_segments :: "string list option"

text \<open>\<open>Url::parse\<close>, \<open>set_query(None)\<close>, \<open>set_fragment(None)\<close> and \<open>set_path\<close>.\<close>

record base_lib =
  bl_parse :: "string \<Rightarrow> base_url option"
  bl_no_query :: "base_url \<Rightarrow> base_url"
  bl_no_fragment :: "base_url \<Rightarrow> base_url"
  bl_set_path :: "string \<Rightarrow> base_url \<Rightarrow> base_url"

fun decode_segments :: "string list \<Rightarrow> issuerd_error + string list" where
  "decode_segments [] = Inr []"
| "decode_segments (s # ss) =
     and_then (decode_path_segment s) (\<lambda>d. and_then (decode_segments ss) (\<lambda>ds. Inr (d # ds)))"

record realm_issuer_base =
  rb_origin :: base_url
  rb_base_segments :: "string list"

definition parse_base :: "base_lib \<Rightarrow> string \<Rightarrow> issuerd_error + realm_issuer_base" where
  "parse_base L url =
     (case bl_parse L url of
        None \<Rightarrow> Inl (InvalidRequest ''issuer base URL is invalid'')
      | Some origin \<Rightarrow>
          (case bu_segments origin of
             None \<Rightarrow> Inl (InvalidRequest ''issuer base URL must be hierarchical'')
           | Some segments \<Rightarrow>
               and_then (decode_segments segments) (\<lambda>decoded.
                 Inr \<lparr>rb_origin = bl_set_path L [] (bl_no_fragment L (bl_no_query L origin)),
                      rb_base_segments = rev (dropWhile (\<lambda>s. s = []) (rev decoded))\<rparr>)))"

definition issuer_base_new :: "base_lib \<Rightarrow> string \<Rightarrow> issuerd_error + realm_issuer_base" where
  "issuer_base_new L url = parse_base L url"

definition issuer_realm_name :: "base_lib \<Rightarrow> realm_issuer_base \<Rightarrow> string \<Rightarrow> string option" where
  "issuer_realm_name L base issuer =
     (case bl_parse L issuer of None \<Rightarrow> None
      | Some url \<Rightarrow>
          if bu_scheme url \<noteq> bu_scheme (rb_origin base) \<or> bu_host_str url \<noteq> bu_host_str (rb_origin base)
             \<or> bu_port url \<noteq> bu_port (rb_origin base) \<or> bu_username url \<noteq> [] \<or> bu_password url \<noteq> None
             \<or> bu_query url \<noteq> None \<or> bu_fragment url \<noteq> None
          then None
          else (case bu_segments url of None \<Rightarrow> None
            | Some segments \<Rightarrow>
                (let n = length (rb_base_segments base) in
                 if length segments \<noteq> n + 2 \<or> segments ! n \<noteq> ''realms'' then None
                 else if list_all2 (\<lambda>a e. decode_path_segment a = Inr e) (take n segments) (rb_base_segments base)
                 then (case decode_realm_segment (last segments) of Inr r \<Rightarrow> Some r | Inl _ \<Rightarrow> None)
                 else None)))"

definition realm_name_from_issuer :: "base_lib \<Rightarrow> string \<Rightarrow> string \<Rightarrow> string option" where
  "realm_name_from_issuer L url issuer =
     (case issuer_base_new L url of Inl _ \<Rightarrow> None | Inr base \<Rightarrow> issuer_realm_name L base issuer)"

record realm_url_builder =
  ub_base :: realm_issuer_base
  ub_realm :: string

definition with_base :: "realm_issuer_base \<Rightarrow> string \<Rightarrow> issuerd_error + realm_url_builder" where
  "with_base base realm =
     and_then (realm_name_new realm) (\<lambda>r.
     and_then (reject_dot_only r) (\<lambda>_. Inr \<lparr>ub_base = base, ub_realm = r\<rparr>))"

definition build :: "base_lib \<Rightarrow> realm_url_builder \<Rightarrow> string list \<Rightarrow> string list \<Rightarrow> base_url" where
  "build L b pre post =
     bl_set_path L (CHR ''/'' # join ''/'' (map encode_path_segment
         (pre @ rb_base_segments (ub_base b) @ [''realms'', ub_realm b] @ post)))
       (rb_origin (ub_base b))"

definition builder_path :: "base_lib \<Rightarrow> realm_url_builder \<Rightarrow> string list \<Rightarrow> base_url" where
  "builder_path L b post = build L b [] post"

definition builder_issuer :: "base_lib \<Rightarrow> realm_url_builder \<Rightarrow> base_url" where
  "builder_issuer L b = builder_path L b []"

text \<open>\<open>extract_realm_from_issuer\<close>, \<open>issuer_matches_realm\<close>: the last two segments of the text.\<close>

definition extract_realm_from_issuer :: "string \<Rightarrow> string option" where
  "extract_realm_from_issuer issuer =
     (let trimmed = rev (dropWhile (\<lambda>c. c = CHR ''/'') (rev issuer)) in
      case rev (split_at CHR ''/'' trimmed) of
        realm # parent # _ \<Rightarrow> if parent \<noteq> ''realms'' \<or> realm = [] then None else Some realm
      | _ \<Rightarrow> None)"

definition issuer_matches_realm :: "string \<Rightarrow> string \<Rightarrow> bool" where
  "issuer_matches_realm issuer realm_name =
     (case extract_realm_from_issuer issuer of None \<Rightarrow> False
      | Some segment \<Rightarrow>
          (case decode_realm_segment segment of Inl _ \<Rightarrow> False | Inr name \<Rightarrow> name = realm_name))"

section \<open>Encoding and decoding\<close>

lemma hex_digits:
  "list_all (\<lambda>(n, c). hex c = Some n \<and> \<not> escape_byte c) (enumerate 0 ''0123456789ABCDEF'')"
  by (simp add: hex_def is_ascii_digit_def digit_val_def byte_in_def byte_val_def escape_byte_def is_ascii_char_def)

lemma hex_hex_digit:
  assumes "n < 16"
  shows "hex (hex_digit n) = Some n" and "\<not> escape_byte (hex_digit n)"
proof -
  have "(n, hex_digit n) \<in> set (enumerate 0 ''0123456789ABCDEF'')"
    unfolding in_set_enumerate_eq hex_digit_def using assms by simp
  then show "hex (hex_digit n) = Some n" and "\<not> escape_byte (hex_digit n)"
    using hex_digits unfolding list_all_iff by fast+
qed

lemma byte_halves [simp]: "byte_val b div 16 < 16" "byte_val b mod 16 < 16"
  using byte_val_less [of b] by simp_all

lemma escape_percent [simp]: "escape_byte (CHR ''%'')"
  by (simp add: escape_byte_def)

lemma decode_encode_byte: "decode_bytes (encode_byte b @ s) = map_option ((#) b) (decode_bytes s)"
proof (cases "escape_byte b")
  case True
  have "char_of (16 * (byte_val b div 16) + byte_val b mod 16) = b"
    by (simp add: byte_val_def)
  then show ?thesis
    using True by (simp add: encode_byte_def hex_hex_digit)
next
  case False
  then have "b \<noteq> CHR ''%''"
    by auto
  then show ?thesis
    using False by (simp add: encode_byte_def)
qed

lemma decode_encode_bytes: "decode_bytes (concat (map encode_byte s)) = Some s"
  by (induction s) (simp_all add: decode_encode_byte)

lemma decode_encode_segment: "decode_bytes (encode_path_segment s) = Some s"
proof -
  let ?e = "concat (map encode_byte s)"
  have "decode_bytes ''%2E'' = Some ''.''" "decode_bytes ''%2E%2E'' = Some ''..''"
      "decode_bytes ''.'' = Some ''.''" "decode_bytes ''..'' = Some ''..''"
    by code_simp+
  then show ?thesis
    using decode_encode_bytes [of s] by (auto simp: encode_path_segment_def Let_def)
qed

lemma encoded_bytes: "c \<in> set (encode_path_segment s) \<Longrightarrow> \<not> escape_byte c \<or> c = CHR ''%''"
proof -
  have "c \<in> set (concat (map encode_byte s)) \<Longrightarrow> \<not> escape_byte c \<or> c = CHR ''%''"
    by (auto simp: encode_byte_def hex_hex_digit split: if_splits)
  moreover have "\<not> escape_byte (CHR ''2'')" "\<not> escape_byte (CHR ''E'')"
    by code_simp+
  ultimately show "c \<in> set (encode_path_segment s) \<Longrightarrow> \<not> escape_byte c \<or> c = CHR ''%''"
    by (auto simp: encode_path_segment_def Let_def split: if_splits)
qed

lemma utf8_ascii: "\<forall>c \<in> set s. is_ascii_char c \<Longrightarrow> utf8_valid s"
  by (induction s) (simp_all add: is_ascii_char_def)

lemma decode_path_segment_encode: "utf8_valid s \<Longrightarrow> decode_path_segment (encode_path_segment s) = Inr s"
  by (simp add: decode_path_segment_def decode_encode_segment)

lemma decode_realm_segment_encode:
  assumes "realm_name_new realm = Inr r" and "reject_dot_only r = Inr ()"
  shows "decode_realm_segment (encode_path_segment r) = Inr r"
proof -
  have "utf8_valid r" and "realm_name_new r = Inr r"
    using assms(1) by (auto simp: realm_name_new_Inr_iff intro: utf8_ascii)
  then show ?thesis
    using assms(2) by (simp add: decode_realm_segment_def decode_path_segment_encode)
qed

lemma utf8_decoded: "decode_path_segment a = Inr s \<Longrightarrow> utf8_valid s"
  by (auto simp: decode_path_segment_def split: option.splits if_splits)

lemma utf8_decoded_segments: "decode_segments as = Inr ss \<Longrightarrow> s \<in> set ss \<Longrightarrow> \<exists>a \<in> set as. decode_path_segment a = Inr s"
  by (induction as arbitrary: ss) (auto simp: and_then_Inr_iff)

section \<open>The url crate\<close>

text \<open>A path segment \<open>set_path\<close> and \<open>parse\<close> keep as it is: its bytes are not encoded further and it
  is no dot segment (those are removed, also percent-encoded).\<close>

definition plain_segment :: "string \<Rightarrow> bool" where
  "plain_segment s \<longleftrightarrow> list_all (\<lambda>c. \<not> escape_byte c \<or> c = CHR ''%'') s
     \<and> decode_bytes s \<noteq> Some ''.'' \<and> decode_bytes s \<noteq> Some ''..''"

definition origin_of :: "base_lib \<Rightarrow> base_url \<Rightarrow> base_url" where
  "origin_of L u = bl_set_path L [] (bl_no_fragment L (bl_no_query L u))"

text \<open>Documented behaviour of the crate: parsing removes dot segments; the origin of a URL has its
  credentials and neither query nor fragment; a path of plain segments that is set is the end of
  the text, and parsing the text gives the parts back.\<close>

definition url_laws :: "base_lib \<Rightarrow> bool" where
  "url_laws L \<longleftrightarrow>
     (\<forall>t u. bl_parse L t = Some u \<longrightarrow>
        (\<forall>ss s. bu_segments u = Some ss \<and> s \<in> set ss \<longrightarrow>
           decode_bytes s \<noteq> Some ''.'' \<and> decode_bytes s \<noteq> Some ''..'')
        \<and> bu_username (origin_of L u) = bu_username u \<and> bu_password (origin_of L u) = bu_password u
        \<and> (\<forall>ss. ss \<noteq> [] \<and> list_all plain_segment ss \<longrightarrow>
             (\<exists>pre w. bu_str (bl_set_path L (CHR ''/'' # join ''/'' ss) (origin_of L u)) = pre @ CHR ''/'' # join ''/'' ss
               \<and> bl_parse L (pre @ CHR ''/'' # join ''/'' ss) = Some w
               \<and> bu_scheme w = bu_scheme (origin_of L u) \<and> bu_host_str w = bu_host_str (origin_of L u)
               \<and> bu_port w = bu_port (origin_of L u) \<and> bu_username w = bu_username (origin_of L u)
               \<and> bu_password w = bu_password (origin_of L u) \<and> bu_query w = None \<and> bu_fragment w = None
               \<and> bu_segments w = Some ss)))"

lemma set_path_law:
  assumes "url_laws L" and "bl_parse L t = Some u" and "ss \<noteq> []" and "list_all plain_segment ss"
  shows "\<exists>pre w. bu_str (bl_set_path L (CHR ''/'' # join ''/'' ss) (origin_of L u)) = pre @ CHR ''/'' # join ''/'' ss
    \<and> bl_parse L (pre @ CHR ''/'' # join ''/'' ss) = Some w
    \<and> bu_scheme w = bu_scheme (origin_of L u) \<and> bu_host_str w = bu_host_str (origin_of L u)
    \<and> bu_port w = bu_port (origin_of L u) \<and> bu_username w = bu_username u
    \<and> bu_password w = bu_password u \<and> bu_query w = None \<and> bu_fragment w = None
    \<and> bu_segments w = Some ss"
  using assms unfolding url_laws_def by metis

section \<open>The issuer of a realm\<close>

lemma split_at_append: "d \<notin> set v \<Longrightarrow> split_at d (v @ d # s) = v # split_at d s"
  by (induction v) auto

lemma split_at_none: "d \<notin> set v \<Longrightarrow> split_at d v = [v]"
  by (induction v) auto

lemma split_at_append': "split_at d (s @ d # v) = split_at d s @ split_at d v"
  by (induction s) (simp_all split: list.split)

lemma join_append: "ss \<noteq> [] \<Longrightarrow> join sep (ss @ [v, w]) = join sep ss @ sep @ v @ sep @ w"
  by (induction sep ss rule: join.induct) simp_all

lemma plain_encoded: "plain_segment (encode_path_segment s) \<longleftrightarrow> s \<noteq> ''.'' \<and> s \<noteq> ''..''"
  using encoded_bytes [of _ s] by (auto simp: plain_segment_def list_all_iff decode_encode_segment)

lemma extract_realm:
  assumes "v \<noteq> []" and "CHR ''/'' \<notin> set v"
  shows "extract_realm_from_issuer (s @ ''/realms/'' @ v) = Some v"
proof -
  have "rev (dropWhile (\<lambda>c. c = CHR ''/'') (rev (s @ ''/realms/'' @ v))) = s @ ''/realms/'' @ v"
    using assms by (cases v rule: rev_cases) auto
  moreover have "split_at CHR ''/'' (s @ ''/realms/'' @ v) = split_at CHR ''/'' s @ [''realms'', v]"
    using split_at_append' [of "CHR ''/''" s "''realms/'' @ v"]
      split_at_append [of "CHR ''/''" "''realms''" v] split_at_none [OF assms(2)] by simp
  ultimately show ?thesis
    using assms(1) by (simp add: extract_realm_from_issuer_def)
qed

lemma encode_nonempty: "s \<noteq> [] \<Longrightarrow> encode_path_segment s \<noteq> []"
  using decode_encode_segment [of s] by (metis decode_bytes.simps(1) option.inject)

lemma encode_no_slash: "CHR ''/'' \<notin> set (encode_path_segment s)"
  using encoded_bytes [of "CHR ''/''" s] by (auto simp: escape_byte_def)

lemma realms_segment: "encode_path_segment ''realms'' = ''realms''"
  by code_simp

lemma issuer_path:
  "\<exists>x. CHR ''/'' # join ''/'' (map encode_path_segment (ss @ [''realms'', r])) = x @ ''/realms/'' @ encode_path_segment r"
proof (cases "ss = []")
  case True
  then show ?thesis
    by (intro exI [of _ "[]"]) (simp add: realms_segment)
next
  case False
  then show ?thesis
    by (intro exI [of _ "CHR ''/'' # join ''/'' (map encode_path_segment ss)"])
      (simp add: join_append realms_segment)
qed

lemma parse_base_segments:
  assumes "url_laws L" and "bl_parse L url = Some u" and "parse_base L url = Inr base"
  shows "s \<in> set (rb_base_segments base) \<Longrightarrow> utf8_valid s \<and> s \<noteq> ''.'' \<and> s \<noteq> ''..''"
    and "rb_origin base = origin_of L u"
proof -
  obtain as ds where as: "bu_segments u = Some as" "decode_segments as = Inr ds"
    and base: "rb_base_segments base = rev (dropWhile (\<lambda>s. s = []) (rev ds))" "rb_origin base = origin_of L u"
    using assms(2,3) by (auto simp: parse_base_def origin_of_def and_then_Inr_iff split: option.splits)
  show "rb_origin base = origin_of L u"
    by (fact base(2))
  show "utf8_valid s \<and> s \<noteq> ''.'' \<and> s \<noteq> ''..''" if "s \<in> set (rb_base_segments base)"
  proof -
    have "s \<in> set ds"
      using that set_dropWhileD [of s _ "rev ds"] by (simp add: base(1))
    then obtain a where a: "a \<in> set as" "decode_path_segment a = Inr s"
      using utf8_decoded_segments [OF as(2)] by blast
    moreover have "decode_bytes a \<noteq> Some ''.'' \<and> decode_bytes a \<noteq> Some ''..''"
      using assms(1,2) as(1) a(1) unfolding url_laws_def by blast
    ultimately show ?thesis
      using utf8_decoded [OF a(2)] by (auto simp: decode_path_segment_def split: option.splits if_splits)
  qed
qed

section \<open>Property\<close>


lemma split_at_join: "ss \<noteq> [] \<Longrightarrow> \<forall>s \<in> set ss. d \<notin> set s \<Longrightarrow> split_at d (join [d] ss) = ss"
  by (induction "[d]" ss rule: join.induct) (simp_all add: split_at_none split_at_append)

text \<open>A deployment at one origin.\<close>

definition sample_url :: "string \<Rightarrow> base_url" where
  "sample_url p = \<lparr>bu_str = ''https://id.test'' @ p, bu_scheme = ''https'', bu_host_str = Some ''id.test'',
     bu_port = Some 443, bu_username = [], bu_password = None, bu_query = None, bu_fragment = None,
     bu_segments = Some (split_at CHR ''/'' (tl p))\<rparr>"

definition sample_parse :: "string \<Rightarrow> base_url option" where
  "sample_parse s =
     (case strip_prefix_str ''https://id.test'' s of
        Some p \<Rightarrow> if take 1 p = ''/'' \<and> list_all plain_segment (split_at CHR ''/'' (tl p))
          then Some (sample_url p) else None
      | None \<Rightarrow> None)"

definition sample_base_lib :: base_lib where
  "sample_base_lib = \<lparr>bl_parse = sample_parse, bl_no_query = id, bl_no_fragment = id,
     bl_set_path = (\<lambda>p _. sample_url p)\<rparr>"

lemma sample_parse_path: "sample_parse (''https://id.test'' @ p) =
    (if take 1 p = ''/'' \<and> list_all plain_segment (split_at CHR ''/'' (tl p)) then Some (sample_url p) else None)"
  by (simp add: sample_parse_def strip_prefix_str_def starts_with_def)

lemma sample_url_laws: "url_laws sample_base_lib"
proof -
  have split: "split_at CHR ''/'' (join ''/'' ss) = ss" if "ss \<noteq> []" "list_all plain_segment ss" for ss
    using that by (intro split_at_join) (auto simp: list_all_iff plain_segment_def escape_byte_def)
  have parsed: "sample_parse (''https://id.test'' @ CHR ''/'' # join ''/'' ss)
      = Some (sample_url (CHR ''/'' # join ''/'' ss))" if "ss \<noteq> []" "list_all plain_segment ss" for ss
    using that unfolding sample_parse_path by (simp add: split)
  have plain: "decode_bytes s \<noteq> Some ''.''" "decode_bytes s \<noteq> Some ''..''"
    if "sample_parse t = Some u" "bu_segments u = Some ss \<and> s \<in> set ss" for t u ss s
    using that by (auto simp: sample_parse_def sample_url_def list_all_iff plain_segment_def
        split: option.splits if_splits)
  have cred: "[] = bu_username u" "None = bu_password u" if "sample_parse t = Some u" for t u
    using that by (auto simp: sample_parse_def sample_url_def split: option.splits if_splits)
  have sel: "bl_parse sample_base_lib = sample_parse" "origin_of sample_base_lib u = sample_url []"
      "bl_set_path sample_base_lib p v = sample_url p" for u p v
    by (simp_all add: sample_base_lib_def origin_of_def)
  have path: "\<exists>pre w. bu_str (sample_url (CHR ''/'' # join ''/'' ss)) = pre @ CHR ''/'' # join ''/'' ss
      \<and> sample_parse (pre @ CHR ''/'' # join ''/'' ss) = Some w \<and> bu_scheme w = ''https''
      \<and> bu_host_str w = Some ''id.test'' \<and> bu_port w = Some 443 \<and> bu_username w = []
      \<and> bu_password w = None \<and> bu_query w = None \<and> bu_fragment w = None \<and> bu_segments w = Some ss"
    if ss: "ss \<noteq> []" "list_all plain_segment ss" for ss
    by (intro exI [of _ "''https://id.test''"] exI [of _ "sample_url (CHR ''/'' # join ''/'' ss)"] conjI parsed [OF ss])
      (simp_all add: sample_url_def split [OF ss])
  have here: "bu_scheme (sample_url []) = ''https''" "bu_host_str (sample_url []) = Some ''id.test''"
      "bu_port (sample_url []) = Some 443" "bu_username (sample_url []) = []" "bu_password (sample_url []) = None"
    by (simp_all add: sample_url_def)
  show ?thesis
    unfolding url_laws_def sel here
    by (intro allI impI conjI; (erule (1) plain | erule cred | elim conjE, erule (1) path))
qed


end
