(* ===== verification/Jwt_Validation.thy ===== *)
theory Jwt_Validation
  imports Realm_Urls Entities Cache
begin

text \<open>
  Validation of the server's own tokens (\<open>issuerd-token/src/token_manager.rs\<close>).  Base64, JSON,
  signatures and the checks of the \<open>jsonwebtoken\<close> crate are a parameter.
\<close>

section \<open>Claims\<close>

datatype jwt_type = BearerType | RefreshType | OfflineType | SerializedIdType

record refresh_token_claims =
  rc_jti :: string
  rc_iss :: string
  rc_sub :: string
  rc_aud :: "string list"
  rc_exp :: int
  rc_iat :: int
  rc_typ :: jwt_type
  rc_sid :: string
  rc_scope :: scope
  rc_cnf :: "string option"
  rc_authorization_details :: "json list option"
  rc_resource :: "string option"

record access_token_claims =
  at_jti :: string
  at_iss :: string
  at_sub :: string
  at_aud :: "string list"
  at_exp :: int
  at_iat :: int
  at_nbf :: int
  at_scope :: scope
  at_typ :: jwt_type
  at_azp :: "string option"
  at_session_state :: "string option"
  at_realm_access :: "string list option"
  at_resource_access :: "(string \<times> string list) list option"
  at_sid :: "string option"
  at_claims :: "json option"
  at_cnf :: "string option"
  at_authorization_details :: "json list option"
  at_resource :: "string option"

text \<open>\<open>Audience::as_str\<close>.\<close>

definition audience_as_str :: "string list \<Rightarrow> string" where "audience_as_str a = hd a"

section \<open>Collaborators\<close>

record jwk =
  jwk_kid :: string
  jwk_material :: string

text \<open>\<open>URL_SAFE_NO_PAD.decode\<close>, \<open>serde_json::from_slice\<close>, \<open>jsonwebtoken::Algorithm::from_str\<close>
  followed by \<open>map_jwt_alg\<close>, \<open>jwk_to_decoding_key\<close> and \<open>jsonwebtoken::decode\<close> at an instant in
  seconds, \<open>verify_es512\<close>, and the claim types' deserialization.\<close>

record jwt_lib =
  jw_base64 :: "string \<Rightarrow> bytes option"
  jw_json :: "bytes \<Rightarrow> json option"
  jw_algorithm :: "string \<Rightarrow> (issuerd_error + algorithm) option"
  jw_decoding_key :: "jwk \<Rightarrow> issuerd_error + bytes"
  jw_decode :: "bytes \<Rightarrow> string \<Rightarrow> u64 \<Rightarrow> bool \<Rightarrow> string option \<Rightarrow> int \<Rightarrow> string \<Rightarrow> json option"
  jw_verify_es512 :: "jwk \<Rightarrow> bytes \<Rightarrow> bytes \<Rightarrow> issuerd_error + bool"
  jw_i64 :: "json \<Rightarrow> int option"
  jw_refresh :: "json \<Rightarrow> refresh_token_claims option"
  jw_access :: "json \<Rightarrow> access_token_claims option"

record token_manager =
  tm_lib :: jwt_lib
  tm_url :: base_lib
  tm_issuer_base :: "realm_issuer_base option"
  tm_clock_skew :: u64
  tm_jwks :: "jwk list"

definition is_realm_issuer :: "token_manager \<Rightarrow> string \<Rightarrow> bool" where
  "is_realm_issuer M iss =
     (case tm_issuer_base M of None \<Rightarrow> False | Some base \<Rightarrow> issuer_realm_name (tm_url M) base iss \<noteq> None)"

section \<open>Decoding\<close>

definition peek_jwt_header :: "jwt_lib \<Rightarrow> string \<Rightarrow> issuerd_error + string \<times> string" where
  "peek_jwt_header J token =
     (case jw_base64 J (hd (split_at CHR ''.'' token)) of None \<Rightarrow> Inl InvalidToken
      | Some bytes \<Rightarrow>
          (case jw_json J bytes of None \<Rightarrow> Inl InvalidToken
           | Some header \<Rightarrow>
               (case (Option.bind (json_get ''alg'' header) json_as_str,
                      Option.bind (json_get ''kid'' header) json_as_str) of
                  (Some alg, Some kid) \<Rightarrow> Inr (alg, kid)
                | _ \<Rightarrow> Inl InvalidToken)))"

text \<open>\<open>ClaimsProbe\<close>: an absent member is \<open>None\<close>, one of another shape an error.\<close>

definition probe_int :: "jwt_lib \<Rightarrow> string \<Rightarrow> json \<Rightarrow> issuerd_error + int option" where
  "probe_int J name payload =
     (case json_get name payload of None \<Rightarrow> Inr None
      | Some v \<Rightarrow> if v = JNull then Inr None
          else (case jw_i64 J v of Some n \<Rightarrow> Inr (Some n) | None \<Rightarrow> Inl InvalidToken))"

definition probe_aud :: "json \<Rightarrow> issuerd_error + string list option" where
  "probe_aud payload =
     (case json_get ''aud'' payload of None \<Rightarrow> Inr None
      | Some v \<Rightarrow> if v = JNull then Inr None
          else (case audience_deserialize v of Some (Inr a) \<Rightarrow> Inr (Some a) | _ \<Rightarrow> Inl InvalidToken))"

definition decode_es512_claims ::
    "jwt_lib \<Rightarrow> jwk \<Rightarrow> u64 \<Rightarrow> bool \<Rightarrow> string option \<Rightarrow> int \<Rightarrow> string \<Rightarrow> issuerd_error + json" where
  "decode_es512_claims J key leeway validate_nbf aud now token =
     (case split_at CHR ''.'' token of
        [header, body, sig] \<Rightarrow>
          (case jw_base64 J sig of None \<Rightarrow> Inl InvalidToken
           | Some signature \<Rightarrow>
               and_then (jw_verify_es512 J key (header @ ''.'' @ body) signature) (\<lambda>valid.
               if \<not> valid then Inl InvalidToken
               else (case Option.bind (jw_base64 J body) (jw_json J) of None \<Rightarrow> Inl InvalidToken
                 | Some payload \<Rightarrow>
                     and_then (probe_int J ''exp'' payload) (\<lambda>exp.
                     and_then (probe_int J ''nbf'' payload) (\<lambda>nbf.
                     and_then (probe_aud payload) (\<lambda>found.
                       if (case exp of Some x \<Rightarrow> now > x + int (unat leeway) | None \<Rightarrow> False) then Inl InvalidToken
                       else if validate_nbf \<and> (case nbf of Some n \<Rightarrow> now + int (unat leeway) < n | None \<Rightarrow> False)
                         then Inl InvalidToken
                       else if (case aud of Some a \<Rightarrow> map_option audience_as_str found \<noteq> Some a | None \<Rightarrow> False)
                         then Inl InvalidToken
                       else Inr payload))))))
      | _ \<Rightarrow> Inl InvalidToken)"

definition decode_token ::
    "token_manager \<Rightarrow> (json \<Rightarrow> 'c option) \<Rightarrow> bool \<Rightarrow> string option \<Rightarrow> nat \<Rightarrow> string \<Rightarrow> issuerd_error + 'c" where
  "decode_token M claims_of validate_nbf aud now token =
     (let J = tm_lib M; secs = int (now div NANOS_PER_SEC) in
      and_then (peek_jwt_header J token) (\<lambda>(alg, kid).
      if \<not> is_ok (id_new ''KeyId'' kid) then Inl InvalidToken
      else (case find (\<lambda>k. jwk_kid k = kid) (tm_jwks M) of None \<Rightarrow> Inl InvalidToken
        | Some key \<Rightarrow>
            if alg = ''ES512''
            then and_then (decode_es512_claims J key (tm_clock_skew M) validate_nbf aud secs token)
              (\<lambda>payload. case claims_of payload of Some c \<Rightarrow> Inr c | None \<Rightarrow> Inl InvalidToken)
            else (case jw_algorithm J alg of None \<Rightarrow> Inl InvalidToken
              | Some mapped \<Rightarrow>
                  and_then (jw_decoding_key J key) (\<lambda>material.
                  case Option.bind (jw_decode J material alg (tm_clock_skew M) validate_nbf aud secs token) claims_of of
                    None \<Rightarrow> Inl InvalidToken
                  | Some c \<Rightarrow> and_then mapped (\<lambda>_. Inr c))))))"

section \<open>Validation\<close>

definition validate_refresh_token ::
    "token_manager \<Rightarrow> nat \<Rightarrow> string \<Rightarrow> issuerd_error + refresh_token_claims" where
  "validate_refresh_token M now token =
     and_then (decode_token M (jw_refresh (tm_lib M)) False None now token) (\<lambda>claims.
       if rc_typ claims \<noteq> RefreshType \<and> rc_typ claims \<noteq> OfflineType then Inl InvalidToken
       else if rc_iat claims > int (now div NANOS_PER_SEC) + int (unat (tm_clock_skew M)) then Inl InvalidToken
       else if \<not> is_realm_issuer M (rc_iss claims) then Inl InvalidToken
       else Inr claims)"

definition validate_access_shaped_token ::
    "token_manager \<Rightarrow> nat \<Rightarrow> string \<Rightarrow> jwt_type \<Rightarrow> issuerd_error + access_token_claims" where
  "validate_access_shaped_token M now token expected_typ =
     and_then (decode_token M (jw_access (tm_lib M)) True None now token) (\<lambda>claims.
       if at_typ claims \<noteq> expected_typ then Inl InvalidToken
       else if at_iat claims > int (now div NANOS_PER_SEC) + int (unat (tm_clock_skew M)) then Inl InvalidToken
       else if \<not> is_realm_issuer M (at_iss claims) then Inl InvalidToken
       else Inr claims)"

definition validate_access_token :: "token_manager \<Rightarrow> nat \<Rightarrow> string \<Rightarrow> issuerd_error + access_token_claims" where
  "validate_access_token M now token = validate_access_shaped_token M now token BearerType"

definition validate_sso_session_token :: "token_manager \<Rightarrow> nat \<Rightarrow> string \<Rightarrow> issuerd_error + access_token_claims" where
  "validate_sso_session_token M now token = validate_access_shaped_token M now token SerializedIdType"

section \<open>What validation gives\<close>

fun jwt_type_text :: "jwt_type \<Rightarrow> string" where
  "jwt_type_text BearerType = ''Bearer''"
| "jwt_type_text RefreshType = ''Refresh''"
| "jwt_type_text OfflineType = ''Offline''"
| "jwt_type_text SerializedIdType = ''Serialized-ID''"

definition token_payload :: "jwt_lib \<Rightarrow> string \<Rightarrow> json option" where
  "token_payload J token =
     (case split_at CHR ''.'' token of [_, body, _] \<Rightarrow> Option.bind (jw_base64 J body) (jw_json J) | _ \<Rightarrow> None)"

text \<open>Documented behaviour of the libraries: a decoded token's claims are its second segment, and are
  not older than the leeway; claims are read from the members of the payload with their names.\<close>

definition jwt_laws :: "jwt_lib \<Rightarrow> bool" where
  "jwt_laws J \<longleftrightarrow>
     (\<forall>key alg lw nbf aud now token p. jw_decode J key alg lw nbf aud now token = Some p \<longrightarrow>
        token_payload J token = Some p
        \<and> (\<forall>x. probe_int J ''exp'' p = Inr (Some x) \<longrightarrow> now \<le> x + int (unat lw)))
     \<and> (\<forall>p c. jw_refresh J p = Some c \<longrightarrow> probe_int J ''exp'' p = Inr (Some (rc_exp c))
          \<and> json_get ''typ'' p = Some (JString (jwt_type_text (rc_typ c))))
     \<and> (\<forall>p c. jw_access J p = Some c \<longrightarrow> probe_int J ''exp'' p = Inr (Some (at_exp c))
          \<and> json_get ''typ'' p = Some (JString (jwt_type_text (at_typ c))))"

lemma jwt_type_text_inj [simp]: "jwt_type_text a = jwt_type_text b \<longleftrightarrow> a = b"
  by (cases a; cases b) simp_all

lemma decode_es512_payload:
  assumes "decode_es512_claims J key lw nbf aud now token = Inr p"
  shows "token_payload J token = Some p"
    and "probe_int J ''exp'' p = Inr (Some x) \<Longrightarrow> now \<le> x + int (unat lw)"
proof -
  obtain h b s where parts: "split_at CHR ''.'' token = [h, b, s]"
    using assms by (auto simp: decode_es512_claims_def split: list.splits)
  note d = assms [unfolded decode_es512_claims_def parts list.case]
  from d obtain signature where sig: "jw_base64 J s = Some signature"
    by (cases "jw_base64 J s") simp_all
  from d obtain payload where payload: "Option.bind (jw_base64 J b) (jw_json J) = Some payload"
    by (cases "Option.bind (jw_base64 J b) (jw_json J)") (simp_all add: sig and_then_Inr_iff split: if_splits)
  from d obtain exp where exp: "probe_int J ''exp'' payload = Inr exp" "payload = p"
      "\<not> (case exp of Some x \<Rightarrow> now > x + int (unat lw) | None \<Rightarrow> False)"
    unfolding sig payload option.case by (auto simp only: and_then_Inr_iff if_Inl_eq_Inr_iff sum.inject)
  show "token_payload J token = Some p"
    using payload exp(2) by (simp add: token_payload_def parts)
  show "now \<le> x + int (unat lw)" if "probe_int J ''exp'' p = Inr (Some x)"
    using that exp by auto
qed

lemma decode_token_payload:
  assumes laws: "jwt_laws (tm_lib M)" and decoded: "decode_token M f nbf aud now token = Inr c"
  obtains p where "token_payload (tm_lib M) token = Some p" and "f p = Some c"
    and "\<And>x. probe_int (tm_lib M) ''exp'' p = Inr (Some x) \<Longrightarrow>
      int (now div NANOS_PER_SEC) \<le> x + int (unat (tm_clock_skew M))"
proof -
  obtain alg kid key where key: "peek_jwt_header (tm_lib M) token = Inr (alg, kid)"
      "find (\<lambda>k. jwk_kid k = kid) (tm_jwks M) = Some key"
    using decoded by (auto simp: decode_token_def Let_def and_then_Inr_iff split: if_splits option.splits)
  show thesis
  proof (cases "alg = ''ES512''")
    case True
    then obtain p where p: "decode_es512_claims (tm_lib M) key (tm_clock_skew M) nbf aud
        (int (now div NANOS_PER_SEC)) token = Inr p" "f p = Some c"
      using decoded key by (auto simp: decode_token_def Let_def and_then_Inr_iff split: if_splits option.splits)
    show thesis
      by (rule that [OF decode_es512_payload(1) [OF p(1)] p(2) decode_es512_payload(2) [OF p(1)]])
  next
    case False
    then obtain material p where p: "jw_decode (tm_lib M) material alg (tm_clock_skew M) nbf aud
        (int (now div NANOS_PER_SEC)) token = Some p" "f p = Some c"
      using decoded key by (auto simp: decode_token_def Let_def and_then_Inr_iff bind_eq_Some_conv
          split: if_splits option.splits)
    with laws have "token_payload (tm_lib M) token = Some p"
      and "\<And>x. probe_int (tm_lib M) ''exp'' p = Inr (Some x) \<Longrightarrow>
        int (now div NANOS_PER_SEC) \<le> x + int (unat (tm_clock_skew M))"
      unfolding jwt_laws_def by blast+
    then show thesis
      using p(2) that by blast
  qed
qed

lemma validate_refresh_token_Inr:
  assumes "jwt_laws (tm_lib M)" and "validate_refresh_token M now token = Inr c"
  shows "rc_typ c = RefreshType \<or> rc_typ c = OfflineType"
    and "int (now div NANOS_PER_SEC) \<le> rc_exp c + int (unat (tm_clock_skew M))"
    and "rc_iat c \<le> int (now div NANOS_PER_SEC) + int (unat (tm_clock_skew M))"
    and "is_realm_issuer M (rc_iss c)"
    and "Option.bind (token_payload (tm_lib M) token) (json_get ''typ'') = Some (JString (jwt_type_text (rc_typ c)))"
proof -
  have dec: "decode_token M (jw_refresh (tm_lib M)) False None now token = Inr c"
    and "rc_typ c = RefreshType \<or> rc_typ c = OfflineType"
    and "rc_iat c \<le> int (now div NANOS_PER_SEC) + int (unat (tm_clock_skew M))"
    and "is_realm_issuer M (rc_iss c)"
    using assms(2) by (auto simp: validate_refresh_token_def and_then_Inr_iff split: if_splits)
  then show "rc_typ c = RefreshType \<or> rc_typ c = OfflineType"
    and "rc_iat c \<le> int (now div NANOS_PER_SEC) + int (unat (tm_clock_skew M))"
    and "is_realm_issuer M (rc_iss c)"
    by simp_all
  obtain p where p: "token_payload (tm_lib M) token = Some p" "jw_refresh (tm_lib M) p = Some c"
    "\<And>x. probe_int (tm_lib M) ''exp'' p = Inr (Some x) \<Longrightarrow>
      int (now div NANOS_PER_SEC) \<le> x + int (unat (tm_clock_skew M))"
    using decode_token_payload [OF assms(1) dec] by blast
  have "probe_int (tm_lib M) ''exp'' p = Inr (Some (rc_exp c))"
    "json_get ''typ'' p = Some (JString (jwt_type_text (rc_typ c)))"
    using assms(1) p(2) unfolding jwt_laws_def by blast+
  with p(1,3) show "int (now div NANOS_PER_SEC) \<le> rc_exp c + int (unat (tm_clock_skew M))"
    and "Option.bind (token_payload (tm_lib M) token) (json_get ''typ'') = Some (JString (jwt_type_text (rc_typ c)))"
    by simp_all
qed

lemma validate_access_shaped_token_Inr:
  assumes "jwt_laws (tm_lib M)" and "validate_access_shaped_token M now token typ = Inr c"
  shows "at_typ c = typ"
    and "int (now div NANOS_PER_SEC) \<le> at_exp c + int (unat (tm_clock_skew M))"
    and "at_iat c \<le> int (now div NANOS_PER_SEC) + int (unat (tm_clock_skew M))"
    and "is_realm_issuer M (at_iss c)"
    and "Option.bind (token_payload (tm_lib M) token) (json_get ''typ'') = Some (JString (jwt_type_text typ))"
proof -
  have dec: "decode_token M (jw_access (tm_lib M)) True None now token = Inr c" and ty: "at_typ c = typ"
    and "at_iat c \<le> int (now div NANOS_PER_SEC) + int (unat (tm_clock_skew M))"
    and "is_realm_issuer M (at_iss c)"
    using assms(2) by (auto simp: validate_access_shaped_token_def and_then_Inr_iff split: if_splits)
  then show "at_typ c = typ"
    and "at_iat c \<le> int (now div NANOS_PER_SEC) + int (unat (tm_clock_skew M))"
    and "is_realm_issuer M (at_iss c)"
    by simp_all
  obtain p where p: "token_payload (tm_lib M) token = Some p" "jw_access (tm_lib M) p = Some c"
    "\<And>x. probe_int (tm_lib M) ''exp'' p = Inr (Some x) \<Longrightarrow>
      int (now div NANOS_PER_SEC) \<le> x + int (unat (tm_clock_skew M))"
    using decode_token_payload [OF assms(1) dec] by blast
  have "probe_int (tm_lib M) ''exp'' p = Inr (Some (at_exp c))"
    "json_get ''typ'' p = Some (JString (jwt_type_text (at_typ c)))"
    using assms(1) p(2) unfolding jwt_laws_def by blast+
  with p(1,3) ty show "int (now div NANOS_PER_SEC) \<le> at_exp c + int (unat (tm_clock_skew M))"
    and "Option.bind (token_payload (tm_lib M) token) (json_get ''typ'') = Some (JString (jwt_type_text typ))"
    by simp_all
qed

section \<open>Properties\<close>

text \<open>(C18) No token passes for two kinds: whatever the instants, at most one of the validators of
  refresh tokens, of access tokens and of browser session tokens accepts a given token.\<close>

theorem token_kinds_disjoint:
  assumes "jwt_laws (tm_lib M)"
  shows "length (filter id [is_ok (validate_refresh_token M t1 token), is_ok (validate_access_token M t2 token),
    is_ok (validate_sso_session_token M t3 token)]) \<le> 1"
proof -
  let ?kind = "Option.bind (token_payload (tm_lib M) token) (json_get ''typ'')"
  have r: "?kind = Some (JString (jwt_type_text RefreshType)) \<or> ?kind = Some (JString (jwt_type_text OfflineType))"
    if "is_ok (validate_refresh_token M t1 token)"
    using that validate_refresh_token_Inr(1,5) [OF assms, of t1 token] by (fastforce simp: is_ok_iff)
  have a: "?kind = Some (JString (jwt_type_text BearerType))" if "is_ok (validate_access_token M t2 token)"
    using that validate_access_shaped_token_Inr(5) [OF assms] by (auto simp: is_ok_iff validate_access_token_def)
  have s: "?kind = Some (JString (jwt_type_text SerializedIdType))"
    if "is_ok (validate_sso_session_token M t3 token)"
    using that validate_access_shaped_token_Inr(5) [OF assms]
    by (auto simp: is_ok_iff validate_sso_session_token_def)
  show ?thesis
    using r a s by (auto split: if_splits)
qed

text \<open>(C28) Bounds of an accepted refresh token: it is a refresh or offline token of one of the
  deployment's realms, was not issued in the future and is not expired, each up to the clock skew.\<close>

theorem accepted_refresh_token_bounds:
  assumes "jwt_laws (tm_lib M)" and "validate_refresh_token M now token = Inr c"
  shows "rc_typ c \<in> {RefreshType, OfflineType}
    \<and> (\<exists>base r. tm_issuer_base M = Some base \<and> issuer_realm_name (tm_url M) base (rc_iss c) = Some r)
    \<and> rc_iat c - int (unat (tm_clock_skew M)) \<le> int (now div NANOS_PER_SEC)
    \<and> int (now div NANOS_PER_SEC) \<le> rc_exp c + int (unat (tm_clock_skew M))"
  using validate_refresh_token_Inr [OF assms] by (auto simp: is_realm_issuer_def split: option.splits)

section \<open>An example\<close>

definition sample_refresh_claims :: refresh_token_claims where
  "sample_refresh_claims =
     \<lparr>rc_jti = ''j-1'', rc_iss = ''https://id.test/realms/default'', rc_sub = ''u-1'', rc_aud = [''app''],
      rc_exp = 100, rc_iat = 0, rc_typ = RefreshType, rc_sid = ''s-1'', rc_scope = scope_parse ''openid profile'',
      rc_cnf = None, rc_authorization_details = None, rc_resource = None\<rparr>"

definition sample_payload :: json where
  "sample_payload = JObject [(''exp'', JNumber ''100''), (''typ'', JString ''Refresh'')]"

definition sample_jwt_lib :: jwt_lib where
  "sample_jwt_lib =
     \<lparr>jw_base64 = Some,
      jw_json = (\<lambda>b. if b = ''h'' then Some (JObject [(''alg'', JString ''EdDSA''), (''kid'', JString ''k'')])
        else if b = ''p'' then Some sample_payload else None),
      jw_algorithm = (\<lambda>_. Some (Inr EdDsa)), jw_decoding_key = (\<lambda>k. Inr (jwk_material k)),
      jw_decode = (\<lambda>_ _ lw _ _ now t. if t = ''h.p.s'' \<and> now \<le> 100 + int (unat lw) then Some sample_payload else None),
      jw_verify_es512 = (\<lambda>_ _ _. Inr False),
      jw_i64 = (\<lambda>v. if v = JNumber ''100'' then Some 100 else None),
      jw_refresh = (\<lambda>p. if p = sample_payload then Some sample_refresh_claims else None),
      jw_access = (\<lambda>_. None)\<rparr>"

definition sample_token_manager :: token_manager where
  "sample_token_manager =
     \<lparr>tm_lib = sample_jwt_lib, tm_url = sample_base_lib,
      tm_issuer_base = Some \<lparr>rb_origin = sample_url [], rb_base_segments = []\<rparr>, tm_clock_skew = 60,
      tm_jwks = [\<lparr>jwk_kid = ''k'', jwk_material = ''m''\<rparr>]\<rparr>"

lemma sample_probe: "probe_int sample_jwt_lib ''exp'' sample_payload = Inr (Some 100)"
  by (simp add: probe_int_def sample_payload_def json_get_def sample_jwt_lib_def)

lemma sample_jwt_laws: "jwt_laws sample_jwt_lib"
proof -
  have "token_payload sample_jwt_lib ''h.p.s'' = Some sample_payload"
    by (simp add: token_payload_def sample_jwt_lib_def)
  moreover have "json_get ''typ'' sample_payload = Some (JString ''Refresh'')"
    by (simp add: sample_payload_def json_get_def)
  ultimately show ?thesis
    using sample_probe unfolding jwt_laws_def
    by (auto simp: sample_jwt_lib_def sample_refresh_claims_def split: if_splits)
qed

lemma sample_issuer: "issuer_realm_name sample_base_lib \<lparr>rb_origin = sample_url [], rb_base_segments = []\<rparr>
    ''https://id.test/realms/default'' = Some ''default''"
  by code_simp

text \<open>The sample token is accepted until a minute after its expiry.\<close>

lemma sample_token_accepted:
  assumes "now \<le> from_secs 160"
  shows "validate_refresh_token sample_token_manager now ''h.p.s'' = Inr sample_refresh_claims"
proof -
  have "now div NANOS_PER_SEC \<le> 160"
    using assms by (simp add: from_secs_def NANOS_PER_SEC_def)
  then have "decode_token sample_token_manager (jw_refresh sample_jwt_lib) False None now ''h.p.s''
      = Inr sample_refresh_claims"
    by (simp add: decode_token_def Let_def peek_jwt_header_def sample_token_manager_def sample_jwt_lib_def
        json_get_def json_as_str_def id_new_def)
  moreover have "is_realm_issuer sample_token_manager (rc_iss sample_refresh_claims)"
    using sample_issuer by (simp add: is_realm_issuer_def sample_token_manager_def sample_refresh_claims_def)
  moreover have "tm_lib sample_token_manager = sample_jwt_lib"
    by (simp add: sample_token_manager_def)
  moreover have "rc_iat sample_refresh_claims
      \<le> int (now div NANOS_PER_SEC) + int (unat (tm_clock_skew sample_token_manager))"
    unfolding sample_refresh_claims_def refresh_token_claims.simps by (intro add_nonneg_nonneg) simp_all
  moreover have "rc_typ sample_refresh_claims = RefreshType"
    by (simp add: sample_refresh_claims_def)
  ultimately show ?thesis
    by (simp add: validate_refresh_token_def not_less)
qed

theorem token_kinds_disjoint_witness:
  "is_ok (validate_refresh_token sample_token_manager 0 ''h.p.s'')
   \<and> \<not> is_ok (validate_access_token sample_token_manager 0 ''h.p.s'')"
proof -
  have laws: "jwt_laws (tm_lib sample_token_manager)"
    using sample_jwt_laws by (simp add: sample_token_manager_def)
  have "is_ok (validate_refresh_token sample_token_manager 0 ''h.p.s'')"
    by (simp add: sample_token_accepted)
  then show ?thesis
    using token_kinds_disjoint [OF laws, of 0 "''h.p.s''" 0 0] by (auto split: if_splits)
qed

theorem accepted_refresh_token_bounds_witness:
  "validate_refresh_token sample_token_manager (from_secs 160) ''h.p.s'' = Inr sample_refresh_claims
   \<and> int (from_secs 160 div NANOS_PER_SEC) \<le> rc_exp sample_refresh_claims + 60"
proof -
  have laws: "jwt_laws (tm_lib sample_token_manager)"
    using sample_jwt_laws by (simp add: sample_token_manager_def)
  have ok: "validate_refresh_token sample_token_manager (from_secs 160) ''h.p.s'' = Inr sample_refresh_claims"
    by (simp add: sample_token_accepted)
  from accepted_refresh_token_bounds [OF laws ok] show ?thesis
    using ok by (simp add: sample_token_manager_def)
qed

end
