(* ===== verification/Refresh_Grant.thy ===== *)
theory Refresh_Grant
  imports Code_Reuse Jwt_Validation
begin

text \<open>
  The refresh token grant of the token endpoint (\<open>routes/oidc.rs\<close>): revocation marker, validation,
  bindings, session, narrowing, and the atomic claim of the marker before the successor is
  issued.
\<close>

section \<open>Checks\<close>

definition refresh_token_of :: "token_ctx \<Rightarrow> string" where
  "refresh_token_of ctx = (case tr_refresh_token (tc_req ctx) of Some t \<Rightarrow> t | None \<Rightarrow> [])"

definition refresh_error_event :: "token_ctx \<Rightarrow> oidc_event" where
  "refresh_error_event ctx =
     \<lparr>ev_type = RefreshTokenError, ev_ip = tc_ip ctx, ev_client_id = Some (cli_id (tc_client ctx)),
      ev_user_id = None, ev_session_id = None, ev_error = Some ''invalid_grant'',
      ev_details = [(''grant_type'', ''refresh_token'')]\<rparr>"

text \<open>The key the rotated tokens are bound to.\<close>

definition refresh_binding :: "refresh_token_claims \<Rightarrow> string option \<Rightarrow> reply + string option" where
  "refresh_binding c proof_key =
     (case (rc_cnf c, proof_key) of
        (Some bound, Some p) \<Rightarrow> if bound = p then Inr (Some p) else Inl invalid_grant
      | (Some _, None) \<Rightarrow> Inl invalid_grant
      | (None, p) \<Rightarrow> Inr p)"

text \<open>The checks before the revocation marker counts: the \<open>bool\<close> asks for an error event.\<close>

definition check_refresh_token ::
    "token_manager \<Rightarrow> token_ctx \<Rightarrow> nat \<Rightarrow> (reply \<times> bool) + refresh_token_claims \<times> string option" where
  "check_refresh_token M ctx now =
     (case validate_refresh_token M now (refresh_token_of ctx) of
        Inl _ \<Rightarrow> Inl (invalid_grant, True)
      | Inr c \<Rightarrow>
          if audience_as_str (rc_aud c) \<noteq> cli_client_id (tc_client ctx) then Inl (invalid_grant, False)
          else if scope_contains (rc_scope c) MCP_SCOPE_STEP_UP then Inl (error_reply 400 InvalidScope, False)
          else (case refresh_binding c (tc_dpop_jkt ctx) of
             Inl r \<Rightarrow> Inl (r, False) | Inr jkt \<Rightarrow> Inr (c, jkt)))"

definition idle_secs_of :: "realm \<Rightarrow> user_session \<Rightarrow> u64" where
  "idle_secs_of realm session =
     (if us_offline session then rlm_offline_session_idle_timeout realm
      else if us_remember_me session then rlm_remember_me_session_idle_secs realm
      else rlm_sso_session_idle_timeout realm)"

definition narrow_scope :: "scope \<Rightarrow> scope \<Rightarrow> reply + scope" where
  "narrow_scope requested granted =
     (if scope_is_empty requested then Inr granted
      else if list_ex (\<lambda>s. \<not> scope_contains granted s) (tokens requested) then Inl (Refused 400 ''invalid_scope'')
      else Inr requested)"

record refresh_grant =
  rg_session :: user_session
  rg_user :: user
  rg_scope :: scope
  rg_details :: "json list option"
  rg_jkt :: "string option"

text \<open>Scope, authorization details and resource are at most the granted ones.\<close>

definition narrow_refresh ::
    "grant_env \<Rightarrow> token_ctx \<Rightarrow> refresh_token_claims \<Rightarrow> reply + scope \<times> json list option" where
  "narrow_refresh E ctx c =
     (let req = tc_req ctx in
      and_then (narrow_scope (tr_scope req) (rc_scope c)) (\<lambda>scope.
      and_then (map_err (error_reply 400) (narrow_details ''requested authorization_details exceed the granted details''
          (tr_authorization_details req) (rc_authorization_details c))) (\<lambda>details.
      if (case tr_resource req of Some r \<Rightarrow> rc_resource c \<noteq> Some r | None \<Rightarrow> False)
      then Inl (error_reply 400 (InvalidTarget ''resource does not match the resource granted with the refresh token''))
      else and_then (map_err (error_reply 400)
          (validate_resource_param E (rlm_name (tc_realm ctx)) (rc_resource c))) (\<lambda>_. Inr (scope, details)))))"

text \<open>Session and user; an idle session is deleted, a live one is refreshed.\<close>

definition check_refresh_session ::
    "'s dist_cache \<Rightarrow> grant_env \<Rightarrow> token_ctx \<Rightarrow> nat \<Rightarrow> refresh_token_claims \<Rightarrow> string option
     \<Rightarrow> 's server \<Rightarrow> (reply + refresh_grant) \<times> 's server" where
  "check_refresh_session C E ctx now c jkt st =
     (let realm = tc_realm ctx; rid = rlm_id realm in
      if rlm_not_before realm > 0 \<and> rc_iat c < rlm_not_before realm
      then (Inl invalid_grant, emit_oidc_event E rid (refresh_error_event ctx) st)
      else (case get_user_session rid (rc_sid c) st of
        None \<Rightarrow> (Inl invalid_grant, st)
      | Some session \<Rightarrow>
          (case ge_get_user E rid (us_user_id session) of
            Inr (Some user) \<Rightarrow>
              if \<not> usr_enabled user then (Inl invalid_grant, st)
              else if utc now - us_last_session_refresh session > int (secs (idle_secs_of realm session))
              then (Inl invalid_grant, invalidate_session C now rid (us_id session) (tc_ids ctx 0)
                      (delete_user_session rid (us_id session) st))
              else (let session' = session\<lparr>us_last_session_refresh := utc now\<rparr>;
                        st' = snd (update_user_session rid session' st)
                    in (map_sum id (\<lambda>(scope, details). \<lparr>rg_session = session', rg_user = user,
                          rg_scope = scope, rg_details = details, rg_jkt = jkt\<rparr>) (narrow_refresh E ctx c), st'))
          | _ \<Rightarrow> (Inl invalid_grant, st))))"

section \<open>Issuing the successor\<close>

definition refresh_tokens ::
    "grant_env \<Rightarrow> token_ctx \<Rightarrow> nat \<Rightarrow> refresh_token_claims \<Rightarrow> refresh_grant \<Rightarrow> reply + token_response" where
  "refresh_tokens E ctx now c g =
     (let realm = tc_realm ctx; client = tc_client ctx; user = rg_user g; session = rg_session g;
          scope = rg_scope g;
          overlay0 = (case ge_claims_overlay E (rlm_id realm) client user (tokens scope) of
             Inr m \<Rightarrow> m | Inl _ \<Rightarrow> Map.empty);
          overlay1 = (case us_impersonator session of
             Some i \<Rightarrow> overlay0(''impersonator'' \<mapsto> JString i) | None \<Rightarrow> overlay0);
          overlay = bind_resource_aud_overlay
             (bind_authorization_details_overlay (bind_cnf_overlay (Some overlay1) (rg_jkt g)) (rg_details g))
             (cli_client_id client) (rc_resource c)
      in case ge_access_token E (tc_ids ctx 1) now user client realm (tokens scope) (us_id session) None overlay of
           Inl e \<Rightarrow> Inl (error_reply 500 e)
         | Inr access \<Rightarrow>
             (let refresh = (case ge_refresh_token E (tc_ids ctx 2) now user client realm (us_id session)
                    (tokens (rc_scope c)) (us_offline session) (rg_jkt g) (rc_authorization_details c)
                    (rc_resource c) of Inr t \<Rightarrow> Some t | Inl _ \<Rightarrow> None);
                  id_token = (if scope_contains scope ''openid'' then
                    (case ge_id_token E (tc_ids ctx 3) now user client realm None (us_auth_time session)
                       (us_id session) access None None None of Inr t \<Rightarrow> Some t | Inl _ \<Rightarrow> None) else None)
              in Inr \<lparr>tp_access_token = access, tp_token_type = token_type (rg_jkt g \<noteq> None),
                      tp_expires_in = rlm_access_token_lifespan realm, tp_refresh_token = refresh,
                      tp_id_token = id_token, tp_scope = Some (scope_join scope '' ''),
                      tp_issued_token_type = None, tp_authorization_details = rg_details g\<rparr>))"

definition refresh_event :: "token_ctx \<Rightarrow> refresh_grant \<Rightarrow> oidc_event" where
  "refresh_event ctx g =
     \<lparr>ev_type = RefreshTokenEvent, ev_ip = tc_ip ctx, ev_client_id = Some (cli_id (tc_client ctx)),
      ev_user_id = Some (usr_id (rg_user g)), ev_session_id = Some (us_id (rg_session g)), ev_error = None,
      ev_details = [(''grant_type'', ''refresh_token''), (''username'', usr_username (rg_user g))]\<rparr>"

text \<open>A revoked token: the session it belongs to is ended.\<close>

definition refresh_replay_response ::
    "'s dist_cache \<Rightarrow> grant_env \<Rightarrow> token_ctx \<Rightarrow> nat \<Rightarrow> refresh_token_claims \<Rightarrow> 's server \<Rightarrow> reply \<times> 's server" where
  "refresh_replay_response C E ctx now c st =
     (let rid = rlm_id (tc_realm ctx);
          st' = (if issuer_matches_realm (rc_iss c) (rlm_name (tc_realm ctx))
            then invalidate_session C now rid (rc_sid c) (tc_ids ctx 0) (delete_user_session rid (rc_sid c) st)
            else st)
      in (invalid_grant, emit_oidc_event E rid (refresh_error_event ctx) st'))"

text \<open>The lifetime of the marker, in seconds: what is left of the token's, at least one.\<close>

definition marker_secs :: "nat \<Rightarrow> refresh_token_claims \<Rightarrow> u64" where
  "marker_secs now c = max (of_int (max 0 (rc_exp c - int (unat (now_secs now))))) 1"

section \<open>A refresh as a process\<close>

datatype refresh_pc =
    RefStart | RefReplay refresh_token_claims | RefChecked refresh_token_claims "string option"
  | RefClaim refresh_token_claims refresh_grant | RefIssue refresh_token_claims refresh_grant
  | RefDone reply

definition refresh_step ::
    "'s dist_cache \<Rightarrow> grant_env \<Rightarrow> token_manager \<Rightarrow> token_ctx \<Rightarrow> nat \<Rightarrow> refresh_pc \<Rightarrow> 's server
     \<Rightarrow> refresh_pc \<times> 's server" where
  "refresh_step C E M ctx now pc st =
     (let rid = rlm_id (tc_realm ctx); key = revoked_refresh_key (refresh_token_of ctx) in
      case pc of
        RefStart \<Rightarrow>
          (case on_cache (dc_get C now key) st of
             (Inl e, st') \<Rightarrow> (RefDone (cache_failure_response e), st')
           | (Inr marker, st') \<Rightarrow>
               (case check_refresh_token M ctx now of
                  Inl (r, report) \<Rightarrow>
                    (RefDone r, if report then emit_oidc_event E rid (refresh_error_event ctx) st' else st')
                | Inr (c, jkt) \<Rightarrow> (if marker \<noteq> None then RefReplay c else RefChecked c jkt, st')))
      | RefReplay c \<Rightarrow> apfst RefDone (refresh_replay_response C E ctx now c st)
      | RefChecked c jkt \<Rightarrow>
          (case check_refresh_session C E ctx now c jkt st of
             (Inl r, st') \<Rightarrow> (RefDone r, st') | (Inr g, st') \<Rightarrow> (RefClaim c g, st'))
      | RefClaim c g \<Rightarrow>
          (case on_cache (dc_increment C now key (Some (secs (marker_secs now c)))) st of
             (Inl e, st') \<Rightarrow> (RefDone (cache_failure_response e), st')
           | (Inr n, st') \<Rightarrow> (if n = 1 then RefIssue c g else RefReplay c, st'))
      | RefIssue c g \<Rightarrow>
          (case refresh_tokens E ctx now c g of
             Inl r \<Rightarrow> (RefDone r, st)
           | Inr t \<Rightarrow> (RefDone (Tokens t), emit_oidc_event E rid (refresh_event ctx g) st))
      | RefDone r \<Rightarrow> (RefDone r, st))"

section \<open>The claim of the marker\<close>

lemma marker_outlives_token:
  assumes "t < from_secs (nat x)" and "rc_exp c = x" and "x < 2 ^ 63"
  shows "from_secs (nat x) \<le> t + secs (marker_secs t c)"
proof -
  let ?s = "t div NANOS_PER_SEC"
  have s: "?s < nat x"
    by (rule secs_div(2) [OF assms(1)])
  then have "unat (now_secs t) = ?s"
    using assms(3) by (simp add: now_secs_def unat_of_nat_u64)
  moreover have "max 0 (x - int ?s) = x - int ?s"
    using s by linarith
  ultimately have "marker_secs t c = max (of_int (x - int ?s)) 1"
    using assms(2) by (simp add: marker_secs_def)
  also have "(of_int (x - int ?s) :: u64) = of_nat (nat x - ?s)"
    using s by (simp add: of_nat_diff)
  finally have "(of_nat (nat x - ?s) :: u64) \<le> marker_secs t c"
    by simp
  then have "nat x - ?s \<le> unat (marker_secs t c)"
    using assms(3) by (simp add: word_le_nat_alt unat_of_nat_u64)
  then have "from_secs (nat x - ?s) \<le> secs (marker_secs t c)"
    by (simp add: secs_def from_secs_def)
  moreover have "from_secs (nat x) = from_secs (nat x - ?s) + ?s * NANOS_PER_SEC"
    using s by (simp add: from_secs_def diff_mult_distrib)
  ultimately show ?thesis
    using secs_div(1) [of t] by linarith
qed

fun holds_refresh :: "refresh_pc \<Rightarrow> bool" where
  "holds_refresh (RefIssue c g) = True"
| "holds_refresh (RefDone (Tokens t)) = True"
| "holds_refresh _ = False"

fun before_claim :: "refresh_pc \<Rightarrow> bool" where
  "before_claim RefStart = True"
| "before_claim (RefChecked c jkt) = True"
| "before_claim (RefClaim c g) = True"
| "before_claim _ = False"

fun pc_claims :: "refresh_pc \<Rightarrow> refresh_token_claims option" where
  "pc_claims (RefReplay c) = Some c"
| "pc_claims (RefChecked c jkt) = Some c"
| "pc_claims (RefClaim c g) = Some c"
| "pc_claims (RefIssue c g) = Some c"
| "pc_claims _ = None"

lemma refresh_key_differs [simp]:
  "revoked_refresh_key t \<noteq> session_key r s" "revoked_refresh_key t \<noteq> session_tombstone_key r s"
  "revoked_refresh_key t = revoked_refresh_key t' \<longleftrightarrow> t = t'"
  by (simp_all add: key_defs)

lemma refresh_refusals [simp]:
  "\<not> holds_refresh (RefDone invalid_grant)" "\<not> holds_refresh (RefDone (cache_failure_response e))"
  "\<not> holds_refresh (RefDone (error_reply n e))" "\<not> holds_refresh (RefDone (Refused n c))"
  by (simp_all add: invalid_grant_def cache_failure_response_def error_reply_def)

lemma check_refresh_token_refuses:
  "check_refresh_token M ctx now = Inl (r, b) \<Longrightarrow> \<not> holds_refresh (RefDone r)"
  by (auto simp: check_refresh_token_def refresh_binding_def split: sum.splits if_splits option.splits)

lemma check_refresh_token_Inr:
  "check_refresh_token M ctx now = Inr (c, jkt) \<Longrightarrow>
     validate_refresh_token M now (refresh_token_of ctx) = Inr c
     \<and> audience_as_str (rc_aud c) = cli_client_id (tc_client ctx)
     \<and> \<not> scope_contains (rc_scope c) MCP_SCOPE_STEP_UP \<and> refresh_binding c (tc_dpop_jkt ctx) = Inr jkt"
  by (auto simp: check_refresh_token_def split: sum.splits if_splits)

lemma narrow_refresh_refuses: "narrow_refresh E ctx c = Inl r \<Longrightarrow> \<not> holds_refresh (RefDone r)"
  by (auto simp: narrow_refresh_def Let_def and_then_Inl_iff narrow_scope_def map_err_def
      split: if_splits sum.splits)

lemma check_refresh_session_refuses:
  "check_refresh_session C E ctx now c jkt st = (Inl r, st') \<Longrightarrow> \<not> holds_refresh (RefDone r)"
  by (auto simp: check_refresh_session_def Let_def map_sum_def dest: narrow_refresh_refuses
      split: if_splits sum.splits option.splits)

lemma refresh_tokens_refuses: "refresh_tokens E ctx now c g = Inl r \<Longrightarrow> \<not> holds_refresh (RefDone r)"
  by (auto simp: refresh_tokens_def Let_def split: sum.splits)

context distributed_cache
begin

lemma invalidate_session_view:
  "t \<le> u \<Longrightarrow> k \<noteq> session_key r s \<Longrightarrow> k \<noteq> session_tombstone_key r s \<Longrightarrow>
     view u (sv_cache (invalidate_session C t r s fresh st)) k = view u (sv_cache st) k"
  by (simp add: invalidate_session_def Let_def on_caches set_view delete_view put_def)

lemma sv_cache_delete_session [simp]:
  "sv_cache (delete_user_session r s st) = sv_cache st" "sv_cache (snd (update_user_session r us st)) = sv_cache st"
  by (simp_all add: delete_user_session_def update_user_session_def)

lemma check_refresh_session_view:
  "t \<le> u \<Longrightarrow> view u (sv_cache (snd (check_refresh_session C E ctx t c jkt st))) (revoked_refresh_key tok)
     = view u (sv_cache st) (revoked_refresh_key tok)"
  by (simp add: check_refresh_session_def Let_def invalidate_session_view split: sum.split option.split)

text \<open>Only the claim of the same token touches the marker.\<close>

lemma refresh_step_other:
  assumes "t \<le> u" and "refresh_token_of ctx \<noteq> tok \<or> (\<forall>c g. pc \<noteq> RefClaim c g)"
  shows "view u (sv_cache (snd (refresh_step C E M ctx t pc st))) (revoked_refresh_key tok)
    = view u (sv_cache st) (revoked_refresh_key tok)"
proof (cases pc)
  case (RefChecked c jkt)
  then show ?thesis
    using check_refresh_session_view [OF assms(1), of E ctx c jkt st tok]
    by (cases "check_refresh_session C E ctx t c jkt st")
      (auto simp: refresh_step_def Let_def split: sum.splits)
qed (use assms in \<open>auto simp: refresh_step_def Let_def on_caches refresh_replay_response_def
    invalidate_session_view get_view increment_view put_def split: sum.split option.split prod.split\<close>)

lemma refresh_step_pc:
  assumes "refresh_step C E M ctx t pc st = (pc', st')" and "\<forall>c g. pc \<noteq> RefClaim c g"
  shows "holds_refresh pc' \<Longrightarrow> holds_refresh pc" and "before_claim pc' \<Longrightarrow> before_claim pc"
    and "pc_claims pc' = Some c \<Longrightarrow> pc_claims pc = Some c \<or> validate_refresh_token M t (refresh_token_of ctx) = Inr c"
proof -
  have "(holds_refresh pc' \<longrightarrow> holds_refresh pc) \<and> (before_claim pc' \<longrightarrow> before_claim pc)
    \<and> (pc_claims pc' = Some c \<longrightarrow> pc_claims pc = Some c \<or> validate_refresh_token M t (refresh_token_of ctx) = Inr c)"
  proof (cases pc)
    case RefStart
    then show ?thesis
      using assms by (auto simp: refresh_step_def Let_def on_caches dest: check_refresh_token_refuses
          check_refresh_token_Inr split: sum.splits if_splits)
  next
    case (RefChecked c jkt)
    then show ?thesis
      using assms by (auto simp: refresh_step_def Let_def dest: check_refresh_session_refuses
          split: sum.splits prod.splits)
  next
    case (RefIssue c g)
    then show ?thesis
      using assms by (auto simp: refresh_step_def Let_def split: sum.splits)
  qed (use assms in \<open>auto simp: refresh_step_def Let_def refresh_replay_response_def\<close>)
  then show "holds_refresh pc' \<Longrightarrow> holds_refresh pc" and "before_claim pc' \<Longrightarrow> before_claim pc"
    and "pc_claims pc' = Some c \<Longrightarrow> pc_claims pc = Some c \<or> validate_refresh_token M t (refresh_token_of ctx) = Inr c"
    by blast+
qed

lemma refresh_claim_past:
  "refresh_step C E M ctx t (RefClaim c g) st = (pc', st') \<Longrightarrow> \<not> before_claim pc'"
  by (auto simp: refresh_step_def Let_def on_caches split: if_splits prod.splits)

lemma refresh_step_claim:
  assumes "refresh_step C E M ctx t (RefClaim c g) st = (pc', st')"
    and "counter_at x m (view t (sv_cache st) (revoked_refresh_key (refresh_token_of ctx)))"
    and "x \<le> t + secs (marker_secs t c)" and "Suc m < 2 ^ 64"
  shows "holds_refresh pc' \<longleftrightarrow> m = 0" and "\<not> before_claim pc'" and "pc_claims pc' = Some c"
    and "t \<le> u \<Longrightarrow> u < x \<Longrightarrow>
      counter_at x (Suc m) (view u (sv_cache st') (revoked_refresh_key (refresh_token_of ctx)))"
proof -
  let ?inc = "dc_increment C t (revoked_refresh_key (refresh_token_of ctx)) (Some (secs (marker_secs t c))) (sv_cache st)"
  note inc = increment_counter [OF assms(2,3)]
  have "(of_nat (Suc m) :: u64) = 1 \<longleftrightarrow> m = 0"
  proof (cases "m = 0")
    case False
    then have "unat (of_nat (Suc m) :: u64) \<noteq> unat (1 :: u64)"
      unfolding unat_of_nat_u64 [OF assms(4)] by simp
    with False show ?thesis
      by metis
  qed simp
  then have "pc' = (if m = 0 then RefIssue c g else RefReplay c) \<and> st' = st\<lparr>sv_cache := snd ?inc\<rparr>"
    using assms(1) inc(1) by (auto simp: refresh_step_def Let_def on_cache_eq simp del: of_nat_Suc)
  then show "holds_refresh pc' \<longleftrightarrow> m = 0" and "\<not> before_claim pc'" and "pc_claims pc' = Some c"
    and "t \<le> u \<Longrightarrow> u < x \<Longrightarrow>
      counter_at x (Suc m) (view u (sv_cache st') (revoked_refresh_key (refresh_token_of ctx)))"
    using inc(2) by simp_all
qed

end

definition refresh_system_step ::
    "'s dist_cache \<Rightarrow> grant_env \<Rightarrow> token_manager \<Rightarrow> (nat \<Rightarrow> token_ctx) \<Rightarrow> string \<Rightarrow> nat
     \<Rightarrow> (refresh_pc, 's server) system \<Rightarrow> (refresh_pc, 's server) system \<Rightarrow> bool" where
  "refresh_system_step C E M ctxs tok =
     system_step (\<lambda>i. refresh_step C E M (ctxs i)) (server_spares C {revoked_refresh_key tok})"

definition rotates :: "(nat \<Rightarrow> token_ctx) \<Rightarrow> string \<Rightarrow> nat \<Rightarrow> refresh_pc \<Rightarrow> bool" where
  "rotates ctxs tok i pc \<longleftrightarrow> refresh_token_of (ctxs i) = tok \<and> holds_refresh pc"

definition past_claim :: "(nat \<Rightarrow> token_ctx) \<Rightarrow> string \<Rightarrow> nat \<Rightarrow> refresh_pc \<Rightarrow> bool" where
  "past_claim ctxs tok i pc \<longleftrightarrow> refresh_token_of (ctxs i) = tok \<and> \<not> before_claim pc"

text \<open>The marker counts the claims; at most one of them, the first, rotates the token.\<close>

definition refresh_inv ::
    "(nat \<Rightarrow> 's \<Rightarrow> string \<Rightarrow> entry option) \<Rightarrow> (nat \<Rightarrow> token_ctx) \<Rightarrow> string \<Rightarrow> int \<Rightarrow> nat
     \<Rightarrow> (refresh_pc, 's server) system \<Rightarrow> bool" where
  "refresh_inv view ctxs tok x n \<sigma> \<longleftrightarrow>
     (\<exists>m. counter_at (from_secs (nat x)) m (view (sys_now \<sigma>) (sv_cache (sys_state \<sigma>)) (revoked_refresh_key tok))
        \<and> how_many n (rotates ctxs tok) (sys_pcs \<sigma>) \<le> of_bool (m \<noteq> 0)
        \<and> m \<le> how_many n (past_claim ctxs tok) (sys_pcs \<sigma>))
     \<and> (\<forall>i c. refresh_token_of (ctxs i) = tok \<and> pc_claims (sys_pcs \<sigma> i) = Some c \<longrightarrow> rc_exp c = x)"

context distributed_cache
begin

lemma refresh_inv_request:
  assumes inv: "refresh_inv view ctxs tok x n \<sigma>" and i: "i < n" and t: "sys_now \<sigma> \<le> t" "t < from_secs (nat x)"
    and step: "refresh_step C E M (ctxs i) t (sys_pcs \<sigma> i) (sys_state \<sigma>) = (pc, st)"
    and exp: "\<And>t c. validate_refresh_token M t tok = Inr c \<Longrightarrow> rc_exp c = x" and x: "x < 2 ^ 63" and n: "n < 2 ^ 64"
  shows "refresh_inv view ctxs tok x n \<lparr>sys_state = st, sys_now = t, sys_pcs = (sys_pcs \<sigma>)(i := pc)\<rparr>"
proof -
  let ?k = "revoked_refresh_key tok" and ?X = "from_secs (nat x)"
  let ?rot = "\<lambda>f. how_many n (rotates ctxs tok) f" and ?past = "\<lambda>f. how_many n (past_claim ctxs tok) f"
  obtain m where m: "counter_at ?X m (view (sys_now \<sigma>) (sv_cache (sys_state \<sigma>)) ?k)"
      "?rot (sys_pcs \<sigma>) \<le> of_bool (m \<noteq> 0)" "m \<le> ?past (sys_pcs \<sigma>)"
    and claims: "\<And>i c. refresh_token_of (ctxs i) = tok \<Longrightarrow> pc_claims (sys_pcs \<sigma> i) = Some c \<Longrightarrow> rc_exp c = x"
    using inv unfolding refresh_inv_def by blast
  have at_t: "counter_at ?X m (view t (sv_cache (sys_state \<sigma>)) ?k)"
    using view_counter [OF m(1) t(1)] t(2) by simp
  have rot: "?rot ((sys_pcs \<sigma>)(i := pc)) + of_bool (rotates ctxs tok i (sys_pcs \<sigma> i))
      = ?rot (sys_pcs \<sigma>) + of_bool (rotates ctxs tok i pc)"
    and past: "?past ((sys_pcs \<sigma>)(i := pc)) + of_bool (past_claim ctxs tok i (sys_pcs \<sigma> i))
      = ?past (sys_pcs \<sigma>) + of_bool (past_claim ctxs tok i pc)"
    by (rule how_many_upd [OF i])+
  show ?thesis
  proof (cases "refresh_token_of (ctxs i) = tok \<and> (\<exists>c g. sys_pcs \<sigma> i = RefClaim c g)")
    case True
    then obtain c g where tok: "refresh_token_of (ctxs i) = tok" and pc: "sys_pcs \<sigma> i = RefClaim c g"
      by blast
    note step' = step [unfolded pc]
    have "past_claim ctxs tok i pc" "\<not> past_claim ctxs tok i (sys_pcs \<sigma> i)"
      using refresh_claim_past [OF step'] tok pc by (simp_all add: past_claim_def)
    then have past': "?past ((sys_pcs \<sigma>)(i := pc)) = Suc (?past (sys_pcs \<sigma>))"
      using past by simp
    then have "Suc m \<le> n"
      using m(3) how_many_le [of n "past_claim ctxs tok" "(sys_pcs \<sigma>)(i := pc)"] by simp
    then have small: "Suc m < 2 ^ 64"
      using n by simp
    have c: "rc_exp c = x"
      using claims [of i c] tok pc by simp
    note outlives = marker_outlives_token [OF t(2) this x]
    have at_t': "counter_at ?X m (view t (sv_cache (sys_state \<sigma>)) (revoked_refresh_key (refresh_token_of (ctxs i))))"
      using at_t tok by simp
    have claim: "holds_refresh pc \<longleftrightarrow> m = 0" "pc_claims pc = Some c"
        "counter_at ?X (Suc m) (view t (sv_cache st) ?k)"
      using refresh_step_claim(1,3) [OF step' at_t' outlives small]
        refresh_step_claim(4) [OF step' at_t' outlives small order.refl t(2)] tok by simp_all
    have "?rot ((sys_pcs \<sigma>)(i := pc)) \<le> 1"
      using rot m(2) claim(1) tok pc by (cases "m = 0") (simp_all add: rotates_def)
    then show ?thesis
      unfolding refresh_inv_def using claim m(3) past' claims c
      by (intro conjI exI [of _ "Suc m"]) auto
  next
    case False
    then have other: "refresh_token_of (ctxs i) \<noteq> tok \<or> (\<forall>c g. sys_pcs \<sigma> i \<noteq> RefClaim c g)"
      by blast
    have "view t (sv_cache st) ?k = view t (sv_cache (sys_state \<sigma>)) ?k"
      using refresh_step_other [OF order.refl [of t] other, of E M "sys_state \<sigma>"] step by simp
    moreover have "rotates ctxs tok i pc \<Longrightarrow> rotates ctxs tok i (sys_pcs \<sigma> i)"
        "past_claim ctxs tok i (sys_pcs \<sigma> i) \<Longrightarrow> past_claim ctxs tok i pc"
        "refresh_token_of (ctxs i) = tok \<Longrightarrow> pc_claims pc = Some c \<Longrightarrow> rc_exp c = x" for c
      using other refresh_step_pc [OF step] claims [of i c] exp [of t c]
      by (auto simp: rotates_def past_claim_def)
    then have "?rot ((sys_pcs \<sigma>)(i := pc)) \<le> ?rot (sys_pcs \<sigma>)" "?past (sys_pcs \<sigma>) \<le> ?past ((sys_pcs \<sigma>)(i := pc))"
      "\<forall>c. refresh_token_of (ctxs i) = tok \<and> pc_claims pc = Some c \<longrightarrow> rc_exp c = x"
      using rot past by (auto simp: of_bool_def split: if_splits)
    ultimately show ?thesis
      unfolding refresh_inv_def using at_t m(2,3) claims
      by (intro conjI exI [of _ m]) auto
  qed
qed

lemma refresh_rotates_once:
  assumes run: "(refresh_system_step C E M ctxs tok n)\<^sup>*\<^sup>* (system_init RefStart st t0) \<sigma>"
    and now: "sys_now \<sigma> < from_secs (nat x)"
    and exp: "\<And>t c. validate_refresh_token M t tok = Inr c \<Longrightarrow> rc_exp c = x"
    and x: "x < 2 ^ 63" and n: "n < 2 ^ 64"
    and fresh: "view t0 (sv_cache st) (revoked_refresh_key tok) = None"
  shows "how_many n (rotates ctxs tok) (sys_pcs \<sigma>) \<le> 1"
proof -
  let ?I = "refresh_inv view ctxs tok x n"
  have "?I \<sigma>"
    using run [unfolded refresh_system_step_def] now
  proof (rule system_invariant [where W = "\<lambda>t. t < from_secs (nat x)"])
    show "?I (system_init RefStart st t0)"
      using fresh by (auto simp: refresh_inv_def system_init_def how_many_0 rotates_def
          intro!: exI [of _ "0 :: nat"])
    fix \<sigma> \<sigma>'
    assume "system_step (\<lambda>i. refresh_step C E M (ctxs i)) (server_spares C {revoked_refresh_key tok}) n \<sigma> \<sigma>'"
      and inv: "?I \<sigma>" and w: "sys_now \<sigma>' < from_secs (nat x)"
    then show "?I \<sigma>'"
    proof cases
      case (request i t pc s)
      then show ?thesis
        using refresh_inv_request [OF inv request(2,3) _ request(4) exp x n] w by simp
    next
      case (other t s)
      let ?k = "revoked_refresh_key tok"
      obtain m where m: "counter_at (from_secs (nat x)) m (view (sys_now \<sigma>) (sv_cache (sys_state \<sigma>)) ?k)"
          "how_many n (rotates ctxs tok) (sys_pcs \<sigma>) \<le> of_bool (m \<noteq> 0)"
          "m \<le> how_many n (past_claim ctxs tok) (sys_pcs \<sigma>)"
        using inv unfolding refresh_inv_def by blast
      have "counter_at (from_secs (nat x)) m (view t (sv_cache (sys_state \<sigma>)) ?k)"
        using view_counter [OF m(1) other(2)] w other(1) by simp
      moreover have "view t (sv_cache s) ?k = view t (sv_cache (sys_state \<sigma>)) ?k"
        using other(3) by (auto simp: server_spares_def intro: spares_view)
      ultimately show ?thesis
        using inv m unfolding refresh_inv_def other(1) by (auto intro!: exI [of _ m])
    qed
  qed simp
  then show ?thesis
    by (auto simp: refresh_inv_def of_bool_def split: if_splits)
qed

end

text \<open>Claims are a function of the token.\<close>

lemma refresh_claims_unique:
  assumes "jwt_laws (tm_lib M)" and "validate_refresh_token M t token = Inr c"
    and "validate_refresh_token M t' token = Inr c'"
  shows "c = c'"
proof -
  have "decode_token M (jw_refresh (tm_lib M)) False None t token = Inr c"
    "decode_token M (jw_refresh (tm_lib M)) False None t' token = Inr c'"
    using assms(2,3) by (auto simp: validate_refresh_token_def and_then_Inr_iff split: if_splits)
  then show ?thesis
    using decode_token_payload [OF assms(1)] by (metis option.inject)
qed

end
