(* ===== verification/Refresh_Flow.thy ===== *)
theory Refresh_Flow
  imports Refresh_Grant
begin

text \<open>
  Whole refresh requests: what a refreshed token is bound to, at most one rotation of a token, the
  end of the session when a token is replayed, and two gaps of the revocation marker.
\<close>

abbreviation refresh_run ::
    "'s dist_cache \<Rightarrow> grant_env \<Rightarrow> token_manager \<Rightarrow> token_ctx \<Rightarrow> nat list \<Rightarrow> refresh_pc \<Rightarrow> 's server
     \<Rightarrow> refresh_pc \<times> 's server" where
  "refresh_run C E M ctx \<equiv> run_alone (refresh_step C E M ctx)"

section \<open>Steps\<close>

lemma refresh_step_simps:
  "refresh_step C E M ctx t (RefReplay c) st = apfst RefDone (refresh_replay_response C E ctx t c st)"
  "refresh_step C E M ctx t (RefChecked c jkt) st =
     (case check_refresh_session C E ctx t c jkt st of
        (Inl r, st') \<Rightarrow> (RefDone r, st') | (Inr g, st') \<Rightarrow> (RefClaim c g, st'))"
  "refresh_step C E M ctx t (RefIssue c g) st =
     (case refresh_tokens E ctx t c g of
        Inl r \<Rightarrow> (RefDone r, st)
      | Inr tk \<Rightarrow> (RefDone (Tokens tk), emit_oidc_event E (rlm_id (tc_realm ctx)) (refresh_event ctx g) st))"
  "refresh_step C E M ctx t (RefDone r) st = (RefDone r, st)"
  by (simp_all add: refresh_step_def Let_def)

lemma run_done: "refresh_run C E M ctx ts (RefDone r) st = (RefDone r, st)"
  by (induction ts) (simp_all add: refresh_step_simps)

lemma check_refresh_session_Inr:
  assumes "check_refresh_session C E ctx now c jkt st = (Inr g, st')"
  obtains s scope details where "get_user_session (rlm_id (tc_realm ctx)) (rc_sid c) st = Some s"
    and "ge_get_user E (rlm_id (tc_realm ctx)) (us_user_id s) = Inr (Some (rg_user g))"
    and "usr_enabled (rg_user g)" and "narrow_refresh E ctx c = Inr (rg_scope g, rg_details g)"
    and "utc now - us_last_session_refresh s \<le> int (secs (idle_secs_of (tc_realm ctx) s))"
    and "rlm_not_before (tc_realm ctx) \<le> 0 \<or> rlm_not_before (tc_realm ctx) \<le> rc_iat c"
    and "rg_session g = s\<lparr>us_last_session_refresh := utc now\<rparr>" and "rg_jkt g = jkt"
    and "st' = snd (update_user_session (rlm_id (tc_realm ctx)) (rg_session g) st)"
proof -
  note h = assms [unfolded check_refresh_session_def Let_def]
  from h obtain s where s: "get_user_session (rlm_id (tc_realm ctx)) (rc_sid c) st = Some s"
    by (cases "get_user_session (rlm_id (tc_realm ctx)) (rc_sid c) st") (auto split: if_splits)
  from h s obtain user where user: "ge_get_user E (rlm_id (tc_realm ctx)) (us_user_id s) = Inr (Some user)"
    by (auto split: if_splits sum.splits option.splits)
  from h s user obtain sc ds where n: "narrow_refresh E ctx c = Inr (sc, ds)"
    by (cases "narrow_refresh E ctx c") (auto split: if_splits)
  show thesis
    using h s user n that [of s] by (auto split: if_splits)
qed

lemma check_refresh_session_succeeds:
  assumes "rlm_not_before (tc_realm ctx) = 0" and "get_user_session (rlm_id (tc_realm ctx)) (rc_sid c) st = Some s"
    and "ge_get_user E (rlm_id (tc_realm ctx)) (us_user_id s) = Inr (Some user)" and "usr_enabled user"
    and "utc now - us_last_session_refresh s \<le> int (secs (idle_secs_of (tc_realm ctx) s))"
    and "narrow_refresh E ctx c = Inr (sc, ds)"
  shows "check_refresh_session C E ctx now c jkt st =
    (Inr \<lparr>rg_session = s\<lparr>us_last_session_refresh := utc now\<rparr>, rg_user = user, rg_scope = sc, rg_details = ds,
      rg_jkt = jkt\<rparr>, snd (update_user_session (rlm_id (tc_realm ctx)) (s\<lparr>us_last_session_refresh := utc now\<rparr>) st))"
  using assms by (simp add: check_refresh_session_def Let_def)

context distributed_cache
begin

lemma refresh_start:
  "refresh_step C E M ctx t RefStart st =
     (let st' = st\<lparr>sv_cache := snd (dc_get C t (revoked_refresh_key (refresh_token_of ctx)) (sv_cache st))\<rparr>
      in case check_refresh_token M ctx t of
           Inl (r, report) \<Rightarrow>
             (RefDone r, if report then emit_oidc_event E (rlm_id (tc_realm ctx)) (refresh_error_event ctx) st' else st')
         | Inr (c, jkt) \<Rightarrow>
             (if view t (sv_cache st) (revoked_refresh_key (refresh_token_of ctx)) \<noteq> None
              then RefReplay c else RefChecked c jkt, st'))"
  by (simp add: refresh_step_def Let_def on_caches split: sum.split)

lemma refresh_claim:
  "refresh_step C E M ctx t (RefClaim c g) st =
     (if fst (counted t (Some (secs (marker_secs t c))) (view t (sv_cache st) (revoked_refresh_key (refresh_token_of ctx)))) = 1
      then RefIssue c g else RefReplay c,
      st\<lparr>sv_cache := snd (dc_increment C t (revoked_refresh_key (refresh_token_of ctx))
        (Some (secs (marker_secs t c))) (sv_cache st))\<rparr>)"
  by (simp add: refresh_step_def Let_def on_caches)

text \<open>A token without marker is rotated, and the marker then lives for the rest of its lifetime.\<close>

lemma refresh_run_succeeds:
  fixes ctx
  defines "k \<equiv> revoked_refresh_key (refresh_token_of ctx)"
  assumes t: "t1 \<le> t2" "t2 \<le> t3" and fresh: "view t1 (sv_cache st) k = None"
    and check: "check_refresh_token M ctx t1 = Inr (c, jkt)"
    and session: "check_refresh_session C E ctx t2 c jkt (st\<lparr>sv_cache := snd (dc_get C t1 k (sv_cache st))\<rparr>) = (Inr g, st2)"
    and issue: "refresh_tokens E ctx t4 c g = Inr r"
  shows "fst (refresh_run C E M ctx [t1, t2, t3, t4] RefStart st) = RefDone (Tokens r)"
    and "sv_sessions (snd (refresh_run C E M ctx [t1, t2, t3, t4] RefStart st)) = sv_sessions st2"
    and "t3 \<le> u \<Longrightarrow> view u (sv_cache (snd (refresh_run C E M ctx [t1, t2, t3, t4] RefStart st))) k =
      (if u < t3 + secs (marker_secs t3 c) then Some (''1'', Some (t3 + secs (marker_secs t3 c))) else None)"
proof -
  let ?st1 = "st\<lparr>sv_cache := snd (dc_get C t1 k (sv_cache st))\<rparr>"
  have "view t3 (sv_cache st2) k = view t3 (sv_cache ?st1) k"
    using check_refresh_session_view [of t2 t3 E ctx c jkt ?st1 "refresh_token_of ctx"] session t
    by (simp add: k_def)
  also have "\<dots> = None"
    using view_gone [of t1 t3 "sv_cache st" k] fresh t by (simp add: get_view)
  finally have gone: "view t3 (sv_cache st2) k = None" .
  have claim: "refresh_step C E M ctx t3 (RefClaim c g) st2 = (RefIssue c g,
      st2\<lparr>sv_cache := snd (dc_increment C t3 k (Some (secs (marker_secs t3 c))) (sv_cache st2))\<rparr>)"
    using gone by (simp add: refresh_claim counted_def k_def)
  note run = refresh_start check session [unfolded k_def] claim [unfolded k_def] issue
  show "fst (refresh_run C E M ctx [t1, t2, t3, t4] RefStart st) = RefDone (Tokens r)"
    "sv_sessions (snd (refresh_run C E M ctx [t1, t2, t3, t4] RefStart st)) = sv_sessions st2"
    using fresh by (simp_all add: run Let_def refresh_step_simps k_def)
  show "view u (sv_cache (snd (refresh_run C E M ctx [t1, t2, t3, t4] RefStart st))) k =
      (if u < t3 + secs (marker_secs t3 c) then Some (''1'', Some (t3 + secs (marker_secs t3 c))) else None)"
    if "t3 \<le> u"
    using fresh that gone by (simp add: run Let_def refresh_step_simps k_def increment_view counted_def put_def
        live_def expiry_def u64_to_string_1)
qed

end

section \<open>What refreshed tokens are bound to\<close>

lemma narrow_scope_Inr:
  "narrow_scope requested granted = Inr s \<Longrightarrow> set (tokens s) \<subseteq> set (tokens granted)"
  by (auto simp: narrow_scope_def list_ex_iff scope_contains_iff split: if_splits)

lemma narrow_refresh_Inr:
  assumes "narrow_refresh E ctx c = Inr (sc, ds)"
  shows "set (tokens sc) \<subseteq> set (tokens (rc_scope c))"
    and "(case ds of Some es \<Rightarrow> set es | None \<Rightarrow> {}) \<subseteq> (case rc_authorization_details c of Some gs \<Rightarrow> set gs | None \<Rightarrow> {})"
    and "tr_resource (tc_req ctx) \<noteq> None \<Longrightarrow> rc_resource c = tr_resource (tc_req ctx)"
proof -
  have "narrow_scope (tr_scope (tc_req ctx)) (rc_scope c) = Inr sc"
    and "narrow_details ''requested authorization_details exceed the granted details''
      (tr_authorization_details (tc_req ctx)) (rc_authorization_details c) = Inr ds"
    and "\<not> (case tr_resource (tc_req ctx) of Some r \<Rightarrow> rc_resource c \<noteq> Some r | None \<Rightarrow> False)"
    using assms by (auto simp: narrow_refresh_def Let_def and_then_Inr_iff map_err_Inr_iff split: if_splits)
  then show "set (tokens sc) \<subseteq> set (tokens (rc_scope c))"
    and "(case ds of Some es \<Rightarrow> set es | None \<Rightarrow> {}) \<subseteq> (case rc_authorization_details c of Some gs \<Rightarrow> set gs | None \<Rightarrow> {})"
    and "tr_resource (tc_req ctx) \<noteq> None \<Longrightarrow> rc_resource c = tr_resource (tc_req ctx)"
    using narrow_scope_Inr narrow_details_Inr by (auto split: option.splits)
qed

lemma refresh_tokens_Inr:
  "refresh_tokens E ctx now c g = Inr r \<Longrightarrow>
     tp_scope r = Some (scope_join (rg_scope g) '' '') \<and> tp_authorization_details r = rg_details g
     \<and> tp_token_type r = token_type (rg_jkt g \<noteq> None)"
  by (auto simp: refresh_tokens_def Let_def split: sum.splits)

text \<open>A request answered with tokens went through all four calls.\<close>

context distributed_cache
begin

lemma refresh_run_tokens:
  assumes "fst (refresh_run C E M ctx [t1, t2, t3, t4] RefStart st) = RefDone (Tokens r)"
  obtains c jkt g st1 st2 where "check_refresh_token M ctx t1 = Inr (c, jkt)"
    and "view t1 (sv_cache st) (revoked_refresh_key (refresh_token_of ctx)) = None"
    and "check_refresh_session C E ctx t2 c jkt st1 = (Inr g, st2)" and "sv_sessions st1 = sv_sessions st"
    and "refresh_tokens E ctx t4 c g = Inr r"
proof -
  let ?st1 = "st\<lparr>sv_cache := snd (dc_get C t1 (revoked_refresh_key (refresh_token_of ctx)) (sv_cache st))\<rparr>"
  have replay: "fst (refresh_run C E M ctx ts (RefReplay c) s) \<noteq> RefDone (Tokens r)" for ts c s
    by (cases ts) (simp_all add: refresh_step_simps refresh_replay_response_def Let_def run_done)
  note run = refresh_start Let_def case_prod_beta refresh_step_simps run_done
  obtain c jkt where check: "check_refresh_token M ctx t1 = Inr (c, jkt)"
    using assms by (cases "check_refresh_token M ctx t1") (auto simp: run dest: check_refresh_token_refuses)
  moreover have fresh: "view t1 (sv_cache st) (revoked_refresh_key (refresh_token_of ctx)) = None"
  proof (rule ccontr)
    assume "view t1 (sv_cache st) (revoked_refresh_key (refresh_token_of ctx)) \<noteq> None"
    then show False
      using assms check replay [of "[t2, t3, t4]" c ?st1] by (simp add: refresh_start Let_def)
  qed
  moreover obtain g st2 where session: "check_refresh_session C E ctx t2 c jkt ?st1 = (Inr g, st2)"
    using assms check fresh
    by (cases "check_refresh_session C E ctx t2 c jkt ?st1"; cases "fst (check_refresh_session C E ctx t2 c jkt ?st1)")
      (auto simp: run dest: check_refresh_session_refuses)
  moreover obtain s3 where claim: "refresh_step C E M ctx t3 (RefClaim c g) st2 = (RefIssue c g, s3)"
    using assms check fresh session replay [of "[t4]" c]
    by (auto simp: refresh_start Let_def refresh_step_simps refresh_claim split: if_splits)
  moreover have "refresh_tokens E ctx t4 c g = Inr r"
    using assms check fresh session claim
    by (auto simp: refresh_start Let_def refresh_step_simps split: sum.splits dest: refresh_tokens_refuses)
  ultimately show thesis
    using that [of c jkt ?st1 g st2] by simp
qed

end

section \<open>An example\<close>

definition example_refresh_ctx :: "string \<Rightarrow> token_ctx" where
  "example_refresh_ctx seed = (example_ctx seed)\<lparr>tc_req := example_token_request\<lparr>
     tr_grant_type := RefreshTokenGrant, tr_refresh_token := Some ''h.p.s''\<rparr>\<rparr>"

definition example_session :: "timestamp \<Rightarrow> user_session" where
  "example_session refreshed =
     \<lparr>us_id = ''s-1'', us_realm_id = ''default'', us_user_id = ''u-1'', us_login_username = ''alice'',
      us_ip_address = ''10.0.0.1'', us_auth_method = PasswordAuth, us_remember_me = False, us_offline = False,
      us_started = 0, us_last_session_refresh = refreshed, us_auth_time = 0, us_impersonator = None,
      us_clients = []\<rparr>"

definition example_refresh_server :: "nat in_memory_cache server" where
  "example_refresh_server = \<lparr>sv_cache = cache_new 0,
     sv_sessions = [(''default'', ''s-1'') \<mapsto> example_session 0], sv_events = []\<rparr>"

lemma example_refresh_token [simp]: "refresh_token_of (example_refresh_ctx sd) = ''h.p.s''"
  by (simp add: refresh_token_of_def example_refresh_ctx_def example_token_request_def)

lemma example_refresh_realm [simp]:
  "rlm_id (tc_realm (example_refresh_ctx sd)) = ''default''" "rlm_name (tc_realm (example_refresh_ctx sd)) = ''default''"
  "rlm_not_before (tc_realm (example_refresh_ctx sd)) = 0"
  "idle_secs_of (tc_realm (example_refresh_ctx sd)) (example_session x) = 1800"
  by (simp_all add: example_refresh_ctx_def example_ctx_def example_realm_def realm_default_def idle_secs_of_def
      example_session_def)

lemma example_refresh_check:
  "now \<le> from_secs 160 \<Longrightarrow>
     check_refresh_token sample_token_manager (example_refresh_ctx sd) now = Inr (sample_refresh_claims, None)"
proof -
  have "\<not> scope_contains (rc_scope sample_refresh_claims) MCP_SCOPE_STEP_UP"
    by code_simp
  then show "now \<le> from_secs 160 \<Longrightarrow>
      check_refresh_token sample_token_manager (example_refresh_ctx sd) now = Inr (sample_refresh_claims, None)"
    by (simp add: check_refresh_token_def sample_token_accepted)
      (simp add: sample_refresh_claims_def audience_as_str_def refresh_binding_def
        example_refresh_ctx_def example_ctx_def example_client_def)
qed

lemma example_narrow: "\<exists>sc ds. narrow_refresh (example_env K) (example_refresh_ctx sd) sample_refresh_claims = Inr (sc, ds)"
  by (simp add: narrow_refresh_def Let_def example_refresh_ctx_def example_ctx_def example_token_request_def
      sample_refresh_claims_def narrow_scope_def narrow_details_def scope_is_empty_def scope_empty_def map_err_def
      validate_resource_param_def)

lemma example_refresh_tokens: "\<exists>r. refresh_tokens (example_env K) ctx now c g = Inr r"
  by (simp add: refresh_tokens_def Let_def example_env_def)

lemma marker_not_decimal: "parse_u64 [CHR 0x01] = None"
  by code_simp

context distributed_cache
begin

lemma example_refresh_session:
  assumes session: "sv_sessions st (''default'', ''s-1'') = Some (example_session x)"
    and idle: "utc t - x \<le> int (from_secs 1800)"
  obtains g where "check_refresh_session C (example_env K) (example_refresh_ctx sd) t sample_refresh_claims None st =
    (Inr g, snd (update_user_session ''default'' (example_session (utc t)) st))"
proof -
  let ?ctx = "example_refresh_ctx sd" and ?E = "example_env K"
  have refreshed: "(example_session x)\<lparr>us_last_session_refresh := utc t\<rparr> = example_session (utc t)"
    by (simp add: example_session_def)
  obtain sc ds where narrow: "narrow_refresh ?E ?ctx sample_refresh_claims = Inr (sc, ds)"
    using example_narrow by blast
  have user: "ge_get_user ?E ''default'' (us_user_id (example_session x)) = Inr (Some example_user)"
      "usr_enabled example_user"
    by (simp_all add: example_env_def example_session_def example_user_def)
  show thesis
    using that check_refresh_session_succeeds [of ?ctx sample_refresh_claims st "example_session x" ?E example_user t sc ds C None]
      user session idle narrow
    by (simp add: get_user_session_def sample_refresh_claims_def secs_def refreshed) (simp add: example_session_def)
qed

lemma example_refresh_run:
  assumes t: "t1 \<le> t2" "t2 \<le> t3" "t1 \<le> from_secs 160"
    and session: "sv_sessions st (''default'', ''s-1'') = Some (example_session x)"
    and idle: "utc t2 - x \<le> int (from_secs 1800)"
    and fresh: "view t1 (sv_cache st) (revoked_refresh_key ''h.p.s'') = None"
  obtains r st' where "refresh_run C (example_env K) sample_token_manager (example_refresh_ctx sd)
      [t1, t2, t3, t4] RefStart st = (RefDone (Tokens r), st')"
    and "sv_sessions st' (''default'', ''s-1'') = Some (example_session (utc t2))"
    and "\<And>u. t3 \<le> u \<Longrightarrow> view u (sv_cache st') (revoked_refresh_key ''h.p.s'') =
      (if u < t3 + secs (marker_secs t3 sample_refresh_claims)
       then Some (''1'', Some (t3 + secs (marker_secs t3 sample_refresh_claims))) else None)"
proof -
  let ?ctx = "example_refresh_ctx sd" and ?E = "example_env K"
  let ?st1 = "st\<lparr>sv_cache := snd (dc_get C t1 (revoked_refresh_key (refresh_token_of ?ctx)) (sv_cache st))\<rparr>"
  obtain g where checked: "check_refresh_session C ?E ?ctx t2 sample_refresh_claims None ?st1 =
      (Inr g, snd (update_user_session ''default'' (example_session (utc t2)) ?st1))"
    using example_refresh_session [of ?st1 x t2] session idle by auto
  have fresh': "view t1 (sv_cache st) (revoked_refresh_key (refresh_token_of ?ctx)) = None"
    using fresh by simp
  obtain r where issue: "refresh_tokens ?E ?ctx t4 sample_refresh_claims g = Inr r"
    using example_refresh_tokens by blast
  note run = refresh_run_succeeds [OF t(1,2) fresh' example_refresh_check [OF t(3)] checked issue]
  show thesis
    using that [of r "snd (refresh_run C ?E sample_token_manager ?ctx [t1, t2, t3, t4] RefStart st)"] run session
    by (simp add: prod_eq_iff update_user_session_def del: run_alone.simps) (simp add: example_session_def)
qed

text \<open>The claim of a token that another request revoked since the check.\<close>

lemma example_revoked_claim:
  assumes t: "t1 \<le> from_secs 160" "t3 \<le> t4" "t4 < t3 + from_secs 100"
    and session: "sv_sessions st (''default'', ''s-1'') = Some (example_session x)"
    and idle: "utc t2 - x \<le> int (from_secs 1800)"
    and fresh: "view t1 (sv_cache st) (revoked_refresh_key ''h.p.s'') = None"
  obtains g r st2 st3 st' where
      "refresh_run C (example_env K) sample_token_manager (example_refresh_ctx sd) [t1, t2] RefStart st
        = (RefClaim sample_refresh_claims g, st2)"
    and "mark_revoked C t3 (revoked_refresh_key ''h.p.s'') 100 st2 = (Inr (), st3)"
    and "view t4 (sv_cache st3) (revoked_refresh_key ''h.p.s'') \<noteq> None"
    and "refresh_run C (example_env K) sample_token_manager (example_refresh_ctx sd) [t4, t5]
        (RefClaim sample_refresh_claims g) st3 = (RefDone (Tokens r), st')"
proof -
  let ?ctx = "example_refresh_ctx sd" and ?E = "example_env K" and ?k = "revoked_refresh_key ''h.p.s''"
  let ?run = "refresh_run C ?E sample_token_manager ?ctx"
  let ?st1 = "st\<lparr>sv_cache := snd (dc_get C t1 ?k (sv_cache st))\<rparr>"
  obtain g where checked: "check_refresh_session C ?E ?ctx t2 sample_refresh_claims None ?st1 =
      (Inr g, snd (update_user_session ''default'' (example_session (utc t2)) ?st1))" (is "_ = (_, ?st2)")
    using example_refresh_session [of ?st1 x t2] session idle by auto
  obtain r where issue: "refresh_tokens ?E ?ctx t5 sample_refresh_claims g = Inr r"
    using example_refresh_tokens by blast
  let ?st3 = "?st2\<lparr>sv_cache := snd (dc_set C t3 ?k [CHR 0x01] (Some (secs 100)) (sv_cache ?st2))\<rparr>"
  have marker: "view t4 (sv_cache ?st3) ?k = Some ([CHR 0x01], Some (t3 + from_secs 100))"
    using t by (simp add: set_view put_def live_def expiry_def secs_def)
  have "?run [t1, t2] RefStart st = (RefClaim sample_refresh_claims g, ?st2)"
    using fresh checked example_refresh_check [OF t(1)] by (simp add: refresh_start Let_def refresh_step_simps)
  moreover have "mark_revoked C t3 ?k 100 ?st2 = (Inr (), ?st3)"
    by (simp add: mark_revoked_run)
  moreover have "fst (?run [t4, t5] (RefClaim sample_refresh_claims g) ?st3) = RefDone (Tokens r)"
    using marker issue by (simp add: refresh_claim refresh_step_simps counted_def marker_not_decimal)
  ultimately show thesis
    using that [of g ?st2 ?st3 r] marker by (simp add: prod_eq_iff)
qed

end

lemma marker_before_expiry: "marker_secs 3 sample_refresh_claims = 100"
  by (simp add: marker_secs_def sample_refresh_claims_def now_secs_def NANOS_PER_SEC_def)

lemma example_refresh_empty: "mem_view t (sv_cache example_refresh_server) k = None"
  by (simp add: example_refresh_server_def cache_new_def with_sweep_interval_def mem_view_def)

lemma example_first_refresh:
  obtains r st' where "refresh_run in_memory (example_env K) sample_token_manager (example_refresh_ctx sd)
      [1, 2, 3, 4] RefStart example_refresh_server = (RefDone (Tokens r), st')"
    and "sv_sessions st' (''default'', ''s-1'') = Some (example_session (utc 2))"
    and "\<And>u. 3 \<le> u \<Longrightarrow> mem_view u (sv_cache st') (revoked_refresh_key ''h.p.s'') =
      (if u < 3 + from_secs 100 then Some (''1'', Some (3 + from_secs 100)) else None)"
proof (rule mem.example_refresh_run [of 1 2 3 example_refresh_server 0 K sd 4])
  show "sv_sessions example_refresh_server (''default'', ''s-1'') = Some (example_session 0)"
    by (simp add: example_refresh_server_def)
  show "mem_view 1 (sv_cache example_refresh_server) (revoked_refresh_key ''h.p.s'') = None"
    by (rule example_refresh_empty)
  show "(1 :: nat) \<le> from_secs 160" "utc 2 - 0 \<le> int (from_secs 1800)"
    by (simp_all add: from_secs_def NANOS_PER_SEC_def utc_def)
qed (use that in \<open>simp_all add: marker_before_expiry secs_def del: run_alone.simps\<close>)

lemma sv_sessions_invalidate: "sv_sessions (invalidate_session C t r s fresh st) = sv_sessions st"
  by (simp add: invalidate_session_def Let_def on_cache_eq)

context distributed_cache
begin

lemma invalidated_session:
  assumes "t \<le> v"
  shows "view v (sv_cache (invalidate_session C t r s fresh st)) (session_key r s) = None"
    and "v < t + from_secs (24 * 60 * 60) \<Longrightarrow>
      view v (sv_cache (invalidate_session C t r s fresh st)) (session_tombstone_key r s)
        = Some (fresh, Some (t + from_secs (24 * 60 * 60)))"
proof -
  have "session_tombstone_key r s \<noteq> session_key r s"
    by (simp add: key_defs)
  then show "view v (sv_cache (invalidate_session C t r s fresh st)) (session_key r s) = None"
    and "v < t + from_secs (24 * 60 * 60) \<Longrightarrow>
      view v (sv_cache (invalidate_session C t r s fresh st)) (session_tombstone_key r s)
        = Some (fresh, Some (t + from_secs (24 * 60 * 60)))"
    using assms by (simp_all add: invalidate_session_def Let_def on_caches set_view delete_view put_def live_def expiry_def)
qed

lemma replay_runs:
  assumes "view t1 (sv_cache st) (revoked_refresh_key (refresh_token_of ctx)) \<noteq> None"
    and "check_refresh_token M ctx t1 = Inr (c, jkt)" and "issuer_matches_realm (rc_iss c) (rlm_name (tc_realm ctx))"
    and "refresh_run C E M ctx [t1, t2] RefStart st = (pc, st')"
  shows "pc = RefDone invalid_grant \<and> (\<exists>st1. st' = emit_oidc_event E (rlm_id (tc_realm ctx)) (refresh_error_event ctx)
    (invalidate_session C t2 (rlm_id (tc_realm ctx)) (rc_sid c) (tc_ids ctx 0)
      (delete_user_session (rlm_id (tc_realm ctx)) (rc_sid c) st1)))"
  using assms by (auto simp: refresh_start Let_def refresh_step_simps refresh_replay_response_def)

lemma refresh_run_bound:
  assumes "fst (refresh_run C E M ctx [t1, t2, t3, t4] RefStart st) = RefDone (Tokens r)"
  shows "\<exists>c s u sc. validate_refresh_token M t1 (refresh_token_of ctx) = Inr c
    \<and> audience_as_str (rc_aud c) = cli_client_id (tc_client ctx)
    \<and> (\<forall>k. rc_cnf c = Some k \<longrightarrow> tc_dpop_jkt ctx = Some k \<and> tp_token_type r = token_type True)
    \<and> sv_sessions st (rlm_id (tc_realm ctx), rc_sid c) = Some s
    \<and> ge_get_user E (rlm_id (tc_realm ctx)) (us_user_id s) = Inr (Some u) \<and> usr_enabled u
    \<and> utc t2 - us_last_session_refresh s \<le> int (secs (idle_secs_of (tc_realm ctx) s))
    \<and> tp_scope r = Some (scope_join sc '' '') \<and> set (tokens sc) \<subseteq> set (tokens (rc_scope c)) - {MCP_SCOPE_STEP_UP}
    \<and> (case tp_authorization_details r of Some es \<Rightarrow> set es | None \<Rightarrow> {})
        \<subseteq> (case rc_authorization_details c of Some gs \<Rightarrow> set gs | None \<Rightarrow> {})
    \<and> (tr_resource (tc_req ctx) \<noteq> None \<longrightarrow> rc_resource c = tr_resource (tc_req ctx))"
proof -
  obtain c jkt g st1 st2 where check: "check_refresh_token M ctx t1 = Inr (c, jkt)"
    and session: "check_refresh_session C E ctx t2 c jkt st1 = (Inr g, st2)" "sv_sessions st1 = sv_sessions st"
    and issued: "refresh_tokens E ctx t4 c g = Inr r"
    by (rule refresh_run_tokens [OF assms]) iprover
  note c = check_refresh_token_Inr [OF check]
  obtain s where s: "get_user_session (rlm_id (tc_realm ctx)) (rc_sid c) st1 = Some s"
      "ge_get_user E (rlm_id (tc_realm ctx)) (us_user_id s) = Inr (Some (rg_user g))" "usr_enabled (rg_user g)"
      "utc t2 - us_last_session_refresh s \<le> int (secs (idle_secs_of (tc_realm ctx) s))"
    and narrow: "narrow_refresh E ctx c = Inr (rg_scope g, rg_details g)" and jkt: "rg_jkt g = jkt"
    by (rule check_refresh_session_Inr [OF session(1)]) iprover
  note r = refresh_tokens_Inr [OF issued] and narrowed = narrow_refresh_Inr [OF narrow]
  have bound: "tc_dpop_jkt ctx = Some k \<and> tp_token_type r = token_type True" if "rc_cnf c = Some k" for k
  proof -
    have "jkt = Some k" "tc_dpop_jkt ctx = Some k"
      using c that by (auto simp: refresh_binding_def split: option.splits if_splits)
    with r jkt show ?thesis
      by simp
  qed
  have scope: "set (tokens (rg_scope g)) \<subseteq> set (tokens (rc_scope c)) - {MCP_SCOPE_STEP_UP}"
    using c narrowed(1) by (auto simp: scope_contains_iff)
  show ?thesis
    by (intro exI [of _ c] exI [of _ s] exI [of _ "rg_user g"] exI [of _ "rg_scope g"] conjI allI impI)
      (use c s session(2) narrowed r scope bound in \<open>simp_all add: get_user_session_def\<close>)
qed

end

section \<open>Properties\<close>

text \<open>(C12) Tokens for a refresh token go only to the client it was issued to and, when it is bound to a
  key, to the holder of that key and bound again; its session exists in the realm, belongs to an
  enabled user and is not idle; scope, authorization details and resource do not exceed the grant,
  and the step-up scope is never refreshed.\<close>

theorem refreshed_tokens_bound:
  assumes "fst (refresh_run in_memory E M ctx [t1, t2, t3, t4] RefStart st) = RefDone (Tokens r)"
  shows "\<exists>c s u sc. validate_refresh_token M t1 (refresh_token_of ctx) = Inr c
    \<and> audience_as_str (rc_aud c) = cli_client_id (tc_client ctx)
    \<and> (\<forall>k. rc_cnf c = Some k \<longrightarrow> tc_dpop_jkt ctx = Some k \<and> tp_token_type r = token_type True)
    \<and> sv_sessions st (rlm_id (tc_realm ctx), rc_sid c) = Some s
    \<and> ge_get_user E (rlm_id (tc_realm ctx)) (us_user_id s) = Inr (Some u) \<and> usr_enabled u
    \<and> utc t2 - us_last_session_refresh s \<le> int (secs (idle_secs_of (tc_realm ctx) s))
    \<and> tp_scope r = Some (scope_join sc '' '') \<and> set (tokens sc) \<subseteq> set (tokens (rc_scope c)) - {MCP_SCOPE_STEP_UP}
    \<and> (case tp_authorization_details r of Some es \<Rightarrow> set es | None \<Rightarrow> {})
        \<subseteq> (case rc_authorization_details c of Some gs \<Rightarrow> set gs | None \<Rightarrow> {})
    \<and> (tr_resource (tc_req ctx) \<noteq> None \<longrightarrow> rc_resource c = tr_resource (tc_req ctx))"
  using assms by (rule mem.refresh_run_bound)

theorem refreshed_tokens_bound_witness:
  "\<exists>r. fst (refresh_run in_memory (example_env example_codec) sample_token_manager (example_refresh_ctx ''x'')
       [1, 2, 3, 4] RefStart example_refresh_server) = RefDone (Tokens r)
     \<and> (\<exists>sc. tp_scope r = Some (scope_join sc '' '') \<and> MCP_SCOPE_STEP_UP \<notin> set (tokens sc))"
proof -
  obtain r where run: "fst (refresh_run in_memory (example_env example_codec) sample_token_manager (example_refresh_ctx ''x'')
       [1, 2, 3, 4] RefStart example_refresh_server) = RefDone (Tokens r)"
    by (rule example_first_refresh [of example_codec "''x''"]) simp
  show ?thesis
    using refreshed_tokens_bound [OF run] run by blast
qed

text \<open>(C3) However any number of refresh requests and the rest of the server interleave, a refresh
  token that was not revoked is rotated at most once before it expires: of the requests that
  present it, at most one is answered with tokens.\<close>

theorem refresh_rotated_at_most_once:
  assumes "(refresh_system_step in_memory E M ctxs tok n)\<^sup>*\<^sup>* (system_init RefStart st t0) \<sigma>"
    and "jwt_laws (tm_lib M)" and "validate_refresh_token M t tok = Inr c" and "rc_exp c < 2 ^ 63"
    and "sys_now \<sigma> < from_secs (nat (rc_exp c))" and "n < 2 ^ 64"
    and "mem_view t0 (sv_cache st) (revoked_refresh_key tok) = None"
    and "i < n" and "j < n" and "refresh_token_of (ctxs i) = tok" and "refresh_token_of (ctxs j) = tok"
    and "sys_pcs \<sigma> i = RefDone (Tokens a)" and "sys_pcs \<sigma> j = RefDone (Tokens b)"
  shows "i = j"
proof -
  have "rc_exp c' = rc_exp c" if "validate_refresh_token M t' tok = Inr c'" for t' c'
    using refresh_claims_unique [OF assms(2,3) that] by simp
  note once = mem.refresh_rotates_once [OF assms(1,5) this assms(4,6,7)]
  show ?thesis
    using once assms(8,9) by (rule how_many_le_1) (simp_all add: rotates_def assms)
qed

theorem refresh_rotated_at_most_once_witness:
  "\<exists>\<sigma> a. (refresh_system_step in_memory (example_env example_codec) sample_token_manager
       (\<lambda>i. example_refresh_ctx (nat_to_string i)) ''h.p.s'' 2)\<^sup>*\<^sup>* (system_init RefStart example_refresh_server 0) \<sigma>
     \<and> sys_pcs \<sigma> 0 = RefDone (Tokens a) \<and> (\<forall>b. sys_pcs \<sigma> 1 \<noteq> RefDone (Tokens b))"
proof -
  let ?E = "example_env example_codec" and ?ctxs = "\<lambda>i. example_refresh_ctx (nat_to_string i)"
  let ?act = "\<lambda>i. refresh_step in_memory ?E sample_token_manager (?ctxs i)"
  let ?init = "system_init RefStart example_refresh_server 0"
  let ?turns = "map (Pair 0) [1, 2, 3, 4] @ map (Pair 1) [5, 6] @ []"
  let ?\<sigma> = "run_schedule ?act ?turns ?init"
  obtain a st where run: "refresh_run in_memory ?E sample_token_manager (?ctxs 0) [1, 2, 3, 4] RefStart example_refresh_server
      = (RefDone (Tokens a), st)"
    by (rule example_first_refresh)
  have reach: "(refresh_system_step in_memory ?E sample_token_manager ?ctxs ''h.p.s'' 2)\<^sup>*\<^sup>* ?init ?\<sigma>"
    unfolding refresh_system_step_def by (rule run_schedule_reaches) (auto simp: system_init_def)
  have pc: "sys_pcs ?\<sigma> 0 = RefDone (Tokens a)" and now: "sys_now ?\<sigma> = 6"
    unfolding run_schedule_alone by (simp_all add: system_init_def run case_prod_beta del: run_alone.simps One_nat_def)
  have laws: "jwt_laws (tm_lib sample_token_manager)"
    by (simp add: sample_token_manager_def sample_jwt_laws)
  have before: "rc_exp sample_refresh_claims < 2 ^ 63" "sys_now ?\<sigma> < from_secs (nat (rc_exp sample_refresh_claims))"
    unfolding now by (simp_all add: sample_refresh_claims_def from_secs_def NANOS_PER_SEC_def)
  have "sys_pcs ?\<sigma> 1 \<noteq> RefDone (Tokens b)" for b
  proof
    assume "sys_pcs ?\<sigma> 1 = RefDone (Tokens b)"
    from refresh_rotated_at_most_once [OF reach laws sample_token_accepted [of 0] before _ example_refresh_empty _ _ _ _ pc this]
    show False
      by simp
  qed
  with reach pc show ?thesis
    by blast
qed

text \<open>(C13) A refresh token that is presented after its revocation ends the session of its family: the
  answer is an error, the session is gone from the storage and from the cache, and a tombstone
  keeps late cache writes out for a day.\<close>

theorem replayed_refresh_ends_session:
  assumes "mem_view t1 (sv_cache st) (revoked_refresh_key (refresh_token_of ctx)) \<noteq> None"
    and "check_refresh_token M ctx t1 = Inr (c, jkt)" and "issuer_matches_realm (rc_iss c) (rlm_name (tc_realm ctx))"
    and "refresh_run in_memory E M ctx [t1, t2] RefStart st = (pc, st')" and "t2 \<le> v"
  shows "pc = RefDone invalid_grant \<and> sv_sessions st' (rlm_id (tc_realm ctx), rc_sid c) = None
    \<and> mem_view v (sv_cache st') (session_key (rlm_id (tc_realm ctx)) (rc_sid c)) = None
    \<and> (v < t2 + from_secs (24 * 60 * 60) \<longrightarrow>
         mem_view v (sv_cache st') (session_tombstone_key (rlm_id (tc_realm ctx)) (rc_sid c)) \<noteq> None)"
  using mem.replay_runs [OF assms(1-4)] assms(5)
  by (elim conjE exE) (simp add: mem.invalidated_session sv_sessions_invalidate delete_user_session_def)

theorem replayed_refresh_ends_session_witness:
  "\<exists>st st' :: nat in_memory_cache server.
     sv_sessions st (''default'', ''s-1'') \<noteq> None
     \<and> refresh_run in_memory (example_env example_codec) sample_token_manager (example_refresh_ctx ''y'') [5, 6] RefStart st
         = (RefDone invalid_grant, st')
     \<and> sv_sessions st' (''default'', ''s-1'') = None
     \<and> mem_view 7 (sv_cache st') (session_tombstone_key ''default'' ''s-1'') \<noteq> None"
proof -
  let ?run = "refresh_run in_memory (example_env example_codec) sample_token_manager (example_refresh_ctx ''y'')"
  obtain st :: "nat in_memory_cache server" where st: "sv_sessions st (''default'', ''s-1'') = Some (example_session (utc 2))"
    and view: "\<And>u. 3 \<le> u \<Longrightarrow> mem_view u (sv_cache st) (revoked_refresh_key ''h.p.s'') =
      (if u < 3 + from_secs 100 then Some (''1'', Some (3 + from_secs 100)) else None)"
    by (rule example_first_refresh [of example_codec "''x''"]) (rule that)
  obtain pc st' where run: "?run [5, 6] RefStart st = (pc, st')"
    by (cases "?run [5, 6] RefStart st")
  have "issuer_matches_realm (rc_iss sample_refresh_claims) ''default''"
    unfolding sample_refresh_claims_def refresh_token_claims.simps by code_simp
  moreover have "(5 :: nat) \<le> from_secs 160" "(7 :: nat) < 6 + from_secs 86400" "(5 :: nat) < 3 + from_secs 100"
    by (simp_all add: from_secs_def NANOS_PER_SEC_def)
  moreover have "rc_sid sample_refresh_claims = ''s-1''"
    by (simp add: sample_refresh_claims_def)
  ultimately show ?thesis
    using replayed_refresh_ends_session [of 5 st "example_refresh_ctx ''y''" sample_token_manager sample_refresh_claims
        None "example_env example_codec" 6 pc st' 7] st run view [of 5] example_refresh_check [of 5 "''y''"]
    by (intro exI [of _ st] exI [of _ st']) (simp del: run_alone.simps)
qed

text \<open>(C29) The revocation marker of a rotated token expires with the token, but validation accepts the
  token for the clock skew longer: in those seconds the token is rotated a second time.\<close>

theorem refresh_leeway_replay:
  "\<exists>a b (st1 :: nat in_memory_cache server) st2.
     refresh_run in_memory (example_env example_codec) sample_token_manager (example_refresh_ctx ''x'')
       [1, 2, 3, 4] RefStart example_refresh_server = (RefDone (Tokens a), st1)
     \<and> refresh_run in_memory (example_env example_codec) sample_token_manager (example_refresh_ctx ''y'')
       [from_secs 130, from_secs 131, from_secs 132, from_secs 133] RefStart st1 = (RefDone (Tokens b), st2)"
proof -
  let ?E = "example_env example_codec"
  obtain a st1 where first: "refresh_run in_memory ?E sample_token_manager (example_refresh_ctx ''x'')
       [1, 2, 3, 4] RefStart example_refresh_server = (RefDone (Tokens a), st1)"
    and st1: "sv_sessions st1 (''default'', ''s-1'') = Some (example_session (utc 2))"
    and view: "\<And>u. 3 \<le> u \<Longrightarrow> mem_view u (sv_cache st1) (revoked_refresh_key ''h.p.s'') =
      (if u < 3 + from_secs 100 then Some (''1'', Some (3 + from_secs 100)) else None)"
    by (rule example_first_refresh [of example_codec "''x''"]) (rule that)
  have "mem_view (from_secs 130) (sv_cache st1) (revoked_refresh_key ''h.p.s'') = None"
    by (simp add: view from_secs_def NANOS_PER_SEC_def)
  moreover have "from_secs 130 \<le> from_secs 131" "from_secs 131 \<le> from_secs 132" "from_secs 130 \<le> from_secs 160"
      "utc (from_secs 131) - utc 2 \<le> int (from_secs 1800)"
    by (simp_all add: from_secs_def NANOS_PER_SEC_def utc_def)
  ultimately obtain b st2 where "refresh_run in_memory ?E sample_token_manager (example_refresh_ctx ''y'')
       [from_secs 130, from_secs 131, from_secs 132, from_secs 133] RefStart st1 = (RefDone (Tokens b), st2)"
    using st1 by (blast elim: mem.example_refresh_run)
  with first show ?thesis
    by blast
qed

text \<open>(C30) A token that is revoked between the marker check of a refresh request and its claim is rotated
  all the same: the marker a revocation writes is not a decimal number, so the claim counts from
  zero.\<close>

theorem refresh_revocation_lost:
  "\<exists>c g r (st1 :: nat in_memory_cache server) st2 st3.
     refresh_run in_memory (example_env example_codec) sample_token_manager (example_refresh_ctx ''x'')
       [1, 2] RefStart example_refresh_server = (RefClaim c g, st1)
     \<and> mark_revoked in_memory 3 (revoked_refresh_key ''h.p.s'') 100 st1 = (Inr (), st2)
     \<and> mem_view 4 (sv_cache st2) (revoked_refresh_key ''h.p.s'') \<noteq> None
     \<and> refresh_run in_memory (example_env example_codec) sample_token_manager (example_refresh_ctx ''x'')
         [4, 5] (RefClaim c g) st2 = (RefDone (Tokens r), st3)"
proof (rule mem.example_revoked_claim [of 1 3 4 example_refresh_server 0 2 example_codec "''x''" 5])
  show "sv_sessions example_refresh_server (''default'', ''s-1'') = Some (example_session 0)"
    by (simp add: example_refresh_server_def)
  show "mem_view 1 (sv_cache example_refresh_server) (revoked_refresh_key ''h.p.s'') = None"
    by (rule example_refresh_empty)
  show "(1 :: nat) \<le> from_secs 160" "4 < 3 + from_secs 100" "utc 2 - 0 \<le> int (from_secs 1800)"
    by (simp_all add: from_secs_def NANOS_PER_SEC_def utc_def)
qed (simp, blast)

end
