(* ===== verification/Totp_Codes.thy ===== *)
theory Totp_Codes
  imports Login_Failures
begin

text \<open>
  Time-based one-time codes, \<^verbatim>\<open>issuerd-auth-flow/src/totp.rs\<close>: the hand-written base32 codec,
  the code of a time step, the verification window, and the provisioning URI.  The keyed hash
  (\<open>ring::hmac\<close>) is a parameter.
\<close>

unbundle bit_operations_syntax

section \<open>Base32\<close>

definition B32_ALPHABET :: string where "B32_ALPHABET = ''ABCDEFGHIJKLMNOPQRSTUVWXYZ234567''"

text \<open>One chunk of at most five bytes: \<open>u64::from_be_bytes\<close> of the zero-padded buffer, then its
  groups of five bits from the top.\<close>

definition chunk_bits :: "bytes \<Rightarrow> u64" where
  "chunk_bits chunk = of_nat (foldl (\<lambda>n b. 256 * n + byte_val b) 0 (take 5 (chunk @ replicate 5 (CHR 0x00))))"

definition chunk_chars :: "nat \<Rightarrow> nat" where
  "chunk_chars len = (if len = 1 then 2 else if len = 2 then 4 else if len = 3 then 5 else if len = 4 then 7 else 8)"

definition encode_chunk :: "bytes \<Rightarrow> string" where
  "encode_chunk chunk =
     map (\<lambda>i. B32_ALPHABET ! unat (drop_bit (35 - i * 5) (chunk_bits chunk) AND 0x1F)) [0..<chunk_chars (length chunk)]"

function base32_encode :: "bytes \<Rightarrow> string" where
  "base32_encode data = (if data = [] then [] else encode_chunk (take 5 data) @ base32_encode (drop 5 data))"
  by auto
termination
  by (relation "measure length") auto

declare base32_encode.simps [simp del]

definition b32_value :: "char \<Rightarrow> u64 option" where
  "b32_value c =
     (let n = byte_val c in
      if 65 \<le> n \<and> n \<le> 90 then Some (of_nat (n - 65))
      else if 97 \<le> n \<and> n \<le> 122 then Some (of_nat (n - 97))
      else if 50 \<le> n \<and> n \<le> 55 then Some (of_nat (n - 50 + 26))
      else None)"

text \<open>The loop: accumulator, number of pending bits, input.  A \<open>=\<close> ends it; \<open>as u8\<close> keeps the low
  byte.\<close>

fun decode_loop :: "u64 \<Rightarrow> nat \<Rightarrow> string \<Rightarrow> bytes option" where
  "decode_loop acc nbits [] = Some []"
| "decode_loop acc nbits (c # cs) =
     (if c = CHR ''='' then Some []
      else (case b32_value c of
         None \<Rightarrow> None
       | Some v \<Rightarrow>
           let acc' = push_bit 5 acc OR v; nbits' = nbits + 5 in
           if 8 \<le> nbits'
           then map_option ((#) (char_of (unat (drop_bit (nbits' - 8) acc') mod 256))) (decode_loop acc' (nbits' - 8) cs)
           else decode_loop acc' nbits' cs))"

definition base32_decode :: "string \<Rightarrow> bytes option" where
  "base32_decode s = decode_loop 0 0 s"

section \<open>Provisioning URI\<close>

definition otp_unreserved :: "char \<Rightarrow> bool" where
  "otp_unreserved b \<longleftrightarrow> is_ascii_upper b \<or> is_ascii_lower b \<or> is_ascii_digit b
     \<or> b \<in> {CHR ''-'', CHR ''.'', CHR ''_'', CHR ''~''}"

definition upper_hex :: "nat \<Rightarrow> char" where "upper_hex n = ''0123456789ABCDEF'' ! n"

definition url_encode :: "string \<Rightarrow> string" where
  "url_encode s = concat (map (\<lambda>b. if otp_unreserved b then [b]
     else [CHR ''%'', upper_hex (byte_val b div 16), upper_hex (byte_val b mod 16)]) s)"

fun otpauth_algorithm :: "otp_hash_algorithm \<Rightarrow> string" where
  "otpauth_algorithm HmacSha1 = ''SHA1''"
| "otpauth_algorithm HmacSha256 = ''SHA256''"
| "otpauth_algorithm HmacSha512 = ''SHA512''"

definition otpauth_url :: "string \<Rightarrow> string \<Rightarrow> string \<Rightarrow> otp_policy \<Rightarrow> string" where
  "otpauth_url issuer account secret_b32 policy =
     ''otpauth://totp/'' @ url_encode issuer @ '':'' @ url_encode account @ ''?secret='' @ secret_b32
     @ ''&issuer='' @ url_encode issuer @ ''&algorithm='' @ otpauth_algorithm (otp_algorithm policy)
     @ ''&digits='' @ nat_to_string (unat (otp_digits policy)) @ ''&period='' @ nat_to_string (unat (otp_period_secs policy))"

section \<open>Codes\<close>

text \<open>\<open>ring::hmac::sign\<close>: algorithm, key, message.\<close>

type_synonym hmac = "otp_hash_algorithm \<Rightarrow> bytes \<Rightarrow> bytes \<Rightarrow> bytes"

definition to_be_bytes :: "u64 \<Rightarrow> bytes" where
  "to_be_bytes w = map (\<lambda>i. char_of (unat (drop_bit (56 - 8 * i) w) mod 256)) [0..<8]"

definition clamp_digits :: "u32 \<Rightarrow> nat" where
  "clamp_digits digits = min 9 (max 1 (unat digits))"

definition totp_at :: "hmac \<Rightarrow> bytes \<Rightarrow> u64 \<Rightarrow> u32 \<Rightarrow> otp_hash_algorithm \<Rightarrow> string" where
  "totp_at H key step digits alg =
     (let digest = H alg key (to_be_bytes step);
          byte = (\<lambda>i. of_nat (byte_val (digest ! i)) :: u32);
          offset = unat (byte (length digest - 1) AND 0x0F);
          binary = push_bit 24 (byte offset AND 0x7F) OR push_bit 16 (byte (offset + 1))
            OR push_bit 8 (byte (offset + 2)) OR byte (offset + 3);
          code = nat_to_string (unat (binary mod (10 ^ clamp_digits digits)))
      in replicate (clamp_digits digits - length code) (CHR ''0'') @ code)"

definition saturating_add :: "u64 \<Rightarrow> u64 \<Rightarrow> u64" where
  "saturating_add a b = (if unat a + unat b < 2 ^ 64 then a + b else - 1)"

definition verify_steps :: "u64 \<Rightarrow> otp_policy \<Rightarrow> u64 list" where
  "verify_steps now_secs policy =
     (let current = now_secs div ucast (max (otp_period_secs policy) 1)
      in map of_nat [unat (saturating_sub current 1)..<Suc (unat (saturating_add current (ucast (otp_look_ahead_window policy))))])"

definition totp_verify :: "hmac \<Rightarrow> string \<Rightarrow> string \<Rightarrow> u64 \<Rightarrow> otp_policy \<Rightarrow> u64 option \<Rightarrow> u64 option" where
  "totp_verify H secret_b32 code now_secs policy last_used_step =
     Option.bind (base32_decode secret_b32) (\<lambda>key.
       find (\<lambda>step. \<not> (case last_used_step of Some used \<Rightarrow> step \<le> used | None \<Rightarrow> False)
           \<and> totp_at H key step (otp_digits policy) (otp_algorithm policy) = code)
         (verify_steps now_secs policy))"

section \<open>Base32 round trip\<close>

text \<open>The loop over numbers: the accumulator is not cut, since only its low bits are read.\<close>

fun decode_nat :: "nat \<Rightarrow> nat \<Rightarrow> nat list \<Rightarrow> nat list" where
  "decode_nat a n [] = []"
| "decode_nat a n (v # vs) =
     (let a' = 32 * a + v in
      if 3 \<le> n then (a' div 2 ^ (n - 3) mod 256) # decode_nat a' (n - 3) vs else decode_nat a' (n + 5) vs)"

definition b32_char :: "nat \<Rightarrow> char" where "b32_char v = B32_ALPHABET ! v"

lemma b32_char_value:
  assumes "v < 32"
  shows "b32_value (b32_char v) = Some (of_nat v)" and "b32_char v \<noteq> CHR ''=''"
proof -
  have "list_all (\<lambda>v. b32_value (b32_char v) = Some (of_nat v) \<and> b32_char v \<noteq> CHR ''='') [0..<32]"
    unfolding upt_rec_numeral upt_conv_Nil by (simp add: upt_rec b32_char_def B32_ALPHABET_def b32_value_def byte_val_def)
  with assms show "b32_value (b32_char v) = Some (of_nat v)" and "b32_char v \<noteq> CHR ''=''"
    by (simp_all add: list_all_iff)
qed

lemma push_or:
  assumes "v < 32"
  shows "push_bit 5 (of_nat a) OR (of_nat v :: u64) = of_nat (32 * a + v)"
proof -
  have "\<not> bit v n" if "5 \<le> n" for n
  proof -
    have "v < 2 ^ n"
      using assms power_increasing [of 5 n "2 :: nat"] that by simp
    then show ?thesis
      by (simp add: bit_iff_odd)
  qed
  then have "push_bit 5 (of_nat a :: u64) AND of_nat v = 0"
    by (auto intro!: bit_word_eqI simp: bit_and_iff bit_push_bit_iff bit_of_nat_iff)
  then have "push_bit 5 (of_nat a) OR (of_nat v :: u64) = push_bit 5 (of_nat a) + of_nat v"
    by (simp add: disjunctive_add_eq_or)
  then show ?thesis
    by (simp add: push_bit_eq_mult)
qed

lemma low_byte:
  assumes "k \<le> 7"
  shows "unat (drop_bit k (of_nat a :: u64)) mod 256 = a div 2 ^ k mod 256"
proof -
  have "take_bit 8 (drop_bit k (take_bit 64 a)) = take_bit 8 (drop_bit k a)"
    using assms by (simp add: take_bit_drop_bit)
  then have "a mod 2 ^ 64 div 2 ^ k mod 2 ^ 8 = a div 2 ^ k mod 2 ^ 8"
    by (simp only: take_bit_eq_mod drop_bit_eq_div)
  then show ?thesis
    unfolding unat_drop_bit_eq unat_of_nat by (simp add: drop_bit_eq_div)
qed

lemma decode_loop_nat:
  assumes "list_all (\<lambda>v. v < 32) vs" and "n < 8"
  shows "decode_loop (of_nat a) n (map b32_char vs) = Some (map char_of (decode_nat a n vs))"
  using assms
proof (induction a n vs rule: decode_nat.induct)
  case (2 a n v vs)
  then show ?case
    by (auto simp: b32_char_value push_or low_byte Let_def simp del: of_nat_add of_nat_mult)
qed simp

text \<open>The digits of a number, read back: the accumulator runs through its leading parts.\<close>

lemma leading: "32 * (m div (32 * k)) + m div k mod 32 = (m :: nat) div k"
  by (simp add: mult.commute [of 32 k] div_mult2_eq)

lemma div_div: "(m :: nat) div numeral a div numeral b = m div (numeral a * numeral b)"
  by (simp only: div_mult2_eq)

lemma decode_step:
  "decode_nat (m div (32 * k)) n (m div k mod 32 # vs) =
     (if 3 \<le> n then (m div k div 2 ^ (n - 3) mod 256) # decode_nat (m div k) (n - 3) vs else decode_nat (m div k) (n + 5) vs)"
  by (simp add: leading Let_def)

lemmas decode_steps = decode_step [of m "2 ^ 35"] decode_step [of m "2 ^ 30"] decode_step [of m "2 ^ 25"]
  decode_step [of m "2 ^ 20"] decode_step [of m "2 ^ 15"] decode_step [of m "2 ^ 10"] decode_step [of m "2 ^ 5"]
  decode_step [of m 1] for m

definition digits32 :: "nat \<Rightarrow> nat list" where
  "digits32 m = map (\<lambda>i. m div 2 ^ (35 - i * 5) mod 32) [0..<8]"

definition digits256 :: "nat \<Rightarrow> nat list" where
  "digits256 m = map (\<lambda>j. m div 2 ^ (32 - j * 8) mod 256) [0..<5]"

lemma digits_unfold:
  "digits32 m = [m div 2 ^ 35 mod 32, m div 2 ^ 30 mod 32, m div 2 ^ 25 mod 32, m div 2 ^ 20 mod 32,
     m div 2 ^ 15 mod 32, m div 2 ^ 10 mod 32, m div 2 ^ 5 mod 32, m mod 32]"
  "digits256 m = [m div 2 ^ 32 mod 256, m div 2 ^ 24 mod 256, m div 2 ^ 16 mod 256, m div 2 ^ 8 mod 256, m mod 256]"
  by (simp_all add: digits32_def digits256_def upt_rec)

lemma decode_digits: "decode_nat (m div 2 ^ 40) 0 (digits32 m @ vs) = digits256 m @ decode_nat m 0 vs"
  using decode_steps [of m] by (simp add: digits_unfold div_div del: decode_nat.simps)

lemma decode_short_digits:
  assumes "l \<in> {1, 2, 3, 4}"
  shows "decode_nat (m div 2 ^ 40) 0 (take (chunk_chars l) (digits32 m)) = take l (digits256 m)"
  using assms decode_steps [of m]
  by (elim insertE emptyE) (simp_all add: digits_unfold chunk_chars_def div_div del: decode_nat.simps(2))

text \<open>The value of a chunk, and its digits in both bases behind any earlier input.\<close>

definition padded :: "bytes \<Rightarrow> bytes" where "padded chunk = take 5 (chunk @ replicate 5 (CHR 0x00))"

definition chunk_val :: "bytes \<Rightarrow> nat" where
  "chunk_val chunk = foldl (\<lambda>n b. 256 * n + byte_val b) 0 (padded chunk)"

lemma padded_five: obtains a b c d e where "padded chunk = [a, b, c, d, e]"
proof -
  have "length (padded chunk) = 5"
    by (simp add: padded_def)
  then show thesis
    using that by (auto simp: numeral_eq_Suc length_Suc_conv)
qed

lemma digits256_chunk: "digits256 (a * 2 ^ 40 + chunk_val chunk) = map byte_val (padded chunk)"
proof -
  obtain b c d e f where p: "padded chunk = [b, c, d, e, f]"
    by (rule padded_five)
  have shift: "(256 * x + byte_val y) div 256 = x" "(256 * x + byte_val y) mod 256 = byte_val y" for x y
    using byte_val_less [of y] by simp_all
  let ?m = "256 * (256 * (256 * (256 * (256 * a + byte_val b) + byte_val c) + byte_val d) + byte_val e) + byte_val f"
  have "a * 2 ^ 40 + chunk_val chunk = ?m"
    by (simp add: chunk_val_def p)
  moreover have "?m div 2 ^ 8 = ?m div 256" "?m div 2 ^ 16 = ?m div 256 div 256" "?m div 2 ^ 24 = ?m div 256 div 256 div 256"
      "?m div 2 ^ 32 = ?m div 256 div 256 div 256 div 256"
    by (simp_all only: div_div) simp_all
  ultimately show ?thesis
    by (simp only: digits_unfold shift) (simp add: p)
qed

lemma chunk_val_less: "chunk_val chunk < 2 ^ 40"
proof -
  obtain b c d e f where "padded chunk = [b, c, d, e, f]"
    by (rule padded_five)
  then show ?thesis
    using byte_val_less [of b] byte_val_less [of c] byte_val_less [of d] byte_val_less [of e] byte_val_less [of f]
    by (simp add: chunk_val_def)
qed

lemma digits32_high: "digits32 (a * 2 ^ 40 + n) = digits32 n"
proof -
  have "(a * 2 ^ 40 + n) div 2 ^ (35 - i * 5) mod 32 = n div 2 ^ (35 - i * 5) mod 32" for i
  proof -
    let ?k = "35 - i * 5"
    have "(2 :: nat) ^ 40 = 2 ^ (35 - ?k) * 2 ^ (5 + ?k)"
      by (simp flip: power_add)
    then have "(a * 2 ^ 40 + n) mod 2 ^ (5 + ?k) = n mod 2 ^ (5 + ?k)"
      by (simp only: mult.assoc [symmetric] mod_mult_self3)
    then have "take_bit 5 (drop_bit ?k (a * 2 ^ 40 + n)) = take_bit 5 (drop_bit ?k n)"
      by (simp only: take_bit_drop_bit take_bit_eq_mod [of "5 + ?k"])
    then show ?thesis
      by (simp add: take_bit_eq_mod drop_bit_eq_div)
  qed
  then show ?thesis
    by (simp add: digits32_def)
qed

lemma encode_chunk_digits: "encode_chunk chunk = map b32_char (take (chunk_chars (length chunk)) (digits32 (chunk_val chunk)))"
proof -
  have bits: "unat (drop_bit k (chunk_bits chunk) AND 0x1F) = chunk_val chunk div 2 ^ k mod 32" for k
  proof -
    have "unat (chunk_bits chunk) = chunk_val chunk"
      using chunk_val_less [of chunk] by (simp add: chunk_bits_def chunk_val_def padded_def unat_of_nat)
    moreover have "(0x1F :: u64) = mask 5"
      by (simp add: mask_eq_exp_minus_1)
    ultimately have "unat (drop_bit k (chunk_bits chunk) AND 0x1F) = take_bit 5 (drop_bit k (chunk_val chunk))"
      by (simp only: unsigned_take_bit_eq unat_drop_bit_eq flip: take_bit_eq_mask)
    then show ?thesis
      by (simp add: take_bit_eq_mod drop_bit_eq_div)
  qed
  have "chunk_chars (length chunk) \<le> 8"
    by (simp add: chunk_chars_def)
  then show ?thesis
    by (simp add: encode_chunk_def digits32_def b32_char_def bits take_map)
qed

fun encode_nat :: "bytes \<Rightarrow> nat list" where
  "encode_nat data = (if data = [] then []
     else take (chunk_chars (length (take 5 data))) (digits32 (chunk_val (take 5 data))) @ encode_nat (drop 5 data))"

declare encode_nat.simps [simp del]

lemma base32_encode_nat: "base32_encode data = map b32_char (encode_nat data)"
proof (induction data rule: base32_encode.induct)
  case (1 data)
  then show ?case
    by (subst base32_encode.simps, subst encode_nat.simps) (simp add: encode_chunk_digits)
qed

lemma encode_nat_less: "list_all (\<lambda>v. v < 32) (encode_nat data)"
proof (induction data rule: base32_encode.induct)
  case (1 data)
  have "list_all (\<lambda>v. v < 32) (digits32 m)" for m
    by (simp add: digits32_def list_all_iff)
  with 1 show ?case
    by (subst encode_nat.simps) (auto simp: list_all_iff dest: in_set_takeD)
qed

lemma decode_encode_nat: "decode_nat a 0 (encode_nat data) = map byte_val data"
proof (induction data arbitrary: a rule: base32_encode.induct)
  case (1 data)
  let ?m = "a * 2 ^ 40 + chunk_val (take 5 data)"
  have m: "?m div 2 ^ 40 = a"
    using chunk_val_less [of "take 5 data"] by simp
  consider "data = []" | "length data \<in> {1, 2, 3, 4}" | "5 \<le> length data"
  proof -
    have "length data = 0 \<or> length data \<in> {1, 2, 3, 4} \<or> 5 \<le> length data"
      by (simp del: length_0_conv) linarith
    then show thesis
      using that by auto
  qed
  then show ?case
  proof cases
    case 2
    then have short: "take 5 data = data" "drop 5 data = []" "data \<noteq> []"
      by auto
    then have "encode_nat data = take (chunk_chars (length data)) (digits32 (chunk_val data))"
      by (subst encode_nat.simps) (simp add: encode_nat.simps [of "[]"])
    then have "decode_nat a 0 (encode_nat data) = take (length data) (digits256 ?m)"
      using decode_short_digits [OF 2, of ?m, unfolded m digits32_high] by (simp add: short)
    also have "\<dots> = map byte_val data"
      unfolding digits256_chunk using 2 by (auto simp: padded_def take_map short)
    finally show ?thesis .
  next
    case 3
    then have "encode_nat data = digits32 ?m @ encode_nat (drop 5 data)"
      unfolding digits32_high by (subst encode_nat.simps) (auto simp: chunk_chars_def min_def digits32_def)
    then have "decode_nat a 0 (encode_nat data) = digits256 ?m @ map byte_val (drop 5 data)"
      using decode_digits [of ?m, unfolded m] 1 [of ?m] 3 by (cases data) auto
    also have "\<dots> = map byte_val (take 5 data) @ map byte_val (drop 5 data)"
      unfolding digits256_chunk using 3 by (simp add: padded_def)
    finally show ?thesis
      by (simp flip: map_append)
  qed (simp add: encode_nat.simps [of "[]"])
qed

section \<open>The window\<close>

lemma nat_to_string_length: "n < 10 ^ d \<Longrightarrow> 0 < d \<Longrightarrow> length (nat_to_string n) \<le> d"
proof (induction n arbitrary: d rule: nat_to_string.induct)
  case (1 n)
  show ?case
  proof (cases "n < 10")
    case False
    then obtain e where e: "d = Suc e" "0 < e"
      using 1(2,3) by (cases d; cases "d - 1") auto
    then have "n div 10 < 10 ^ e"
      using 1(2) by (simp add: less_mult_imp_div_less mult.commute)
    with 1(1) [OF False] e False show ?thesis
      by (subst nat_to_string.simps) auto
  qed (use 1(3) in \<open>subst nat_to_string.simps, simp\<close>)
qed

lemma totp_at_length: "length (totp_at H key step digits alg) = clamp_digits digits"
  and totp_at_digits: "list_all is_ascii_digit (totp_at H key step digits alg)"
proof -
  let ?d = "clamp_digits digits"
  have d: "0 < ?d" "?d \<le> 9"
    by (simp_all add: clamp_digits_def)
  have "(10 :: nat) ^ ?d \<le> 10 ^ 9"
    using d by (intro power_increasing) simp_all
  then have "unat (of_nat (10 ^ ?d) :: u32) = 10 ^ ?d"
    unfolding unat_of_nat by simp
  then have modulus: "unat ((10 :: u32) ^ ?d) = 10 ^ ?d"
    by simp
  have "unat (w mod 10 ^ ?d :: u32) < 10 ^ ?d" for w
    by (simp add: unat_mod modulus)
  then have "length (nat_to_string (unat (w mod 10 ^ ?d :: u32))) \<le> ?d" for w
    using d by (intro nat_to_string_length)
  then show "length (totp_at H key step digits alg) = clamp_digits digits"
    by (simp add: totp_at_def Let_def)
  show "list_all is_ascii_digit (totp_at H key step digits alg)"
  proof -
    have "list_all is_ascii_digit (replicate n (CHR ''0'') @ nat_to_string m)" for n m
      using nat_to_string_digits [of m] by (auto simp: list_all_iff is_ascii_digit_def byte_val_def)
    then show ?thesis
      unfolding totp_at_def Let_def .
  qed
qed

lemma unat_saturating_add: "unat (saturating_add a b) = min (unat a + unat b) (2 ^ 64 - 1)"
  by (simp add: saturating_add_def unat_word_ariths unsigned_minus_1_eq_mask mask_eq_exp_minus_1)

lemma set_words: "n < 2 ^ 64 \<Longrightarrow> (w :: u64) \<in> set (map of_nat [m..<Suc n]) \<longleftrightarrow> m \<le> unat w \<and> unat w \<le> n"
  unfolding set_map set_upt by (auto simp: unat_of_nat_u64 intro: image_eqI [of _ _ "unat w"])

lemma verify_steps_iff:
  "step \<in> set (verify_steps now policy) \<longleftrightarrow>
     unat now div max 1 (unat (otp_period_secs policy)) \<le> unat step + 1
     \<and> unat step \<le> unat now div max 1 (unat (otp_period_secs policy)) + unat (otp_look_ahead_window policy)"
proof -
  define current where "current = now div ucast (max (otp_period_secs policy) 1)"
  have "unat (ucast (max (otp_period_secs policy) 1) :: u64) = max 1 (unat (otp_period_secs policy))"
    by (simp add: unat_ucast_u32 max_def word_le_nat_alt)
  then have current: "unat current = unat now div max 1 (unat (otp_period_secs policy))"
    by (simp add: current_def unat_div)
  let ?last = "saturating_add current (ucast (otp_look_ahead_window policy))"
  have bounds: "unat ?last < 2 ^ 64" "unat step < 2 ^ 64"
    using unsigned_less [of ?last, where ?'a = nat] unsigned_less [of step, where ?'a = nat] by simp_all
  have "step \<in> set (verify_steps now policy) \<longleftrightarrow> unat (saturating_sub current 1) \<le> unat step \<and> unat step \<le> unat ?last"
    unfolding verify_steps_def Let_def current_def [symmetric] by (rule set_words [OF bounds(1)])
  also have "\<dots> \<longleftrightarrow> unat current \<le> unat step + 1 \<and> unat step \<le> unat current + unat (otp_look_ahead_window policy)"
    using bounds(2) by (simp add: unat_saturating_sub unat_saturating_add unat_ucast_u32) linarith
  finally show ?thesis
    unfolding current .
qed

lemma find_SomeD: "find P xs = Some x \<Longrightarrow> x \<in> set xs \<and> P x"
  by (induction xs) (auto split: if_splits)

text \<open>What a code must satisfy, stated without the search.\<close>

definition totp_acceptable :: "hmac \<Rightarrow> string \<Rightarrow> string \<Rightarrow> u64 \<Rightarrow> otp_policy \<Rightarrow> u64 option \<Rightarrow> u64 \<Rightarrow> bool" where
  "totp_acceptable H secret code now policy last_used step \<longleftrightarrow>
     (\<exists>key. base32_decode secret = Some key \<and> code = totp_at H key step (otp_digits policy) (otp_algorithm policy))
     \<and> unat now div max 1 (unat (otp_period_secs policy)) \<le> unat step + 1
     \<and> unat step \<le> unat now div max 1 (unat (otp_period_secs policy)) + unat (otp_look_ahead_window policy)
     \<and> (\<forall>used. last_used = Some used \<longrightarrow> used < step)"

lemma totp_verify_acceptable:
  assumes "totp_verify H secret code now policy last_used = Some step"
  shows "totp_acceptable H secret code now policy last_used step"
    and "length code = clamp_digits (otp_digits policy) \<and> list_all is_ascii_digit code"
proof -
  obtain key where key: "base32_decode secret = Some key"
    using assms by (auto simp: totp_verify_def split: Option.bind_splits)
  note found = find_SomeD [OF assms [unfolded totp_verify_def key bind.bind_lunit], unfolded verify_steps_iff]
  then show "totp_acceptable H secret code now policy last_used step"
    using key by (auto simp: totp_acceptable_def split: option.splits)
  show "length code = clamp_digits (otp_digits policy) \<and> list_all is_ascii_digit code"
    using found totp_at_length totp_at_digits by blast
qed

section \<open>Properties\<close>

text \<open>(C32) The base32 codec loses nothing: decoding the encoding of any byte string returns it.\<close>

theorem base32_roundtrip: "base32_decode (base32_encode data) = Some data"
  using decode_loop_nat [OF encode_nat_less, of 0 0 data]
  by (simp add: base32_decode_def base32_encode_nat decode_encode_nat byte_val_def o_def)

text \<open>(C31) A one-time code is accepted exactly when it is the code of a time step from the previous one to
  the end of the look-ahead window that is later than the last one used; it then has the
  configured number of digits (at least 1, at most 9), and the step returned is such a step.\<close>

theorem totp_accepted_iff:
  "case totp_verify H secret code now policy last_used of
     None \<Rightarrow> \<nexists>step. totp_acceptable H secret code now policy last_used step
   | Some step \<Rightarrow> totp_acceptable H secret code now policy last_used step
       \<and> length code = min 9 (max 1 (unat (otp_digits policy))) \<and> list_all is_ascii_digit code"
proof (cases "totp_verify H secret code now policy last_used")
  case None
  then show ?thesis
    by (auto simp: totp_verify_def totp_acceptable_def find_None_iff verify_steps_iff not_le split: option.splits Option.bind_splits)
next
  case (Some step)
  with totp_verify_acceptable [OF Some] show ?thesis
    by (simp add: clamp_digits_def)
qed

end
