(* ===== verification/Second_Factor.thy ===== *)
theory Second_Factor
  imports Totp_Codes Realm_Urls Grant_Base "HOL-Library.AList"
begin

text \<open>
  Authentication outside the browser, as the password grant and the device verification do it:
  the credentials of the in-memory storage (\<^verbatim>\<open>issuerd-storage/src/memory.rs\<close>), the password
  check with federation, and the second factor (\<^verbatim>\<open>issuerd-server/src/routes/oidc.rs\<close>).
  Password hashing and the providers of the federation are parameters.
\<close>

section \<open>Credentials\<close>

text \<open>The map's key has the JSON text of the credential type; a custom type is its bare text.\<close>

fun credential_type_json :: "credential_type \<Rightarrow> json" where
  "credential_type_json PasswordCred = JString ''password''"
| "credential_type_json Totp = JString ''totp''"
| "credential_type_json Hotp = JString ''hotp''"
| "credential_type_json WebAuthn = JString ''web_authn''"
| "credential_type_json WebAuthnPasswordless = JString ''web_authn_passwordless''"
| "credential_type_json KerberosCred = JString ''kerberos''"
| "credential_type_json SshPublicKey = JString ''ssh_public_key''"
| "credential_type_json (CustomCred s) = JString s"

type_synonym credentials = "string \<times> string \<times> json \<rightharpoonup> credential list"

definition get_credentials :: "string \<Rightarrow> string \<Rightarrow> credential_type \<Rightarrow> credentials \<Rightarrow> credential list" where
  "get_credentials realm user ty creds =
     (case creds (realm, user, credential_type_json ty) of Some list \<Rightarrow> list | None \<Rightarrow> [])"

definition create_credential :: "string \<Rightarrow> string \<Rightarrow> credential \<Rightarrow> credentials \<Rightarrow> credentials" where
  "create_credential realm user cred creds =
     creds((realm, user, credential_type_json (cred_type cred)) \<mapsto> get_credentials realm user (cred_type cred) creds @ [cred])"

text \<open>\<open>iter_mut().find\<close> followed by an assignment to what it found.\<close>

fun update_first :: "('a \<Rightarrow> bool) \<Rightarrow> ('a \<Rightarrow> 'a) \<Rightarrow> 'a list \<Rightarrow> 'a list" where
  "update_first P f [] = []"
| "update_first P f (x # xs) = (if P x then f x # xs else x # update_first P f xs)"

definition update_credential :: "string \<Rightarrow> string \<Rightarrow> credential \<Rightarrow> credentials \<Rightarrow> credentials" where
  "update_credential realm user cred creds =
     (let key = (realm, user, credential_type_json (cred_type cred)) in
      case creds key of
        None \<Rightarrow> creds
      | Some list \<Rightarrow> creds(key \<mapsto> update_first (\<lambda>c. cred_id c = cred_id cred) (\<lambda>_. cred) list))"

text \<open>\<open>Value::as_u64\<close>, and the assignment to a member of a JSON value: it panics (\<open>None\<close>) unless the
  value is an object or null.\<close>

definition json_as_u64 :: "json \<Rightarrow> u64 option" where
  "json_as_u64 v = (case v of JNumber t \<Rightarrow> parse_u64 t | _ \<Rightarrow> None)"

definition json_index_set :: "string \<Rightarrow> json \<Rightarrow> json \<Rightarrow> json option" where
  "json_index_set k v j =
     (case j of JObject ms \<Rightarrow> Some (JObject (AList.update k v ms)) | JNull \<Rightarrow> Some (JObject [(k, v)]) | _ \<Rightarrow> None)"

definition last_used_step :: "credential \<Rightarrow> u64 option" where
  "last_used_step c = Option.bind (json_get ''last_used_step'' (cred_data c)) json_as_u64"

definition consume_totp_step ::
    "string \<Rightarrow> string \<Rightarrow> string \<Rightarrow> u64 \<Rightarrow> credentials \<Rightarrow> bool option \<times> credentials" where
  "consume_totp_step realm user credential_id matched_step creds =
     (let key = (realm, user, credential_type_json Totp);
          hit = (\<lambda>c. cred_id c = credential_id \<and> cred_type c = Totp) in
      case creds key of
        None \<Rightarrow> (Some False, creds)
      | Some list \<Rightarrow>
          (case find hit list of
             None \<Rightarrow> (Some False, creds)
           | Some c \<Rightarrow>
               if (case last_used_step c of Some used \<Rightarrow> matched_step \<le> used | None \<Rightarrow> False) then (Some False, creds)
               else (case json_index_set ''last_used_step'' (JNumber (u64_to_string matched_step)) (cred_data c) of
                  None \<Rightarrow> (None, creds)
                | Some d \<Rightarrow> (Some True, creds(key \<mapsto> update_first hit (\<lambda>c. c\<lparr>cred_data := d\<rparr>) list)))))"

definition delete_credential :: "string \<Rightarrow> string \<Rightarrow> string \<Rightarrow> credentials \<Rightarrow> credentials" where
  "delete_credential realm user credential_id creds =
     (\<lambda>(r, u, ty). if r = realm \<and> u = user
        then map_option (filter (\<lambda>c. cred_id c \<noteq> credential_id)) (creds (r, u, ty)) else creds (r, u, ty))"

section \<open>Passwords\<close>

text \<open>\<open>PasswordHash::new\<close> and \<open>Argon2::verify_password\<close> of a password against a hash text; a user
  provider of the federation; the user storage.\<close>

record federation_provider =
  fp_id :: string
  fp_validate_password :: "string \<Rightarrow> string \<Rightarrow> issuerd_error + bool"

record account_env =
  ae_hash_parses :: "string \<Rightarrow> bool"
  ae_hash_verifies :: "string \<Rightarrow> string \<Rightarrow> bool"
  ae_hmac :: hmac
  ae_providers_for_realm :: "string \<Rightarrow> issuerd_error + federation_provider list"
  ae_get_user_by_username :: "string \<Rightarrow> string \<Rightarrow> issuerd_error + user option"

definition verify_password_credentials :: "account_env \<Rightarrow> credential list \<Rightarrow> string \<Rightarrow> bool" where
  "verify_password_credentials A creds password =
     list_ex (\<lambda>c. utf8_valid (cred_secret_data c) \<and> ae_hash_parses A (cred_secret_data c)
       \<and> ae_hash_verifies A password (cred_secret_data c)) creds"

text \<open>The verdict of the provider the user is linked to, if it gives one.\<close>

definition federated_verdict :: "account_env \<Rightarrow> string \<Rightarrow> user \<Rightarrow> string \<Rightarrow> string \<Rightarrow> bool option" where
  "federated_verdict A realm user username password =
     Option.bind (usr_federation_link user) (\<lambda>link.
       case ae_providers_for_realm A realm of
         Inl _ \<Rightarrow> None
       | Inr providers \<Rightarrow>
           Option.bind (find (\<lambda>p. fp_id p = link) providers) (\<lambda>p.
             case fp_validate_password p username password of Inr b \<Rightarrow> Some b | Inl _ \<Rightarrow> None))"

definition verify_user_password :: "account_env \<Rightarrow> credentials \<Rightarrow> string \<Rightarrow> user \<Rightarrow> string \<Rightarrow> string \<Rightarrow> bool" where
  "verify_user_password A creds realm user username password =
     (case federated_verdict A realm user username password of
        Some b \<Rightarrow> b
      | None \<Rightarrow> verify_password_credentials A (get_credentials realm (usr_id user) PasswordCred creds) password)"

section \<open>The second factor\<close>

datatype oob_reject = MissingOtp | InvalidOtp | WebAuthnOnly | OobInternal issuerd_error

fun matching_credential ::
    "hmac \<Rightarrow> otp_policy \<Rightarrow> u64 \<Rightarrow> string \<Rightarrow> credential list \<Rightarrow> (credential \<times> u64) option" where
  "matching_credential H policy now code [] = None"
| "matching_credential H policy now code (c # cs) =
     (if cred_type c \<noteq> Totp \<or> \<not> utf8_valid (cred_secret_data c) then matching_credential H policy now code cs
      else (case totp_verify H (cred_secret_data c) code now policy (last_used_step c) of
         Some step \<Rightarrow> Some (c, step)
       | None \<Rightarrow> matching_credential H policy now code cs))"

text \<open>The credential lookups, the reservation of an attempt (its three cache calls at the first
  three instants), the search, the atomic claim of the step, the reset of the budget.  \<open>None\<close> is a
  panic of the claim.\<close>

definition enforce_oob_second_factor ::
    "'s dist_cache \<Rightarrow> account_env \<Rightarrow> realm \<Rightarrow> user \<Rightarrow> string option \<Rightarrow> (nat \<Rightarrow> nat) \<Rightarrow> credentials \<Rightarrow> 's
     \<Rightarrow> (oob_reject + unit) option \<times> credentials \<times> 's" where
  "enforce_oob_second_factor C A realm user totp_code ts creds s =
     (let rid = rlm_id realm;
          otp_creds = get_credentials rid (usr_id user) Totp creds @ get_credentials rid (usr_id user) Hotp creds in
      if otp_creds = []
      then (Some (if get_credentials rid (usr_id user) WebAuthn creds = [] then Inr () else Inl WebAuthnOnly), creds, s)
      else (case totp_code of
         None \<Rightarrow> (Some (Inl MissingOtp), creds, s)
       | Some code \<Rightarrow>
           (case reserve_otp_attempt C (otp_failure_config realm) rid (usr_username user) (ts 0, ts 1, ts 2) s of
              (OtpDone (Inr True), s1) \<Rightarrow>
                (case matching_credential (ae_hmac A) (rlm_otp_policy realm) (now_secs (ts 3)) code otp_creds of
                   None \<Rightarrow> (Some (Inl InvalidOtp), creds, s1)
                 | Some (c, step) \<Rightarrow>
                     (case consume_totp_step rid (usr_id user) (cred_id c) step creds of
                        (None, creds') \<Rightarrow> (None, creds', s1)
                      | (Some False, creds') \<Rightarrow> (Some (Inl InvalidOtp), creds', s1)
                      | (Some True, creds') \<Rightarrow>
                          (Some (Inr ()), creds', snd (clear_otp_attempts C (ts 4) rid (usr_username user) s1))))
            | (_, s1) \<Rightarrow> (Some (Inl InvalidOtp), creds, s1))))"

section \<open>The watermark of a credential\<close>

lemma json_index_set_get: "json_index_set k v j = Some j' \<Longrightarrow> json_get k j' = Some v"
  by (auto simp: json_index_set_def json_get_def update_conv' split: json.splits)

lemma update_first_find:
  "find P xs = Some x \<Longrightarrow> P (f x) \<Longrightarrow> find P (update_first P f xs) = Some (f x)"
  by (induction xs) (auto split: if_splits)

lemma find_update_other:
  "find P xs = Some x \<Longrightarrow> (\<And>y. P y \<Longrightarrow> \<not> Q y \<and> \<not> Q (f y)) \<Longrightarrow> find Q (update_first P f xs) = find Q xs"
  by (induction xs) (auto split: if_splits)

definition totp_credential :: "credentials \<Rightarrow> string \<times> string \<times> string \<Rightarrow> credential option" where
  "totp_credential creds k = (case k of (realm, user, cid) \<Rightarrow>
     find (\<lambda>c. cred_id c = cid \<and> cred_type c = Totp) (get_credentials realm user Totp creds))"

definition watermark :: "credentials \<Rightarrow> string \<times> string \<times> string \<Rightarrow> u64 option" where
  "watermark creds k = Option.bind (totp_credential creds k) last_used_step"

text \<open>A claim succeeds only above the watermark, which it raises to the step; it leaves every other
  watermark alone.\<close>

lemma watermark_simps:
  "watermark creds (realm, user, cid) =
     Option.bind (find (\<lambda>c. cred_id c = cid \<and> cred_type c = Totp) (get_credentials realm user Totp creds)) last_used_step"
  by (simp add: watermark_def totp_credential_def)

lemma consume_totp_step_watermark:
  assumes "consume_totp_step realm user cid step creds = (r, creds')"
  shows "r = Some True \<Longrightarrow> (\<forall>w. watermark creds (realm, user, cid) = Some w \<longrightarrow> w < step)
      \<and> watermark creds' (realm, user, cid) = Some step"
    and "k \<noteq> (realm, user, cid) \<or> r \<noteq> Some True \<Longrightarrow> watermark creds' k = watermark creds k"
proof -
  let ?key = "(realm, user, credential_type_json Totp)" and ?hit = "\<lambda>c. cred_id c = cid \<and> cred_type c = Totp"
  have same: "creds' = creds" if "r \<noteq> Some True"
    using assms that by (auto simp: consume_totp_step_def Let_def split: option.splits if_splits)
  have changed: "\<exists>list c d. creds ?key = Some list \<and> find ?hit list = Some c
      \<and> (\<forall>w. last_used_step c = Some w \<longrightarrow> w < step) \<and> json_index_set ''last_used_step'' (JNumber (u64_to_string step)) (cred_data c) = Some d
      \<and> creds' = creds(?key \<mapsto> update_first ?hit (\<lambda>c. c\<lparr>cred_data := d\<rparr>) list)" if "r = Some True"
    using assms that by (auto simp: consume_totp_step_def Let_def not_le split: option.splits if_splits)
  show "(\<forall>w. watermark creds (realm, user, cid) = Some w \<longrightarrow> w < step) \<and> watermark creds' (realm, user, cid) = Some step"
    if ok: "r = Some True"
  proof -
    obtain list c d where list: "creds ?key = Some list" and c: "find ?hit list = Some c"
      and above: "\<forall>w. last_used_step c = Some w \<longrightarrow> w < step"
      and d: "json_index_set ''last_used_step'' (JNumber (u64_to_string step)) (cred_data c) = Some d"
      and creds': "creds' = creds(?key \<mapsto> update_first ?hit (\<lambda>c. c\<lparr>cred_data := d\<rparr>) list)"
      using changed [OF ok] by blast
    have "?hit (c\<lparr>cred_data := d\<rparr>)"
      using find_SomeD [OF c] by simp
    with c have "find ?hit (update_first ?hit (\<lambda>c. c\<lparr>cred_data := d\<rparr>) list) = Some (c\<lparr>cred_data := d\<rparr>)"
      by (rule update_first_find)
    moreover have "last_used_step (c\<lparr>cred_data := d\<rparr>) = Some step"
      by (simp add: last_used_step_def json_index_set_get [OF d] json_as_u64_def)
    ultimately show ?thesis
      using list c above by (simp add: watermark_simps get_credentials_def creds' del: credential_type_json.simps)
  qed
  show "watermark creds' k = watermark creds k" if other: "k \<noteq> (realm, user, cid) \<or> r \<noteq> Some True"
  proof (cases "r = Some True")
    case True
    then obtain list c d where list: "creds ?key = Some list" and c: "find ?hit list = Some c"
      and creds': "creds' = creds(?key \<mapsto> update_first ?hit (\<lambda>c. c\<lparr>cred_data := d\<rparr>) list)"
      using changed by blast
    obtain r' u' i' where k: "k = (r', u', i')"
      by (cases k)
    with other True have "i' \<noteq> cid" if "r' = realm" "u' = user"
      using that by simp
    then show ?thesis
      using list find_update_other [OF c, of "\<lambda>c. cred_id c = i' \<and> cred_type c = Totp" "\<lambda>c. c\<lparr>cred_data := d\<rparr>"]
      by (auto simp: k watermark_simps get_credentials_def creds' simp del: credential_type_json.simps)
  qed (use same in simp)
qed

text \<open>Claims in the order the mutation lock serializes them.\<close>

fun accepted_steps ::
    "string \<times> string \<times> string \<Rightarrow> ((string \<times> string \<times> string) \<times> u64) list \<Rightarrow> credentials \<Rightarrow> u64 list" where
  "accepted_steps k [] creds = []"
| "accepted_steps k (((realm, user, cid), step) # claims) creds =
     (let (r, creds') = consume_totp_step realm user cid step creds
      in (if (realm, user, cid) = k \<and> r = Some True then [step] else []) @ accepted_steps k claims creds')"

lemma accepted_steps_sorted:
  "sorted_wrt (<) (accepted_steps k claims creds)
   \<and> (\<forall>w. watermark creds k = Some w \<longrightarrow> (\<forall>step \<in> set (accepted_steps k claims creds). w < step))"
proof (induction k claims creds rule: accepted_steps.induct)
  case (2 k realm user cid step claims creds)
  obtain r creds' where r: "consume_totp_step realm user cid step creds = (r, creds')"
    by (cases "consume_totp_step realm user cid step creds")
  note IH = 2 [OF r [symmetric] refl] and w = consume_totp_step_watermark [OF r]
  show ?case
  proof (cases "(realm, user, cid) = k \<and> r = Some True")
    case True
    with IH w(1) show ?thesis
      by (fastforce simp: r dest: order.strict_trans)
  next
    case False
    with IH w(2) [of k] show ?thesis
      by (auto simp: r)
  qed
qed simp

end
