(* ===== verification/Otp_Race.thy ===== *)
theory Otp_Race
  imports Login_Failures Cache_Races
begin

text \<open>
  Racing one-time-code checks.  Any number of requests run
  \<^verbatim>\<open>LoginFailureTracker::reserve_otp_attempt\<close> at once; each of the calls they make is a step of
  an interleaving, in between which the cache serves calls on other keys.  However they
  interleave, the checks granted within one counting window are bounded by the threshold.
\<close>

section \<open>The interleaving\<close>

definition otp_keys :: "string \<Rightarrow> string \<Rightarrow> string set" where
  "otp_keys realm ident = {failure_count_key realm ident OTP_FAILURE_SOURCE,
     lockout_key realm ident OTP_FAILURE_SOURCE}"

definition otp_system_step ::
    "'s dist_cache \<Rightarrow> login_failure_config \<Rightarrow> string \<Rightarrow> string \<Rightarrow> nat
     \<Rightarrow> (otp_pc, 's) system \<Rightarrow> (otp_pc, 's) system \<Rightarrow> bool" where
  "otp_system_step C config realm ident =
     system_step (\<lambda>_. otp_step C config realm ident) (spares C (otp_keys realm ident))"

definition granted :: "nat \<Rightarrow> otp_pc \<Rightarrow> bool" where
  "granted i pc \<longleftrightarrow> pc = OtpDone (Inr True)"

fun uncounted :: "nat \<Rightarrow> otp_pc \<Rightarrow> bool" where
  "uncounted i OtpStart = True"
| "uncounted i OtpUnlocked = True"
| "uncounted i _ = False"

fun running :: "nat \<Rightarrow> otp_pc \<Rightarrow> bool" where
  "running i (OtpDone _) = False"
| "running i _ = True"

section \<open>The calls of one request\<close>

context distributed_cache
begin

lemma otp_step_start:
  "otp_step C config realm ident t OtpStart s =
     (if view t s (lockout_key realm ident OTP_FAILURE_SOURCE) \<noteq> None then OtpDone (Inr False)
      else OtpUnlocked, snd (dc_get C t (lockout_key realm ident OTP_FAILURE_SOURCE) s))"
  by (simp add: otp_step_def is_temporarily_locked_def calls)

lemma otp_step_count:
  assumes "fst (dc_increment C t (failure_count_key realm ident OTP_FAILURE_SOURCE)
      (Some (secs (lf_failure_ttl_secs config))) s) = Inr a"
  shows "otp_step C config realm ident t OtpUnlocked s =
     (if a < ucast (lf_max_failures config) then OtpDone (Inr True)
      else if lockout_for config a = 0
        then OtpDone (Inr (a \<le> ucast (max (lf_max_failures config) 1)))
      else OtpClaim (lockout_for config a),
      snd (dc_increment C t (failure_count_key realm ident OTP_FAILURE_SOURCE)
        (Some (secs (lf_failure_ttl_secs config))) s))"
  using assms
  by (cases "dc_increment C t (failure_count_key realm ident OTP_FAILURE_SOURCE)
      (Some (secs (lf_failure_ttl_secs config))) s") (simp add: otp_step_def Let_def)

lemma otp_step_claim:
  assumes "fst (dc_increment C t (lockout_key realm ident OTP_FAILURE_SOURCE)
      (Some (secs wait)) s) = Inr a"
  shows "otp_step C config realm ident t (OtpClaim wait) s =
     (OtpDone (Inr (a = 1)),
      snd (dc_increment C t (lockout_key realm ident OTP_FAILURE_SOURCE) (Some (secs wait)) s))"
  using assms
  by (cases "dc_increment C t (lockout_key realm ident OTP_FAILURE_SOURCE) (Some (secs wait)) s")
    (simp add: otp_step_def)

end

section \<open>The invariant\<close>

text \<open>The shortest lockout, and the number of checks the counter alone may grant.\<close>

definition first_wait :: "login_failure_config \<Rightarrow> u64" where
  "first_wait config = lockout_for config (ucast (lf_max_failures config))"

definition count_bound :: "login_failure_config \<Rightarrow> nat" where
  "count_bound config =
     (if first_wait config = 0 then max 1 (unat (lf_max_failures config))
      else unat (lf_max_failures config) - 1)"

text \<open>\<open>k\<close> attempts are counted and \<open>m\<close> claims are made; the last conjunct bounds the grants.\<close>

definition otp_inv ::
    "(nat \<Rightarrow> 's \<Rightarrow> string \<rightharpoonup> entry) \<Rightarrow> login_failure_config \<Rightarrow> string \<Rightarrow> string \<Rightarrow> nat \<Rightarrow> nat
     \<Rightarrow> nat \<Rightarrow> nat \<Rightarrow> (otp_pc, 's) system \<Rightarrow> bool" where
  "otp_inv view config realm ident n t0 k m \<sigma> \<longleftrightarrow>
     t0 \<le> sys_now \<sigma>
     \<and> counter_at (t0 + secs (lf_failure_ttl_secs config)) k
         (view (sys_now \<sigma>) (sys_state \<sigma>) (failure_count_key realm ident OTP_FAILURE_SOURCE))
     \<and> counter_at (t0 + secs (first_wait config)) m
         (view (sys_now \<sigma>) (sys_state \<sigma>) (lockout_key realm ident OTP_FAILURE_SOURCE))
     \<and> k + how_many n uncounted (sys_pcs \<sigma>) \<le> n
     \<and> m + how_many n running (sys_pcs \<sigma>) \<le> n
     \<and> (\<forall>i w. sys_pcs \<sigma> i = OtpClaim w \<longrightarrow> first_wait config \<noteq> 0 \<and> first_wait config \<le> w)
     \<and> (first_wait config = 0 \<longrightarrow> m = 0)
     \<and> how_many n granted (sys_pcs \<sigma>) \<le> min k (count_bound config) + of_bool (0 < m)"

definition in_window :: "login_failure_config \<Rightarrow> nat \<Rightarrow> nat \<Rightarrow> bool" where
  "in_window config t0 t \<longleftrightarrow> t < t0 + secs (lf_failure_ttl_secs config)
     \<and> (first_wait config = 0 \<or> t < t0 + secs (first_wait config))"

lemma in_window_earlier: "in_window config t0 u \<Longrightarrow> t \<le> u \<Longrightarrow> in_window config t0 t"
  by (auto simp: in_window_def)

lemma secs_mono: "a \<le> b \<Longrightarrow> secs a \<le> secs b"
  by (simp add: secs_def from_secs_def word_le_nat_alt)

text \<open>The verdict on the \<open>k + 1\<close>st counted attempt.\<close>

lemma counted_verdict:
  assumes "Suc k < 2 ^ 64 - 1"
  defines "a \<equiv> of_nat (Suc k) :: u64"
  shows "a < ucast (lf_max_failures config) \<longleftrightarrow> Suc k < unat (lf_max_failures config)"
    and "a \<le> ucast (max (lf_max_failures config) 1) \<longleftrightarrow> Suc k \<le> max 1 (unat (lf_max_failures config))"
    and "lockout_for config a = 0 \<longleftrightarrow> first_wait config = 0"
    and "\<not> a < ucast (lf_max_failures config) \<Longrightarrow> first_wait config \<le> lockout_for config a"
proof -
  have a: "unat a = Suc k"
    unfolding a_def using assms(1) by (intro unat_of_nat_u64) simp
  have "unat (lf_max_failures config) < 2 ^ LENGTH(32)"
    by (rule unsigned_less)
  then have u32: "unat (lf_max_failures config) < 2 ^ 64 - 1"
    by simp
  show lt: "a < ucast (lf_max_failures config) \<longleftrightarrow> Suc k < unat (lf_max_failures config)"
    by (simp add: word_less_nat_alt unat_ucast_u32 a)
  have "unat (max w 1) = max 1 (unat w)" for w :: u32
    by (simp add: max_def word_le_nat_alt)
  then show "a \<le> ucast (max (lf_max_failures config) 1)
      \<longleftrightarrow> Suc k \<le> max 1 (unat (lf_max_failures config))"
    by (simp only: word_le_nat_alt unat_ucast_u32 a)
  show "lockout_for config a = 0 \<longleftrightarrow> first_wait config = 0"
    using assms(1) u32 by (simp add: first_wait_def lockout_for_pos_iff a unat_ucast_u32)
  show "first_wait config \<le> lockout_for config a" if "\<not> a < ucast (lf_max_failures config)"
    using that assms(1) lt unfolding first_wait_def word_le_nat_alt
    by (intro lockout_for_mono) (simp_all add: a unat_ucast_u32)
qed

lemmas how_many_upds = how_many_upd [where P = granted] how_many_upd [where P = uncounted]
  how_many_upd [where P = running]

context distributed_cache
begin

text \<open>Later instants and calls that leave the two keys alone keep the invariant.\<close>

lemma otp_inv_frame:
  assumes inv: "otp_inv view config realm ident n t0 k m \<sigma>"
    and t: "sys_now \<sigma> \<le> t" and win: "in_window config t0 t"
    and frame: "\<And>key. key \<in> {failure_count_key realm ident OTP_FAILURE_SOURCE,
        lockout_key realm ident OTP_FAILURE_SOURCE} \<Longrightarrow> view t s key = view t (sys_state \<sigma>) key"
  shows "otp_inv view config realm ident n t0 k m (\<sigma>\<lparr>sys_state := s, sys_now := t\<rparr>)"
proof -
  have "m = 0 \<or> t < t0 + secs (first_wait config)"
    using inv win by (auto simp: otp_inv_def in_window_def)
  with inv t win show ?thesis
    using view_counter [of _ k "sys_now \<sigma>" "sys_state \<sigma>" _ t] view_counter [of _ m "sys_now \<sigma>" "sys_state \<sigma>" _ t]
    by (simp add: otp_inv_def in_window_def frame)
qed

lemma otp_inv_start:
  assumes inv: "otp_inv view config realm ident n t0 k m \<sigma>"
    and t: "sys_now \<sigma> \<le> t" and win: "in_window config t0 t"
    and i: "i < n" "sys_pcs \<sigma> i = OtpStart"
    and step: "otp_step C config realm ident t OtpStart (sys_state \<sigma>) = (pc, s)"
  shows "otp_inv view config realm ident n t0 k m
    \<lparr>sys_state = s, sys_now = t, sys_pcs = (sys_pcs \<sigma>)(i := pc)\<rparr>"
proof -
  have s: "s = snd (dc_get C t (lockout_key realm ident OTP_FAILURE_SOURCE) (sys_state \<sigma>))"
    and pc: "pc = OtpDone (Inr False) \<or> pc = OtpUnlocked"
    using step by (auto simp: otp_step_start split: if_splits)
  have "otp_inv view config realm ident n t0 k m (\<sigma>\<lparr>sys_state := s, sys_now := t\<rparr>)"
    by (rule otp_inv_frame [OF inv t win]) (simp add: s get_view)
  then show ?thesis
    using pc how_many_upds [OF i(1), of "sys_pcs \<sigma>" pc] i(2)
    by (auto simp: otp_inv_def granted_def)
qed

lemma otp_inv_count:
  assumes inv: "otp_inv view config realm ident n t0 k m \<sigma>"
    and t: "sys_now \<sigma> \<le> t" and win: "in_window config t0 t" and n: "n < 2 ^ 64 - 1"
    and i: "i < n" "sys_pcs \<sigma> i = OtpUnlocked"
    and step: "otp_step C config realm ident t OtpUnlocked (sys_state \<sigma>) = (pc, s)"
  shows "otp_inv view config realm ident n t0 (Suc k) m
    \<lparr>sys_state = s, sys_now = t, sys_pcs = (sys_pcs \<sigma>)(i := pc)\<rparr>"
proof -
  let ?key = "failure_count_key realm ident OTP_FAILURE_SOURCE"
  let ?x = "t0 + secs (lf_failure_ttl_secs config)"
  have now: "otp_inv view config realm ident n t0 k m (\<sigma>\<lparr>sys_state := sys_state \<sigma>, sys_now := t\<rparr>)"
    by (rule otp_inv_frame [OF inv t win]) simp
  then have k: "counter_at ?x k (view t (sys_state \<sigma>) ?key)" and x: "?x \<le> t + secs (lf_failure_ttl_secs config)"
    by (simp_all add: otp_inv_def)
  note inc = increment_counter [OF k x]
  have "0 < how_many n uncounted (sys_pcs \<sigma>)"
    using i by (intro how_many_pos [of i]) simp_all
  then have small: "Suc k < 2 ^ 64 - 1"
    using inv n by (simp add: otp_inv_def)
  have s: "s = snd (dc_increment C t ?key (Some (secs (lf_failure_ttl_secs config))) (sys_state \<sigma>))"
    and pc: "pc = (if Suc k < unat (lf_max_failures config) then OtpDone (Inr True)
      else if first_wait config = 0 then OtpDone (Inr (Suc k \<le> max 1 (unat (lf_max_failures config))))
      else OtpClaim (lockout_for config (of_nat (Suc k))))"
    using step unfolding otp_step_count [OF inc(1)] counted_verdict [OF small] by simp_all
  have count: "counter_at ?x (Suc k) (view t s ?key)"
    using inc(2) [of t] win by (simp add: s in_window_def)
  have marker: "view t s (lockout_key realm ident OTP_FAILURE_SOURCE)
      = view t (sys_state \<sigma>) (lockout_key realm ident OTP_FAILURE_SOURCE)"
    using keys_differ [symmetric] by (simp add: s increment_other)
  have claim: "first_wait config \<le> lockout_for config (of_nat (Suc k))"
    if "\<not> Suc k < unat (lf_max_failures config)"
    using counted_verdict(1,4) [OF small, of config] that by blast
  show ?thesis
    using now count marker pc claim how_many_upds [OF i(1), of "sys_pcs \<sigma>" pc] i(2)
    by (auto simp: otp_inv_def granted_def count_bound_def of_bool_def split: if_splits)
qed

lemma otp_inv_claim:
  assumes inv: "otp_inv view config realm ident n t0 k m \<sigma>"
    and t: "sys_now \<sigma> \<le> t" and win: "in_window config t0 t" and n: "n < 2 ^ 64 - 1"
    and i: "i < n" "sys_pcs \<sigma> i = OtpClaim w"
    and step: "otp_step C config realm ident t (OtpClaim w) (sys_state \<sigma>) = (pc, s)"
  shows "otp_inv view config realm ident n t0 k (Suc m)
    \<lparr>sys_state = s, sys_now = t, sys_pcs = (sys_pcs \<sigma>)(i := pc)\<rparr>"
proof -
  let ?key = "lockout_key realm ident OTP_FAILURE_SOURCE"
  let ?x = "t0 + secs (first_wait config)"
  have now: "otp_inv view config realm ident n t0 k m (\<sigma>\<lparr>sys_state := sys_state \<sigma>, sys_now := t\<rparr>)"
    by (rule otp_inv_frame [OF inv t win]) simp
  have w: "first_wait config \<noteq> 0" "first_wait config \<le> w"
    using inv i(2) by (auto simp: otp_inv_def)
  then have m: "counter_at ?x m (view t (sys_state \<sigma>) ?key)" and x: "?x \<le> t + secs w"
    using now secs_mono [of "first_wait config" w] by (simp_all add: otp_inv_def)
  note inc = increment_counter [OF m x]
  have "0 < how_many n running (sys_pcs \<sigma>)"
    using i by (intro how_many_pos [of i]) simp_all
  then have "Suc m < 2 ^ 64"
    using inv n by (simp add: otp_inv_def)
  then have "unat (of_nat (Suc m) :: u64) = Suc m"
    by (rule unat_of_nat_u64)
  then have first: "(of_nat (Suc m) :: u64) = 1 \<longleftrightarrow> m = 0"
    by (auto simp: word_unat_eq_iff simp del: of_nat_Suc)
  have s: "s = snd (dc_increment C t ?key (Some (secs w)) (sys_state \<sigma>))"
    and pc: "pc = OtpDone (Inr (m = 0))"
    using step unfolding otp_step_claim [OF inc(1)] first by simp_all
  have marker: "counter_at ?x (Suc m) (view t s ?key)"
    using inc(2) [of t] win w by (simp add: s in_window_def)
  have count: "view t s (failure_count_key realm ident OTP_FAILURE_SOURCE)
      = view t (sys_state \<sigma>) (failure_count_key realm ident OTP_FAILURE_SOURCE)"
    using keys_differ by (simp add: s increment_other)
  show ?thesis
    using now count marker pc w how_many_upds [OF i(1), of "sys_pcs \<sigma>" pc] i(2)
    by (auto simp: otp_inv_def granted_def of_bool_def split: if_splits)
qed

lemma otp_system_step_inv:
  assumes "otp_system_step C config realm ident n \<sigma> \<sigma>'"
    and inv: "otp_inv view config realm ident n t0 k m \<sigma>"
    and win: "in_window config t0 (sys_now \<sigma>')" and n: "n < 2 ^ 64 - 1"
  shows "\<exists>k m. otp_inv view config realm ident n t0 k m \<sigma>'"
  using assms(1) unfolding otp_system_step_def
proof cases
  case (request i t pc s)
  show ?thesis
  proof (cases "sys_pcs \<sigma> i")
    case OtpStart
    then show ?thesis
      using otp_inv_start [OF inv] request win by (intro exI [of _ k] exI [of _ m]) simp
  next
    case OtpUnlocked
    then show ?thesis
      using otp_inv_count [OF inv _ _ n] request win by (intro exI [of _ "Suc k"] exI [of _ m]) simp
  next
    case (OtpClaim w)
    then show ?thesis
      using otp_inv_claim [OF inv _ _ n] request win by (intro exI [of _ k] exI [of _ "Suc m"]) simp
  next
    case (OtpDone r)
    then have "\<sigma>' = \<sigma>\<lparr>sys_state := sys_state \<sigma>, sys_now := t\<rparr>"
      using request by (simp add: otp_step_def fun_upd_idem)
    moreover have "otp_inv view config realm ident n t0 k m (\<sigma>\<lparr>sys_state := sys_state \<sigma>, sys_now := t\<rparr>)"
      using request win by (intro otp_inv_frame [OF inv]) simp_all
    ultimately show ?thesis
      by blast
  qed
next
  case (other t s)
  then have "otp_inv view config realm ident n t0 k m \<sigma>'"
    using win unfolding other(1)
    by (intro otp_inv_frame [OF inv]) (auto simp: otp_keys_def intro: spares_view)
  then show ?thesis
    by blast
qed

lemma otp_reachable_inv:
  assumes "(otp_system_step C config realm ident n)\<^sup>*\<^sup>* (system_init OtpStart s t0) \<sigma>"
    and "in_window config t0 (sys_now \<sigma>)" and n: "n < 2 ^ 64 - 1"
    and "view t0 s (failure_count_key realm ident OTP_FAILURE_SOURCE) = None"
    and "view t0 s (lockout_key realm ident OTP_FAILURE_SOURCE) = None"
  shows "\<exists>k m. otp_inv view config realm ident n t0 k m \<sigma>"
proof -
  have "how_many n granted (\<lambda>_. OtpStart) = 0"
    by (simp add: how_many_0 granted_def)
  then have "otp_inv view config realm ident n t0 0 0 (system_init OtpStart s t0)"
    using assms(4,5) by (simp add: otp_inv_def system_init_def how_many_le)
  then have "\<exists>k m. otp_inv view config realm ident n t0 k m (system_init OtpStart s t0)"
    by blast
  from assms(1,2) in_window_earlier this show ?thesis
    unfolding otp_system_step_def
  proof (rule system_invariant)
    show "\<exists>k m. otp_inv view config realm ident n t0 k m \<sigma>'"
      if "system_step (\<lambda>_. otp_step C config realm ident) (spares C (otp_keys realm ident)) n \<sigma> \<sigma>'"
        "\<exists>k m. otp_inv view config realm ident n t0 k m \<sigma>" "in_window config t0 (sys_now \<sigma>')" for \<sigma> \<sigma>'
      using that n by (auto intro: otp_system_step_inv simp: otp_system_step_def)
  qed
qed

lemma otp_grants_bounded:
  assumes "(otp_system_step C config realm ident n)\<^sup>*\<^sup>* (system_init OtpStart s t0) \<sigma>"
    and "in_window config t0 (sys_now \<sigma>)" and "n < 2 ^ 64 - 1"
    and "view t0 s (failure_count_key realm ident OTP_FAILURE_SOURCE) = None"
    and "view t0 s (lockout_key realm ident OTP_FAILURE_SOURCE) = None"
  shows "how_many n granted (sys_pcs \<sigma>) \<le> max 1 (unat (lf_max_failures config))"
  using otp_reachable_inv [OF assms]
  by (auto simp: otp_inv_def count_bound_def of_bool_def split: if_splits)

end

context distributed_cache
begin

lemma reserve_otp_verdict:
  fixes realm ident config s
  assumes t: "t1 \<le> t2" "t2 \<le> t3"
  defines "ck \<equiv> failure_count_key realm ident OTP_FAILURE_SOURCE"
    and "lk \<equiv> lockout_key realm ident OTP_FAILURE_SOURCE"
    and "ttl \<equiv> Some (secs (lf_failure_ttl_secs config))"
  defines "a \<equiv> fst (counted t2 ttl (view t2 s ck))"
  shows "fst (reserve_otp_attempt C config realm ident (t1, t2, t3) s) = OtpDone (Inr
    (view t1 s lk = None \<and>
     (a < ucast (lf_max_failures config)
      \<or> (if lockout_for config a = 0 then a \<le> ucast (max (lf_max_failures config) 1)
         else fst (counted t3 (Some (secs (lockout_for config a))) (view t3 s lk)) = 1))))"
proof (cases "view t1 s lk = None")
  case False
  then show ?thesis
    by (simp add: reserve_otp_attempt_def otp_step_start lk_def) (simp add: otp_step_def)
next
  case True
  define s1 where "s1 = snd (dc_get C t1 lk s)"
  define s2 where "s2 = snd (dc_increment C t2 ck ttl s1)"
  have start: "otp_step C config realm ident t1 OtpStart s = (OtpUnlocked, s1)"
    using True by (simp add: otp_step_start s1_def lk_def)
  have "fst (dc_increment C t2 ck ttl s1) = Inr a"
    using t by (simp add: increment_result a_def s1_def get_view)
  note count = otp_step_count [OF this [unfolded ck_def ttl_def], folded ck_def ttl_def, folded s2_def]
  have "view t3 s2 lk = view t3 s lk"
    using t keys_differ [symmetric]
    by (simp add: s2_def ck_def lk_def increment_other s1_def get_view)
  then have "fst (dc_increment C t3 lk (Some (secs w)) s2) = Inr (fst (counted t3 (Some (secs w)) (view t3 s lk)))"
    for w by (simp add: increment_result)
  note claim = otp_step_claim [OF this [unfolded lk_def], folded lk_def]
  have fin: "otp_step C config realm ident t (OtpDone r) s' = (OtpDone r, s')" for t r s'
    by (simp add: otp_step_def)
  show ?thesis
    using True by (simp add: reserve_otp_attempt_def start count claim fin)
qed

end

section \<open>Properties\<close>

text \<open>(C4) However any number of racing one-time-code reservations of one user interleave with each
  other and with other uses of the cache, within the counting window and the first lockout at
  most \<open>max_failures\<close> of them (one, if that is zero) are allowed to check a code.\<close>

theorem otp_race_bounded:
  assumes "(otp_system_step in_memory config realm ident n)\<^sup>*\<^sup>* (system_init OtpStart c t0) \<sigma>"
    and "in_window config t0 (sys_now \<sigma>)" and "n < 2 ^ 64 - 1"
    and "mem_view t0 c (failure_count_key realm ident OTP_FAILURE_SOURCE) = None"
    and "mem_view t0 c (lockout_key realm ident OTP_FAILURE_SOURCE) = None"
  shows "how_many n granted (sys_pcs \<sigma>) \<le> max 1 (unat (lf_max_failures config))"
  using assms by (rule mem.otp_grants_bounded)

lemma mem_view_new: "mem_view t (cache_new t0) k = None"
  by (simp add: mem_view_def cache_new_def with_sweep_interval_def lookup_empty)

text \<open>Two reservations, of which the first is granted at once.\<close>

lemma otp_run_example:
  "\<exists>\<sigma>. (otp_system_step in_memory login_failure_config_default ''r'' ''u'' 2)\<^sup>*\<^sup>*
      (system_init OtpStart (cache_new 0 :: nat in_memory_cache) 0) \<sigma>
     \<and> sys_now \<sigma> = 2 \<and> sys_pcs \<sigma> 0 = OtpDone (Inr True)"
proof -
  let ?C = "in_memory :: nat in_memory_cache dist_cache" and ?d = login_failure_config_default
  let ?c0 = "cache_new 0 :: nat in_memory_cache"
  let ?c1 = "snd (dc_get ?C 1 (lockout_key ''r'' ''u'' OTP_FAILURE_SOURCE) ?c0)"
  let ?c2 = "snd (dc_increment ?C 2 (failure_count_key ''r'' ''u'' OTP_FAILURE_SOURCE)
    (Some (secs (lf_failure_ttl_secs ?d))) ?c1)"
  let ?s1 = "\<lparr>sys_state = ?c1, sys_now = 1, sys_pcs = (\<lambda>_. OtpStart)(0 := OtpUnlocked)\<rparr>"
  let ?s2 = "\<lparr>sys_state = ?c2, sys_now = 2,
    sys_pcs = ((\<lambda>_. OtpStart)(0 := OtpUnlocked))(0 := OtpDone (Inr True))\<rparr>"
  have "otp_step ?C ?d ''r'' ''u'' 1 OtpStart ?c0 = (OtpUnlocked, ?c1)"
    unfolding mem.otp_step_start by (simp add: mem_view_new)
  then have s1: "otp_system_step ?C ?d ''r'' ''u'' 2 (system_init OtpStart ?c0 0) ?s1"
    using system_step.request [of 0 2 "system_init OtpStart ?c0 0" 1 "\<lambda>_. otp_step ?C ?d ''r'' ''u''" OtpUnlocked ?c1]
    by (simp add: system_init_def otp_system_step_def)
  have "mem_view 2 ?c1 k = None" for k
    using mem.get_view [of 1 2 "lockout_key ''r'' ''u'' OTP_FAILURE_SOURCE" ?c0]
    by (simp add: mem_view_new)
  then have "fst (dc_increment ?C 2 (failure_count_key ''r'' ''u'' OTP_FAILURE_SOURCE)
      (Some (secs (lf_failure_ttl_secs ?d))) ?c1) = Inr 1"
    unfolding mem.increment_result by (simp add: counted_def)
  note count = mem.otp_step_count [OF this]
  have "otp_step ?C ?d ''r'' ''u'' 2 OtpUnlocked ?c1 = (OtpDone (Inr True), ?c2)"
    unfolding count by (simp add: login_failure_config_default_def)
  then have "otp_system_step ?C ?d ''r'' ''u'' 2 ?s1 ?s2"
    using system_step.request [of 0 2 ?s1 2 "\<lambda>_. otp_step ?C ?d ''r'' ''u''" "OtpDone (Inr True)" ?c2]
    by (simp add: otp_system_step_def)
  with s1 have "(otp_system_step ?C ?d ''r'' ''u'' 2)\<^sup>*\<^sup>* (system_init OtpStart ?c0 0) ?s2"
    by (meson rtranclp.rtrancl_refl rtranclp.rtrancl_into_rtrancl)
  then show ?thesis
    by (intro exI [of _ ?s2]) simp
qed

theorem otp_race_bounded_witness:
  "\<exists>\<sigma>. (otp_system_step in_memory login_failure_config_default ''r'' ''u'' 2)\<^sup>*\<^sup>*
      (system_init OtpStart (cache_new 0 :: nat in_memory_cache) 0) \<sigma>
     \<and> sys_pcs \<sigma> 0 = OtpDone (Inr True) \<and> how_many 2 granted (sys_pcs \<sigma>) \<le> 5"
proof -
  obtain \<sigma> where run: "(otp_system_step in_memory login_failure_config_default ''r'' ''u'' 2)\<^sup>*\<^sup>*
      (system_init OtpStart (cache_new 0 :: nat in_memory_cache) 0) \<sigma>"
    and \<sigma>: "sys_now \<sigma> = 2" "sys_pcs \<sigma> 0 = OtpDone (Inr True)"
    using otp_run_example by blast
  have "in_window login_failure_config_default 0 2"
    by (simp add: in_window_def first_wait_def lockout_for_def saturating_sub_def saturating_mul_def
        login_failure_config_default_def secs_def from_secs_def NANOS_PER_SEC_def)
  then have "how_many 2 granted (sys_pcs \<sigma>) \<le> max 1 (unat (lf_max_failures login_failure_config_default))"
    using \<sigma> by (intro otp_race_bounded [OF run]) (simp_all add: mem_view_new)
  with run \<sigma> show ?thesis
    by (intro exI [of _ \<sigma>]) (simp add: login_failure_config_default_def)
qed


end
