(* ===== verification/Password_Grant.thy ===== *)
theory Password_Grant
  imports Second_Factor Code_Flow Otp_Race
begin

text \<open>
  The resource owner password grant of \<^verbatim>\<open>issuerd-server/src/routes/oidc.rs\<close>: lockout, password,
  second factor, required actions, a fresh session and its tokens.  The authentication and the
  issuance have the same steps in the device flow.
\<close>

section \<open>Authentication\<close>

text \<open>How the shared steps end; the handlers answer each in their own way.\<close>

datatype auth_outcome =
    AuthOk | AuthLocked | AuthBadPassword | AuthRejected oob_reject | AuthCacheError issuerd_error | AuthPanic

definition count_failure ::
    "'s dist_cache \<Rightarrow> realm \<Rightarrow> string \<Rightarrow> user \<Rightarrow> nat \<Rightarrow> auth_outcome \<Rightarrow> 's server \<Rightarrow> auth_outcome \<times> 's server" where
  "count_failure C realm ip user now outcome st =
     (if rlm_brute_force_protected realm
      then (case on_cache (record_failure C now (rlm_id realm) (usr_username user) ip (from_realm realm)) st of
         (Inl e, st') \<Rightarrow> (AuthCacheError e, st') | (Inr _, st') \<Rightarrow> (outcome, st'))
      else (outcome, st))"

definition direct_authenticate ::
    "'s dist_cache \<Rightarrow> account_env \<Rightarrow> realm \<Rightarrow> string \<Rightarrow> user \<Rightarrow> string \<Rightarrow> string \<Rightarrow> string option \<Rightarrow> (nat \<Rightarrow> nat)
     \<Rightarrow> credentials \<Rightarrow> 's server \<Rightarrow> auth_outcome \<times> credentials \<times> 's server" where
  "direct_authenticate C A realm ip user username password totp ts creds st =
     (case if rlm_brute_force_protected realm
           then on_cache (is_temporarily_locked C (ts 0) (rlm_id realm) (usr_username user) ip) st
           else (Inr False, st) of
        (Inl e, st1) \<Rightarrow> (AuthCacheError e, creds, st1)
      | (Inr locked, st1) \<Rightarrow>
          if locked then (AuthLocked, creds, st1)
          else if \<not> verify_user_password A creds (rlm_id realm) user username password
          then (case count_failure C realm ip user (ts 1) AuthBadPassword st1 of (out, st2) \<Rightarrow> (out, creds, st2))
          else (case enforce_oob_second_factor C A realm user totp (\<lambda>i. ts (i + 1)) creds (sv_cache st1) of
             (r, creds', s) \<Rightarrow>
               let st2 = st1\<lparr>sv_cache := s\<rparr> in
               case r of
                 None \<Rightarrow> (AuthPanic, creds', st2)
               | Some (Inr _) \<Rightarrow> (AuthOk, creds', st2)
               | Some (Inl reject) \<Rightarrow>
                   if reject = InvalidOtp
                   then (case count_failure C realm ip user (ts 6) (AuthRejected reject) st2 of (out, st3) \<Rightarrow> (out, creds', st3))
                   else (AuthRejected reject, creds', st2)))"

definition clear_failures :: "'s dist_cache \<Rightarrow> realm \<Rightarrow> string \<Rightarrow> user \<Rightarrow> nat \<Rightarrow> 's server \<Rightarrow> 's server" where
  "clear_failures C realm ip user now st =
     (if rlm_brute_force_protected realm
      then snd (on_cache (reset_failures C now (rlm_id realm) (usr_username user) ip) st) else st)"

section \<open>Sessions and tokens\<close>

definition direct_session :: "token_ctx \<Rightarrow> client \<Rightarrow> user \<Rightarrow> bool \<Rightarrow> nat \<Rightarrow> user_session" where
  "direct_session ctx client user offline now =
     \<lparr>us_id = tc_ids ctx 0, us_realm_id = rlm_id (tc_realm ctx), us_user_id = usr_id user,
      us_login_username = usr_username user, us_ip_address = tc_ip ctx, us_auth_method = PasswordAuth,
      us_remember_me = False, us_offline = offline, us_started = utc now, us_last_session_refresh = utc now,
      us_auth_time = utc now, us_impersonator = None,
      us_clients = [\<lparr>cs_id = tc_ids ctx 1, cs_client_id = cli_id client, cs_session_id = tc_ids ctx 0,
        cs_redirect_uri = None, cs_state = None, cs_auth_method = PasswordAuth, cs_timestamp = utc now\<rparr>]\<rparr>"

definition direct_tokens ::
    "grant_env \<Rightarrow> token_ctx \<Rightarrow> nat \<Rightarrow> client \<Rightarrow> user \<Rightarrow> string list \<Rightarrow> bool \<Rightarrow> reply + token_response" where
  "direct_tokens E ctx now client user scope offline =
     (let realm = tc_realm ctx; sid = tc_ids ctx 0;
          overlay0 = (case ge_claims_overlay E (rlm_id realm) client user scope of Inr m \<Rightarrow> m | Inl _ \<Rightarrow> Map.empty);
          overlay = bind_cnf_overlay (Some overlay0) (tc_dpop_jkt ctx)
      in case ge_access_token E (tc_ids ctx 2) now user client realm scope sid None overlay of
           Inl e \<Rightarrow> Inl (error_reply 500 e)
         | Inr access \<Rightarrow>
             (let refresh = (case ge_refresh_token E (tc_ids ctx 3) now user client realm sid scope offline
                    (tc_dpop_jkt ctx) None None of Inr t \<Rightarrow> Some t | Inl _ \<Rightarrow> None);
                  id_token = (if ''openid'' \<in> set scope then
                    (case ge_id_token E (tc_ids ctx 4) now user client realm None (utc now) sid access None None None of
                       Inr t \<Rightarrow> Some t | Inl _ \<Rightarrow> None) else None)
              in Inr \<lparr>tp_access_token = access, tp_token_type = token_type (tc_dpop_jkt ctx \<noteq> None),
                      tp_expires_in = rlm_access_token_lifespan realm, tp_refresh_token = refresh,
                      tp_id_token = id_token, tp_scope = Some (join '' '' scope),
                      tp_issued_token_type = None, tp_authorization_details = None\<rparr>))"

section \<open>The grant\<close>

definition login_error_event :: "token_ctx \<Rightarrow> user \<Rightarrow> string \<Rightarrow> oidc_event" where
  "login_error_event ctx user err =
     \<lparr>ev_type = LoginError, ev_ip = tc_ip ctx, ev_client_id = Some (cli_id (tc_client ctx)),
      ev_user_id = Some (usr_id user), ev_session_id = None, ev_error = Some err, ev_details = []\<rparr>"

definition direct_event :: "token_ctx \<Rightarrow> client \<Rightarrow> user \<Rightarrow> string \<Rightarrow> oidc_event" where
  "direct_event ctx client user grant =
     \<lparr>ev_type = CodeToToken, ev_ip = tc_ip ctx, ev_client_id = Some (cli_id client),
      ev_user_id = Some (usr_id user), ev_session_id = Some (tc_ids ctx 0), ev_error = None,
      ev_details = [(''grant_type'', grant), (''username'', usr_username user)]\<rparr>"

text \<open>After the authentication: session, tokens, event.\<close>

definition issue_direct ::
    "grant_env \<Rightarrow> token_ctx \<Rightarrow> nat \<Rightarrow> client \<Rightarrow> user \<Rightarrow> string list \<Rightarrow> string \<Rightarrow> 's server \<Rightarrow> reply \<times> 's server" where
  "issue_direct E ctx now client user scope grant st =
     (let rid = rlm_id (tc_realm ctx); offline = OFFLINE_ACCESS_SCOPE \<in> set scope in
      case persist_session rid (direct_session ctx client user offline now) False st of
        (Inl r, st1) \<Rightarrow> (r, st1)
      | (Inr _, st1) \<Rightarrow>
          (case direct_tokens E ctx now client user scope offline of
             Inl r \<Rightarrow> (r, st1)
           | Inr t \<Rightarrow> (Tokens t, emit_oidc_event E rid (direct_event ctx client user grant) st1)))"

definition invalid_grant_401 :: reply where "invalid_grant_401 = Refused 401 ''invalid_grant''"

text \<open>\<open>as_deref().unwrap_or("")\<close>.\<close>

definition unwrap_text :: "string option \<Rightarrow> string" where
  "unwrap_text v = (case v of Some s \<Rightarrow> s | None \<Rightarrow> [])"

text \<open>\<open>None\<close> is a panic of the handler.\<close>

definition password_grant ::
    "'s dist_cache \<Rightarrow> grant_env \<Rightarrow> account_env \<Rightarrow> token_ctx \<Rightarrow> (nat \<Rightarrow> nat) \<Rightarrow> credentials \<Rightarrow> 's server
     \<Rightarrow> reply option \<times> credentials \<times> 's server" where
  "password_grant C E A ctx ts creds st =
     (let realm = tc_realm ctx; rid = rlm_id realm;
          username = unwrap_text (tr_username (tc_req ctx)); password = unwrap_text (tr_password (tc_req ctx)) in
      case ae_get_user_by_username A rid username of
        Inr (Some user) \<Rightarrow>
          if \<not> usr_enabled user then (Some invalid_grant_401, creds, st)
          else (case direct_authenticate C A realm (tc_ip ctx) user username password (tr_totp (tc_req ctx)) ts creds st of
             (out, creds', st1) \<Rightarrow>
               let report = (\<lambda>err. emit_oidc_event E rid (login_error_event ctx user err) st1) in
               case out of
                 AuthCacheError e \<Rightarrow> (Some (cache_failure_response e), creds', st1)
               | AuthPanic \<Rightarrow> (None, creds', st1)
               | AuthLocked \<Rightarrow> (Some invalid_grant_401, creds', report ''temporarily_locked'')
               | AuthBadPassword \<Rightarrow> (Some invalid_grant_401, creds', report ''invalid_user_credentials'')
               | AuthRejected reject \<Rightarrow>
                   (case reject of
                      OobInternal e \<Rightarrow> (Some (error_reply 500 e), creds', st1)
                    | InvalidOtp \<Rightarrow> (Some invalid_grant_401, creds', report ''invalid_user_credentials'')
                    | MissingOtp \<Rightarrow> (Some invalid_grant_401, creds', st1)
                    | WebAuthnOnly \<Rightarrow> (Some invalid_grant_401, creds', st1))
               | AuthOk \<Rightarrow>
                   (let st2 = clear_failures C realm (tc_ip ctx) user (ts 7) st1 in
                    if usr_required_actions user \<noteq> [] then (Some invalid_grant, creds', st2)
                    else (case issue_direct E ctx (ts 8) (tc_client ctx) user (tokens (tr_scope (tc_req ctx))) ''password'' st2 of
                       (r, st3) \<Rightarrow> (Some r, creds', st3))))
      | _ \<Rightarrow> (Some invalid_grant_401, creds, st))"

section \<open>What a success shows\<close>

lemma matching_credential_Some:
  "matching_credential H policy now code cs = Some (c, step) \<Longrightarrow>
     c \<in> set cs \<and> cred_type c = Totp \<and> utf8_valid (cred_secret_data c)
     \<and> totp_verify H (cred_secret_data c) code now policy (last_used_step c) = Some step"
  by (induction cs) (auto split: if_splits option.splits)

text \<open>What a passed second factor shows: none is enrolled, or the code is acceptable for an enrolled
  credential, whose watermark is now the step of the code.\<close>

definition second_factor_shown ::
    "account_env \<Rightarrow> realm \<Rightarrow> user \<Rightarrow> string option \<Rightarrow> nat \<Rightarrow> credentials \<Rightarrow> credentials \<Rightarrow> bool" where
  "second_factor_shown A realm user totp now creds creds' \<longleftrightarrow>
     (\<forall>ty \<in> {Totp, Hotp, WebAuthn}. get_credentials (rlm_id realm) (usr_id user) ty creds = [])
     \<or> (\<exists>code c step. totp = Some code \<and> c \<in> set (get_credentials (rlm_id realm) (usr_id user) Totp creds
            @ get_credentials (rlm_id realm) (usr_id user) Hotp creds) \<and> cred_type c = Totp
          \<and> totp_acceptable (ae_hmac A) (cred_secret_data c) code (now_secs now) (rlm_otp_policy realm) (last_used_step c) step
          \<and> (\<forall>w. watermark creds (rlm_id realm, usr_id user, cred_id c) = Some w \<longrightarrow> w < step)
          \<and> watermark creds' (rlm_id realm, usr_id user, cred_id c) = Some step)"

lemma enforce_Inr:
  assumes "enforce_oob_second_factor C A realm user totp ts creds s = (Some (Inr ()), creds', s')"
  shows "second_factor_shown A realm user totp (ts 3) creds creds'"
proof -
  let ?otp = "get_credentials (rlm_id realm) (usr_id user) Totp creds @ get_credentials (rlm_id realm) (usr_id user) Hotp creds"
  note h = assms [unfolded enforce_oob_second_factor_def Let_def]
  show ?thesis
  proof (cases "?otp = []")
    case True
    with h show ?thesis
      by (simp add: second_factor_shown_def split: if_splits)
  next
    case False
    with h obtain code s1 where code: "totp = Some code"
      and res: "reserve_otp_attempt C (otp_failure_config realm) (rlm_id realm) (usr_username user) (ts 0, ts 1, ts 2) s
        = (OtpDone (Inr True), s1)"
      by (auto split: option.splits prod.splits otp_pc.splits sum.splits bool.splits)
    from h False code res obtain c step where match:
        "matching_credential (ae_hmac A) (rlm_otp_policy realm) (now_secs (ts 3)) code ?otp = Some (c, step)"
      and consume: "consume_totp_step (rlm_id realm) (usr_id user) (cred_id c) step creds = (Some True, creds')"
      by (auto split: option.splits prod.splits bool.splits)
    note c = matching_credential_Some [OF match]
    show ?thesis
      unfolding second_factor_shown_def
      using code c totp_verify_acceptable(1) consume_totp_step_watermark(1) [OF consume refl]
      by (intro disjI2 exI [of _ code] exI [of _ c] exI [of _ step]) simp
  qed
qed

lemma count_failure_ok: "count_failure C realm ip user now out st = (AuthOk, st') \<Longrightarrow> out = AuthOk"
  by (auto simp: count_failure_def split: if_splits prod.splits sum.splits)

context distributed_cache
begin

lemma locked_on_cache:
  "on_cache (is_temporarily_locked C t realm name ip) st =
     (Inr (view t (sv_cache st) (lockout_key realm name ip) \<noteq> None),
      st\<lparr>sv_cache := snd (dc_get C t (lockout_key realm name ip) (sv_cache st))\<rparr>)"
  using get_result [of t "lockout_key realm name ip" "sv_cache st"]
  by (auto simp: is_temporarily_locked_def call_def on_cache_eq split: prod.splits)

lemma direct_authenticate_ok:
  assumes "direct_authenticate C A realm ip user username password totp ts creds st = (AuthOk, creds', st')"
  shows "rlm_brute_force_protected realm \<Longrightarrow> view (ts 0) (sv_cache st) (lockout_key (rlm_id realm) (usr_username user) ip) = None"
    and "verify_user_password A creds (rlm_id realm) user username password"
    and "second_factor_shown A realm user totp (ts 4) creds creds'"
proof -
  obtain st1 where locked: "(if rlm_brute_force_protected realm
      then on_cache (is_temporarily_locked C (ts 0) (rlm_id realm) (usr_username user) ip) st else (Inr False, st)) = (Inr False, st1)"
    and rest: "(if \<not> verify_user_password A creds (rlm_id realm) user username password
          then (case count_failure C realm ip user (ts 1) AuthBadPassword st1 of (out, st2) \<Rightarrow> (out, creds, st2))
          else (case enforce_oob_second_factor C A realm user totp (\<lambda>i. ts (i + 1)) creds (sv_cache st1) of
             (r, creds', s) \<Rightarrow>
               let st2 = st1\<lparr>sv_cache := s\<rparr> in
               case r of
                 None \<Rightarrow> (AuthPanic, creds', st2)
               | Some (Inr _) \<Rightarrow> (AuthOk, creds', st2)
               | Some (Inl reject) \<Rightarrow>
                   if reject = InvalidOtp
                   then (case count_failure C realm ip user (ts 6) (AuthRejected reject) st2 of (out, st3) \<Rightarrow> (out, creds', st3))
                   else (AuthRejected reject, creds', st2))) = (AuthOk, creds', st')"
    using assms unfolding direct_authenticate_def by (auto simp: locked_on_cache split: if_splits)
  show "rlm_brute_force_protected realm \<Longrightarrow> view (ts 0) (sv_cache st) (lockout_key (rlm_id realm) (usr_username user) ip) = None"
    using locked by (cases "view (ts 0) (sv_cache st) (lockout_key (rlm_id realm) (usr_username user) ip)") (auto simp: locked_on_cache)
  show verified: "verify_user_password A creds (rlm_id realm) user username password"
    using rest by (auto split: if_splits prod.splits dest: count_failure_ok)
  obtain s where "enforce_oob_second_factor C A realm user totp (\<lambda>i. ts (i + 1)) creds (sv_cache st1) = (Some (Inr ()), creds', s)"
    using rest verified by (auto simp: Let_def split: if_splits prod.splits option.splits sum.splits dest: count_failure_ok)
  from enforce_Inr [OF this] show "second_factor_shown A realm user totp (ts 4) creds creds'"
    by simp
qed

lemma password_grant_tokens:
  assumes "password_grant C E A ctx ts creds st = (Some (Tokens r), creds', st')"
  obtains user st1 where "ae_get_user_by_username A (rlm_id (tc_realm ctx)) (unwrap_text (tr_username (tc_req ctx))) = Inr (Some user)"
    and "usr_enabled user" and "usr_required_actions user = []"
    and "direct_authenticate C A (tc_realm ctx) (tc_ip ctx) user (unwrap_text (tr_username (tc_req ctx)))
      (unwrap_text (tr_password (tc_req ctx))) (tr_totp (tc_req ctx)) ts creds st = (AuthOk, creds', st1)"
    and "issue_direct E ctx (ts 8) (tc_client ctx) user (tokens (tr_scope (tc_req ctx))) ''password''
      (clear_failures C (tc_realm ctx) (tc_ip ctx) user (ts 7) st1) = (Tokens r, st')"
proof -
  note h = assms [unfolded password_grant_def Let_def]
  obtain user where user: "ae_get_user_by_username A (rlm_id (tc_realm ctx)) (unwrap_text (tr_username (tc_req ctx))) = Inr (Some user)"
      "usr_enabled user"
    using h by (auto simp: invalid_grant_401_def split: sum.splits option.splits if_splits)
  obtain out creds1 st1 where auth: "direct_authenticate C A (tc_realm ctx) (tc_ip ctx) user (unwrap_text (tr_username (tc_req ctx)))
      (unwrap_text (tr_password (tc_req ctx))) (tr_totp (tc_req ctx)) ts creds st = (out, creds1, st1)"
    by (rule prod_cases3)
  from h user auth have out: "out = AuthOk"
    by (auto simp: invalid_grant_401_def cache_failure_response_def error_reply_def split: auth_outcome.splits oob_reject.splits)
  with h user auth show thesis
    using that by (auto simp: invalid_grant_def split: if_splits prod.splits)
qed

end

lemma issue_direct_tokens:
  assumes "issue_direct E ctx now client user scope grant st = (Tokens r, st')"
  shows "sv_sessions st' (rlm_id (tc_realm ctx), tc_ids ctx 0) =
      Some (direct_session ctx client user (OFFLINE_ACCESS_SCOPE \<in> set scope) now)"
    and "tp_scope r = Some (join '' '' scope)" and "tp_token_type r = token_type (tc_dpop_jkt ctx \<noteq> None)"
  using assms
  by (auto simp: issue_direct_def persist_session_def create_user_session_def direct_tokens_def Let_def error_reply_def
      direct_session_def split: sum.splits)

section \<open>An example\<close>

definition example_account :: account_env where
  "example_account =
     \<lparr>ae_hash_parses = (\<lambda>_. True), ae_hash_verifies = (\<lambda>password hash. password = hash),
      ae_hmac = (\<lambda>_ _ _. replicate 20 (CHR 0x00)), ae_providers_for_realm = (\<lambda>_. Inr []),
      ae_get_user_by_username = (\<lambda>_ name. Inr (if name = ''alice'' then Some example_user else None))\<rparr>"

definition example_credential :: "credential_type \<Rightarrow> string \<Rightarrow> credential" where
  "example_credential ty secret =
     \<lparr>cred_id = ''c-1'', cred_type = ty, cred_user_label = None, cred_created_date = 0, cred_secret_data = secret,
      cred_data = JObject [], cred_priority = 0\<rparr>"

definition example_credentials :: credentials where
  "example_credentials =
     [(''default'', ''u-1'', JString ''password'') \<mapsto> [example_credential PasswordCred ''secret''],
      (''default'', ''u-1'', JString ''totp'') \<mapsto> [example_credential Totp ''MZXW6'']]"

definition example_password_ctx :: token_ctx where
  "example_password_ctx = (example_ctx ''p'')\<lparr>tc_realm := example_realm\<lparr>rlm_brute_force_protected := True\<rparr>,
     tc_req := example_token_request\<lparr>tr_grant_type := PasswordGrant, tr_username := Some ''alice'',
       tr_password := Some ''secret'', tr_totp := Some ''000000''\<rparr>\<rparr>"

context distributed_cache
begin

lemma first_attempt_reserved:
  assumes "view t1 s (lockout_key realm ident OTP_FAILURE_SOURCE) = None" and "t1 \<le> t2"
    and "view t2 s (failure_count_key realm ident OTP_FAILURE_SOURCE) = None" and "1 < lf_max_failures config"
  shows "fst (reserve_otp_attempt C config realm ident (t1, t2, t3) s) = OtpDone (Inr True)"
proof -
  let ?l = "lockout_key realm ident OTP_FAILURE_SOURCE" and ?f = "failure_count_key realm ident OTP_FAILURE_SOURCE"
  let ?ttl = "Some (secs (lf_failure_ttl_secs config))" and ?s1 = "snd (dc_get C t1 (lockout_key realm ident OTP_FAILURE_SOURCE) s)"
  have "fst (dc_increment C t2 ?f ?ttl ?s1) = Inr 1"
    using assms(2,3) by (simp add: increment_result get_view counted_def)
  moreover have "(1 :: u64) < ucast (lf_max_failures config)"
    using assms(4) by (simp add: word_less_nat_alt unat_ucast_u32)
  ultimately have "otp_step C config realm ident t2 OtpUnlocked ?s1 = (OtpDone (Inr True), snd (dc_increment C t2 ?f ?ttl ?s1))"
    by (simp add: otp_step_count)
  then show ?thesis
    using assms(1) by (simp add: reserve_otp_attempt_def otp_step_start) (simp add: otp_step_def)
qed

end

lemma example_code: "totp_at (ae_hmac example_account) key step 6 alg = ''000000''"
proof -
  have digest: "ae_hmac example_account alg key m = replicate 20 (CHR 0x00)" for m
    by (simp add: example_account_def)
  have zero: "byte_val (replicate 20 (CHR 0x00) ! i) = 0" if "i < 20" for i
    using that by (simp add: byte_val_def)
  have "nat_to_string 0 = ''0''"
    by code_simp
  moreover have "clamp_digits 6 = 6"
    by (simp add: clamp_digits_def)
  moreover have "replicate 5 (CHR ''0'') = ''00000''"
    by (simp add: eval_nat_numeral)
  ultimately show ?thesis
    unfolding totp_at_def Let_def digest length_replicate by (simp add: zero del: nth_replicate)
qed

lemma example_match:
  "matching_credential (ae_hmac example_account) (rlm_otp_policy example_realm) 60 ''000000''
     [example_credential Totp ''MZXW6''] = Some (example_credential Totp ''MZXW6'', 1)"
proof -
  have "\<exists>key. base32_decode ''MZXW6'' = Some key"
    by (simp add: base32_decode_def b32_value_def byte_val_def Let_def)
  moreover have "verify_steps 60 (rlm_otp_policy example_realm) = [1, 2, 3]"
    by (simp add: verify_steps_def example_realm_def realm_default_def otp_policy_default_def Let_def saturating_sub_def
        saturating_add_def upt_rec)
  moreover have "otp_digits (rlm_otp_policy example_realm) = 6"
    by (simp add: example_realm_def realm_default_def otp_policy_default_def)
  ultimately show ?thesis
    by (auto simp: totp_verify_def example_code last_used_step_def example_credential_def json_get_def byte_val_def)
qed

lemma example_consume:
  "fst (consume_totp_step ''default'' ''u-1'' ''c-1'' 1 example_credentials) = Some True"
  by code_simp

lemma example_views: "mem_view t (sv_cache example_server) k = None"
  by (simp add: example_server_def cache_new_def with_sweep_interval_def mem_view_def)

lemma example_second_factor:
  assumes "\<And>k. mem_view (from_secs 60) s k = None"
  shows "\<exists>creds' s'. enforce_oob_second_factor in_memory example_account (tc_realm example_password_ctx) example_user
    (Some ''000000'') (\<lambda>_. from_secs 60) example_credentials s = (Some (Inr ()), creds', s')"
proof -
  let ?realm = "tc_realm example_password_ctx" and ?t = "from_secs 60"
  have realm: "rlm_id ?realm = ''default''" "rlm_otp_policy ?realm = rlm_otp_policy example_realm"
      "1 < lf_max_failures (otp_failure_config ?realm)"
    by (simp_all add: example_password_ctx_def example_realm_def realm_default_def otp_failure_config_def from_realm_def)
  have user: "usr_id example_user = ''u-1''"
    by (simp add: example_user_def)
  obtain s1 where "reserve_otp_attempt in_memory (otp_failure_config ?realm) (rlm_id ?realm) (usr_username example_user)
      (?t, ?t, ?t) s = (OtpDone (Inr True), s1)"
    using mem.first_attempt_reserved [OF assms order.refl assms realm(3)] by (metis prod.collapse)
  moreover have "get_credentials ''default'' ''u-1'' Totp example_credentials = [example_credential Totp ''MZXW6'']"
      "get_credentials ''default'' ''u-1'' Hotp example_credentials = []"
    by (simp_all add: get_credentials_def example_credentials_def)
  moreover obtain creds' where "consume_totp_step ''default'' ''u-1'' ''c-1'' 1 example_credentials = (Some True, creds')"
    using example_consume by (metis prod.collapse)
  moreover have "now_secs ?t = 60" "cred_id (example_credential Totp ''MZXW6'') = ''c-1''"
    by (simp_all add: now_secs_def from_secs_def NANOS_PER_SEC_def example_credential_def)
  ultimately show ?thesis
    by (simp add: enforce_oob_second_factor_def Let_def realm user example_match del: matching_credential.simps)
qed

lemma example_issues:
  "\<exists>r st'. issue_direct (example_env K) ctx now client user scope grant st = (Tokens r, st')"
  by (simp add: issue_direct_def persist_session_def create_user_session_def direct_tokens_def Let_def example_env_def)

lemma example_password_run:
  "\<exists>r creds' st'. password_grant in_memory (example_env example_codec) example_account example_password_ctx
     (\<lambda>_. from_secs 60) example_credentials example_server = (Some (Tokens r), creds', st')"
proof -
  let ?ctx = "example_password_ctx" and ?t = "from_secs 60"
  let ?st1 = "snd (on_cache (is_temporarily_locked in_memory ?t (rlm_id (tc_realm ?ctx)) (usr_username example_user) (tc_ip ?ctx)) example_server)"
  have ctx: "tr_username (tc_req ?ctx) = Some ''alice''" "tr_password (tc_req ?ctx) = Some ''secret''"
      "tr_totp (tc_req ?ctx) = Some ''000000''" "rlm_brute_force_protected (tc_realm ?ctx)" "rlm_id (tc_realm ?ctx) = ''default''"
    by (simp_all add: example_password_ctx_def example_realm_def realm_default_def)
  have user: "ae_get_user_by_username example_account ''default'' ''alice'' = Inr (Some example_user)" "usr_enabled example_user"
      "usr_required_actions example_user = []"
    by (simp_all add: example_account_def example_user_def)
  have "verify_user_password example_account example_credentials ''default'' example_user ''alice'' ''secret''"
    by (simp add: verify_user_password_def federated_verdict_def verify_password_credentials_def get_credentials_def
        example_user_def example_credentials_def example_account_def example_credential_def byte_val_def)
  moreover have "mem_view ?t (sv_cache ?st1) k = None" for k
    using mem.get_view [OF order.refl, of ?t "lockout_key (rlm_id (tc_realm ?ctx)) (usr_username example_user) (tc_ip ?ctx)"
        "sv_cache example_server"] by (simp add: mem.locked_on_cache example_views)
  from example_second_factor [OF this] obtain creds' s' where
    "enforce_oob_second_factor in_memory example_account (tc_realm ?ctx) example_user (Some ''000000'') (\<lambda>_. ?t)
      example_credentials (sv_cache ?st1) = (Some (Inr ()), creds', s')"
    by blast
  ultimately have auth: "direct_authenticate in_memory example_account (tc_realm ?ctx) (tc_ip ?ctx) example_user ''alice'' ''secret''
      (Some ''000000'') (\<lambda>_. ?t) example_credentials example_server = (AuthOk, creds', ?st1\<lparr>sv_cache := s'\<rparr>)"
    by (simp add: direct_authenticate_def ctx mem.locked_on_cache example_views)
  obtain r st' where "issue_direct (example_env example_codec) ?ctx ?t (tc_client ?ctx) example_user (tokens (tr_scope (tc_req ?ctx)))
      ''password'' (clear_failures in_memory (tc_realm ?ctx) (tc_ip ?ctx) example_user ?t (?st1\<lparr>sv_cache := s'\<rparr>)) = (Tokens r, st')"
    using example_issues [of example_codec ?ctx] by metis
  with auth show ?thesis
    by (intro exI) (simp add: password_grant_def Let_def ctx unwrap_text_def user)
qed

section \<open>Properties\<close>

text \<open>(C7) The password grant gives tokens only to an enabled user without pending actions whose account
  is not locked for the caller's address, with the password and, when a second factor is
  enrolled, with an acceptable one-time code whose step was not used before and is used up by
  the grant; the tokens have the requested scope and belong to a new session of that user.\<close>

theorem password_grant_authenticated:
  assumes "password_grant in_memory E A ctx ts creds st = (Some (Tokens r), creds', st')"
  shows "\<exists>user s. ae_get_user_by_username A (rlm_id (tc_realm ctx)) (unwrap_text (tr_username (tc_req ctx))) = Inr (Some user)
    \<and> usr_enabled user \<and> usr_required_actions user = []
    \<and> (rlm_brute_force_protected (tc_realm ctx) \<longrightarrow>
        mem_view (ts 0) (sv_cache st) (lockout_key (rlm_id (tc_realm ctx)) (usr_username user) (tc_ip ctx)) = None)
    \<and> verify_user_password A creds (rlm_id (tc_realm ctx)) user (unwrap_text (tr_username (tc_req ctx)))
        (unwrap_text (tr_password (tc_req ctx)))
    \<and> second_factor_shown A (tc_realm ctx) user (tr_totp (tc_req ctx)) (ts 4) creds creds'
    \<and> sv_sessions st' (rlm_id (tc_realm ctx), tc_ids ctx 0) = Some s \<and> us_user_id s = usr_id user
    \<and> tp_scope r = Some (join '' '' (tokens (tr_scope (tc_req ctx))))"
  by (rule mem.password_grant_tokens [OF assms])
    (auto dest: mem.direct_authenticate_ok issue_direct_tokens simp: direct_session_def)

theorem password_grant_authenticated_witness:
  "\<exists>r creds' st'. password_grant in_memory (example_env example_codec) example_account example_password_ctx
       (\<lambda>_. from_secs 60) example_credentials example_server = (Some (Tokens r), creds', st')
     \<and> second_factor_shown example_account (tc_realm example_password_ctx) example_user (Some ''000000'') (from_secs 60)
         example_credentials creds'"
proof -
  obtain r creds' st' where run: "password_grant in_memory (example_env example_codec) example_account example_password_ctx
       (\<lambda>_. from_secs 60) example_credentials example_server = (Some (Tokens r), creds', st')"
    using example_password_run by blast
  moreover have "ae_get_user_by_username example_account rid (unwrap_text (tr_username (tc_req example_password_ctx)))
      = Inr (Some example_user)" "tr_totp (tc_req example_password_ctx) = Some ''000000''" for rid
    by (simp_all add: example_account_def example_password_ctx_def unwrap_text_def)
  ultimately show ?thesis
    using password_grant_authenticated [OF run] by auto
qed

text \<open>(C17) A time step of a one-time-code credential is accepted at most once: in any sequence of claims,
  by whatever requests, the accepted steps of a credential increase strictly.\<close>

theorem totp_steps_claimed_once: "sorted_wrt (<) (accepted_steps k claims creds)"
  using accepted_steps_sorted by blast

end
