(* ===== verification/Backchannel.thy ===== *)
theory Backchannel
  imports Token_Endpoint
begin

text \<open>
  Requests without a browser at the client: \<^verbatim>\<open>ciba.rs\<close> (backchannel authentication),
  \<^verbatim>\<open>device.rs\<close> (device authorization) and \<^verbatim>\<open>introspection.rs\<close> (introspection and
  revocation) of \<^verbatim>\<open>issuerd-protocol\<close>.
\<close>

section \<open>Backchannel authentication (CIBA)\<close>

record ciba_request =
  cr_scope :: scope
  cr_client_notification_token :: "string option"
  cr_acr_values :: "string list"
  cr_login_hint_token :: "string option"
  cr_id_token_hint :: "string option"
  cr_login_hint :: "string option"
  cr_binding_message :: "string option"
  cr_user_code :: "string option"
  cr_requested_expiry :: "u64 option"
  cr_operation_id :: "string option"
  cr_resource :: "string option"
  cr_return_to :: "string option"

text \<open>\<open>usize::from(x.is_some())\<close>.\<close>

definition present :: "'a option \<Rightarrow> nat" where
  "present x = (if x = None then 0 else 1)"

definition bad_binding_message :: "string \<Rightarrow> bool" where
  "bad_binding_message m \<longleftrightarrow>
     m = [] \<or> length (chars m) > 100 \<or> has_control m \<or> trim m \<noteq> m"

definition ciba_validate :: "ciba_request \<Rightarrow> issuerd_error + unit" where
  "ciba_validate r =
     (if present (cr_login_hint r) + present (cr_login_hint_token r)
         + present (cr_id_token_hint r) \<noteq> 1
      then Inl (InvalidRequest ''exactly one hint must be provided'')
      else if (case cr_binding_message r of Some m \<Rightarrow> bad_binding_message m | None \<Rightarrow> False)
        then Inl (InvalidBindingMessage
          ''binding_message must be 1..=100 Unicode scalar values of plain text without controls'')
      else if cr_operation_id r \<noteq> None
              \<and> (scope_len (cr_scope r) \<noteq> 2 \<or> \<not> scope_contains (cr_scope r) ''openid''
                 \<or> \<not> scope_contains (cr_scope r) MCP_SCOPE_STEP_UP)
        then Inl InvalidScope
      else if cr_requested_expiry r = Some 0
        then Inl (InvalidRequest ''requested_expiry must be > 0'')
      else Inr ())"

definition ciba_parse :: "params \<Rightarrow> issuerd_error + ciba_request" where
  "ciba_parse body =
     and_then (parse_opt_u64 body ''requested_expiry'') (\<lambda>requested_expiry.
     let req = \<lparr>cr_scope = parse_scope (body ''scope''),
                cr_client_notification_token = body ''client_notification_token'',
                cr_acr_values = parse_space_separated (body ''acr_values''),
                cr_login_hint_token = body ''login_hint_token'',
                cr_id_token_hint = body ''id_token_hint'', cr_login_hint = body ''login_hint'',
                cr_binding_message = body ''binding_message'', cr_user_code = body ''user_code'',
                cr_requested_expiry = requested_expiry,
                cr_operation_id = body ''operation_id'', cr_resource = body ''resource'',
                cr_return_to = body ''return_to''\<rparr>
     in and_then (ciba_validate req) (\<lambda>_. Inr req))"

definition validate_step_up_scope :: "client \<Rightarrow> issuerd_error + unit" where
  "validate_step_up_scope client =
     (if cli_public_client client
         \<or> scope_contains (cli_default_scopes client) MCP_SCOPE_STEP_UP
         \<or> \<not> scope_contains (cli_optional_scopes client) MCP_SCOPE_STEP_UP
      then Inl UnauthorizedClient else Inr ())"

definition validate_scope_with_mcp :: "ciba_request \<Rightarrow> client \<Rightarrow> bool \<Rightarrow> issuerd_error + unit" where
  "validate_scope_with_mcp r client mcp_enabled =
     (if list_ex (\<lambda>s. \<not> client_scope_request_permitted_with_mcp client s mcp_enabled)
           (tokens (cr_scope r))
      then Inl InvalidScope else Inr ())"

definition validate_scope :: "ciba_request \<Rightarrow> client \<Rightarrow> issuerd_error + unit" where
  "validate_scope r client = validate_scope_with_mcp r client False"

section \<open>Device authorization\<close>

record device_authorization_request =
  dr_client_id :: string
  dr_scope :: scope

definition device_parse :: "params \<Rightarrow> issuerd_error + device_authorization_request" where
  "device_parse body =
     and_then (and_then (ok_or (InvalidRequest ''missing client_id'') (body ''client_id''))
       client_identifier_new)
     (\<lambda>client_id. Inr \<lparr>dr_client_id = client_id, dr_scope = parse_scope (body ''scope'')\<rparr>)"

definition device_validate_with_mcp ::
    "device_authorization_request \<Rightarrow> client \<Rightarrow> bool \<Rightarrow> issuerd_error + unit" where
  "device_validate_with_mcp r client mcp_enabled =
     (if dr_client_id r \<noteq> cli_client_id client then Inl (InvalidRequest ''client_id mismatch'')
      else if \<not> cli_enabled client then Inl UnauthorizedClient
      else if list_ex (\<lambda>s. \<not> client_scope_request_permitted_with_mcp client s mcp_enabled)
                (tokens (dr_scope r))
        then Inl InvalidScope
      else Inr ())"

definition device_validate :: "device_authorization_request \<Rightarrow> client \<Rightarrow> issuerd_error + unit" where
  "device_validate r client = device_validate_with_mcp r client False"

section \<open>Introspection and revocation\<close>

datatype token_type_hint = AccessTokenHint | RefreshTokenHint

definition token_type_hint_from_str :: "string \<Rightarrow> token_type_hint option" where
  "token_type_hint_from_str s =
     (if s = ''access_token'' then Some AccessTokenHint
      else if s = ''refresh_token'' then Some RefreshTokenHint
      else None)"

record introspection_request =
  ir_token :: string
  ir_token_type_hint :: "token_type_hint option"

definition introspection_parse :: "json_lib \<Rightarrow> params \<Rightarrow> issuerd_error + introspection_request" where
  "introspection_parse J body =
     and_then (ok_or (InvalidRequest ''missing token'') (body ''token'')) (\<lambda>token.
     and_then (opt_transpose
       (\<lambda>s. ok_or (InvalidRequest (''invalid token_type_hint: ''
              @ jl_variant_error J [''access_token'', ''refresh_token''] s))
              (token_type_hint_from_str s)) (body ''token_type_hint''))
     (\<lambda>hint. Inr \<lparr>ir_token = token, ir_token_type_hint = hint\<rparr>))"

record revocation_request =
  rr_token :: string
  rr_token_type_hint :: "token_type_hint option"

definition revocation_parse :: "json_lib \<Rightarrow> params \<Rightarrow> issuerd_error + revocation_request" where
  "revocation_parse J body =
     and_then (ok_or (InvalidRequest ''missing token'') (body ''token'')) (\<lambda>token.
     and_then (opt_transpose
       (\<lambda>s. ok_or (InvalidRequest (''invalid token_type_hint: ''
              @ jl_variant_error J [''access_token'', ''refresh_token''] s))
              (token_type_hint_from_str s)) (body ''token_type_hint''))
     (\<lambda>hint. Inr \<lparr>rr_token = token, rr_token_type_hint = hint\<rparr>))"

section \<open>Facts and properties\<close>

lemma one_present:
  "present x + present y + present z = 1 \<longleftrightarrow>
     (x \<noteq> None \<and> y = None \<and> z = None) \<or> (x = None \<and> y \<noteq> None \<and> z = None)
     \<or> (x = None \<and> y = None \<and> z \<noteq> None)"
  by (simp add: present_def)

lemma one_present_ex1:
  assumes "present (f a) + present (f b) + present (f c) = 1"
    and "a \<noteq> b" and "a \<noteq> c" and "b \<noteq> c"
  shows "\<exists>!k. k \<in> {a, b, c} \<and> f k \<noteq> None"
  using assms unfolding one_present by auto

lemma ciba_validate_Inr_iff:
  "ciba_validate r = Inr () \<longleftrightarrow>
     present (cr_login_hint r) + present (cr_login_hint_token r) + present (cr_id_token_hint r) = 1
     \<and> (\<forall>m. cr_binding_message r = Some m \<longrightarrow> \<not> bad_binding_message m)
     \<and> (cr_operation_id r \<noteq> None \<longrightarrow> scope_len (cr_scope r) = 2
          \<and> scope_contains (cr_scope r) ''openid'' \<and> scope_contains (cr_scope r) MCP_SCOPE_STEP_UP)
     \<and> cr_requested_expiry r \<noteq> Some 0"
  by (auto simp: ciba_validate_def split: option.splits)

lemma ciba_parse_Inr:
  assumes "ciba_parse body = Inr r"
  shows "ciba_validate r = Inr () \<and> cr_scope r = parse_scope (body ''scope'')
    \<and> cr_login_hint r = body ''login_hint'' \<and> cr_login_hint_token r = body ''login_hint_token''
    \<and> cr_id_token_hint r = body ''id_token_hint'' \<and> cr_operation_id r = body ''operation_id''
    \<and> cr_binding_message r = body ''binding_message''"
  using assms by (auto simp: ciba_parse_def Let_def and_then_Inr_iff)

text \<open>(C22) An accepted backchannel request names the user by exactly one of its three hints, its
  binding message is 1 to 100 characters of trimmed text without control characters, and an
  operation-bound request asks for exactly the scopes \<open>openid\<close> and \<open>mcp:step_up\<close>.\<close>

theorem ciba_request_shape:
  assumes "ciba_parse body = Inr r"
  shows "(\<exists>!h. h \<in> {''login_hint'', ''login_hint_token'', ''id_token_hint''} \<and> body h \<noteq> None)
    \<and> (\<forall>m. body ''binding_message'' = Some m \<longrightarrow>
          1 \<le> length (chars m) \<and> length (chars m) \<le> 100 \<and> trim m = m \<and> \<not> has_control m)
    \<and> (body ''operation_id'' \<noteq> None \<longrightarrow>
          set (tokens (cr_scope r)) = {''openid'', ''mcp:step_up''})"
proof -
  note p = ciba_parse_Inr [OF assms]
  then have v: "ciba_validate r = Inr ()" by simp
  have hint: "\<exists>!h. h \<in> {''login_hint'', ''login_hint_token'', ''id_token_hint''} \<and> body h \<noteq> None"
  proof -
    from v p have "present (body ''login_hint'') + present (body ''login_hint_token'')
        + present (body ''id_token_hint'') = 1"
      unfolding ciba_validate_Inr_iff by (elim conjE) (simp only:)
    then show ?thesis
      by (intro one_present_ex1) simp_all
  qed
  have msg: "1 \<le> length (chars m) \<and> length (chars m) \<le> 100 \<and> trim m = m \<and> \<not> has_control m"
    if "body ''binding_message'' = Some m" for m
  proof -
    from that v p have "\<not> bad_binding_message m"
      by (simp add: ciba_validate_Inr_iff)
    moreover have "chars m \<noteq> []" if "m \<noteq> []"
      using that concat_chars [of m] by auto
    ultimately show ?thesis
      by (auto simp: bad_binding_message_def Suc_le_eq)
  qed
  have op: "set (tokens (cr_scope r)) = {''openid'', ''mcp:step_up''}"
    if "body ''operation_id'' \<noteq> None"
  proof -
    from that v p have "length (tokens (cr_scope r)) = 2"
      and "{''openid'', ''mcp:step_up''} \<subseteq> set (tokens (cr_scope r))"
      by (auto simp: ciba_validate_Inr_iff scope_len_def MCP_SCOPE_STEP_UP_def)
    moreover have "card {''openid'', ''mcp:step_up''} = 2"
      by simp
    ultimately show ?thesis
      using card_length [of "tokens (cr_scope r)"]
      by (intro card_seteq [symmetric]) simp_all
  qed
  show ?thesis
  proof (rule conjI [OF hint], rule conjI, intro allI impI)
    show "1 \<le> length (chars m) \<and> length (chars m) \<le> 100 \<and> trim m = m \<and> \<not> has_control m"
      if "body ''binding_message'' = Some m" for m
      using that by (rule msg)
    show "body ''operation_id'' \<noteq> None \<longrightarrow> set (tokens (cr_scope r)) = {''openid'', ''mcp:step_up''}"
      by (intro impI op)
  qed
qed

definition example_ciba :: params where
  "example_ciba =
     [''login_hint'' \<mapsto> ''alice'', ''scope'' \<mapsto> ''openid mcp:step_up'', ''operation_id'' \<mapsto> ''op-1'',
      ''binding_message'' \<mapsto> ''Pay 10'']"

theorem ciba_request_shape_witness:
  "\<exists>r. ciba_parse example_ciba = Inr r \<and> set (tokens (cr_scope r)) = {''openid'', ''mcp:step_up''}"
proof -
  have "is_ok (ciba_parse example_ciba)"
    by code_simp
  then obtain r where r: "ciba_parse example_ciba = Inr r"
    unfolding is_ok_iff by blast
  have "example_ciba ''operation_id'' \<noteq> None"
    by (simp add: example_ciba_def)
  with ciba_request_shape [OF r] have "set (tokens (cr_scope r)) = {''openid'', ''mcp:step_up''}"
    by (elim conjE impE)
  with r show ?thesis
    by (intro exI [of _ r] conjI)
qed

text \<open>The device and backchannel endpoints apply the scope rule of the token endpoint without
  its exemption of \<open>openid\<close>: whatever they accept the token endpoint's rule accepts, and a
  client to which \<open>openid\<close> is not assigned may ask for it there but not here.\<close>

lemma device_scope_rule_stricter:
  "(device_validate_with_mcp \<lparr>dr_client_id = cid, dr_scope = sc\<rparr> client mcp = Inr () \<longrightarrow>
      token_validate_with_mcp (r\<lparr>tr_grant_type := ClientCredentialsGrant, tr_scope := sc\<rparr>)
        realm client mcp = Inr ())
   \<and> (\<exists>c. token_validate_with_mcp
             (r\<lparr>tr_grant_type := ClientCredentialsGrant, tr_scope := scope_parse ''openid''\<rparr>)
             realm c mcp = Inr ()
        \<and> device_validate_with_mcp
             \<lparr>dr_client_id = cli_client_id c, dr_scope = scope_parse ''openid''\<rparr> c mcp
             = Inl InvalidScope)"
proof
  show "device_validate_with_mcp \<lparr>dr_client_id = cid, dr_scope = sc\<rparr> client mcp = Inr () \<longrightarrow>
      token_validate_with_mcp (r\<lparr>tr_grant_type := ClientCredentialsGrant, tr_scope := sc\<rparr>)
        realm client mcp = Inr ()"
    by (auto simp: device_validate_with_mcp_def token_validate_Inr_iff check_grant_Inr_iff
        list_ex_iff split: if_splits)
  have sc: "tokens (scope_parse ''openid'') = [''openid'']"
    by code_simp
  have "\<not> client_scope_request_permitted_with_mcp (example_client True []) ''openid'' True"
    and "\<not> client_scope_request_permitted_with_mcp (example_client True []) ''openid'' False"
    by code_simp+
  then have "\<not> client_scope_request_permitted_with_mcp (example_client True []) ''openid'' mcp"
    by (cases mcp) simp_all
  then have "device_validate_with_mcp
      \<lparr>dr_client_id = cli_client_id (example_client True []), dr_scope = scope_parse ''openid''\<rparr>
      (example_client True []) mcp = Inl InvalidScope"
    by (simp add: device_validate_with_mcp_def sc) (simp add: example_client_def)
  then show "\<exists>c. token_validate_with_mcp
             (r\<lparr>tr_grant_type := ClientCredentialsGrant, tr_scope := scope_parse ''openid''\<rparr>)
             realm c mcp = Inr ()
        \<and> device_validate_with_mcp
             \<lparr>dr_client_id = cli_client_id c, dr_scope = scope_parse ''openid''\<rparr> c mcp
             = Inl InvalidScope"
    by (intro exI [of _ "example_client True []"])
      (simp add: token_validate_Inr_iff check_grant_Inr_iff sc)
qed

end
