(* ===== verification/Device_Grant.thy ===== *)
theory Device_Grant
  imports Password_Grant Backchannel Cache_Races
begin

text \<open>
  The device flow of \<^verbatim>\<open>issuerd-server/src/routes/oidc.rs\<close>: the device authorization endpoint, the
  verification by the user and the polls of the token endpoint.  Each handler is a process with
  one program point per call on the cache entries of the flow; what a handler does between two
  such calls is one step, so are the calls on other keys (failure counters, one-time-code budget).
  The record of a flow is stored twice, under its device code and under its user code.
\<close>

section \<open>The device authorization endpoint\<close>

text \<open>Eight characters by the random indices drawn.\<close>

definition USER_CODE_CHARSET :: string where "USER_CODE_CHARSET = ''ABCDEFGHJKLMNPQRSTUVWXYZ23456789''"

definition generate_user_code :: "(nat \<Rightarrow> nat) \<Rightarrow> string" where
  "generate_user_code rng =
     (let chars = map (\<lambda>i. USER_CODE_CHARSET ! (rng i mod 32)) [0..<8] in take 4 chars @ ''-'' @ drop 4 chars)"

definition MAX_CACHED_AUTH_PAYLOAD_BYTES :: nat where "MAX_CACHED_AUTH_PAYLOAD_BYTES = 64 * 1024"

definition DEVICE_EXPIRES_IN :: u64 where "DEVICE_EXPIRES_IN = 600"

record device_env =
  de_grants :: grant_env
  de_accounts :: account_env
  de_urls :: base_lib
  de_issuer_url :: string
  de_uppercase :: "string \<Rightarrow> string"

text \<open>The request after its realm is resolved and its form is read, with the random draws.\<close>

record ask_ctx =
  ak_realm :: realm
  ak_params :: params
  ak_device_code :: string
  ak_rng :: "nat \<Rightarrow> nat"

record device_authorization_response =
  dar_device_code :: string
  dar_user_code :: string
  dar_verification_uri :: string
  dar_verification_uri_complete :: "string option"
  dar_expires_in :: u64
  dar_interval :: u64

text \<open>Answers of the device endpoints; \<open>None\<close> where a handler panics.\<close>

datatype device_reply = DeviceIssued device_authorization_response | DeviceApproved | DeviceRefused nat string

definition device_error :: "issuerd_error \<Rightarrow> device_reply" where
  "device_error e = DeviceRefused 400 (code_as_ref (oauth_error_code e))"

definition device_cache_failure :: device_reply where
  "device_cache_failure = DeviceRefused 503 (code_as_ref (oauth_error_code TemporarilyUnavailable))"

definition new_device_code :: "ask_ctx \<Rightarrow> device_authorization_request \<Rightarrow> nat \<Rightarrow> device_code_data" where
  "new_device_code a rq now =
     \<lparr>dcd_device_code = ak_device_code a, dcd_user_code = generate_user_code (ak_rng a),
      dcd_client_id = dr_client_id rq, dcd_realm_id = rlm_id (ak_realm a), dcd_scope = tokens (dr_scope rq),
      dcd_user_id = None, dcd_authorized = False, dcd_last_polled_at = None,
      dcd_expires_at = utc now + utc_seconds (unat DEVICE_EXPIRES_IN)\<rparr>"

definition device_response :: "device_env \<Rightarrow> ask_ctx \<Rightarrow> device_code_data \<Rightarrow> device_reply option" where
  "device_response D a d =
     (case and_then (issuer_base_new (de_urls D) (de_issuer_url D)) (\<lambda>base. with_base base (rlm_name (ak_realm a))) of
        Inl _ \<Rightarrow> None
      | Inr b \<Rightarrow>
          (let uri = bu_str (builder_path (de_urls D) b [''protocol'', ''openid-connect'', ''auth'', ''device-verify'']) in
           Some (DeviceIssued \<lparr>dar_device_code = dcd_device_code d, dar_user_code = dcd_user_code d,
             dar_verification_uri = uri, dar_verification_uri_complete = Some (uri @ ''?user_code='' @ dcd_user_code d),
             dar_expires_in = DEVICE_EXPIRES_IN, dar_interval = 5\<rparr>)))"

datatype ask_pc = AskStart | AskMirror device_code_data | AskDone "device_reply option"

definition ask_step ::
    "'s dist_cache \<Rightarrow> device_env \<Rightarrow> ask_ctx \<Rightarrow> nat \<Rightarrow> ask_pc \<Rightarrow> 's server \<Rightarrow> ask_pc \<times> 's server" where
  "ask_step C D a now pc st =
     (let refuse = (\<lambda>e. (AskDone (Some (device_error e)), st)); K = ge_codec (de_grants D);
          ttl = Some (secs DEVICE_EXPIRES_IN) in
      case pc of
        AskStart \<Rightarrow>
          (case device_parse (ak_params a) of
             Inl e \<Rightarrow> refuse e
           | Inr rq \<Rightarrow>
               (case ge_get_client (de_grants D) (rlm_id (ak_realm a)) (dr_client_id rq) of
                  Inl e \<Rightarrow> refuse e
                | Inr None \<Rightarrow> (AskDone (Some (DeviceRefused 400 ''invalid_client'')), st)
                | Inr (Some client) \<Rightarrow>
                    (case device_validate_with_mcp rq client (ge_mcp_enabled (de_grants D)) of
                       Inl e \<Rightarrow> refuse e
                     | Inr _ \<Rightarrow>
                         (let d = new_device_code a rq now; bytes = enc_device_code K d in
                          if MAX_CACHED_AUTH_PAYLOAD_BYTES < length bytes
                          then refuse (InvalidRequest ''device authorization request exceeds the 64 KiB cache limit'')
                          else (case on_cache (dc_set C now (device_code_key (dcd_device_code d)) bytes ttl) st of
                             (Inl _, st') \<Rightarrow> (AskDone (Some device_cache_failure), st')
                           | (Inr _, st') \<Rightarrow> (AskMirror d, st'))))))
      | AskMirror d \<Rightarrow>
          (case on_cache (dc_set C now (user_code_key (dcd_user_code d)) (enc_device_code K d) ttl) st of
             (Inl _, st') \<Rightarrow> (AskDone (Some device_cache_failure), st')
           | (Inr _, st') \<Rightarrow> (AskDone (device_response D a d), st'))
      | AskDone r \<Rightarrow> (AskDone r, st))"

section \<open>The verification\<close>

record verify_ctx =
  vf_realm :: realm
  vf_params :: params
  vf_ip :: string

definition vf_user_code :: "device_env \<Rightarrow> verify_ctx \<Rightarrow> string" where
  "vf_user_code D v = (case vf_params v ''user_code'' of Some s \<Rightarrow> de_uppercase D (trim s) | None \<Rightarrow> [])"

definition vf_text :: "verify_ctx \<Rightarrow> string \<Rightarrow> string" where
  "vf_text v k = unwrap_text (vf_params v k)"

datatype verify_pc =
    VerStart | VerAuth device_code_data | VerApprove device_code_data nat | VerMirror device_code_data nat
  | VerDone "device_reply option"

definition expired_token :: device_reply where "expired_token = DeviceRefused 400 ''expired_token''"

definition grant_refused :: device_reply where "grant_refused = DeviceRefused 400 ''invalid_grant''"

definition approve :: "device_code_data \<Rightarrow> user \<Rightarrow> device_code_data" where
  "approve d user = d\<lparr>dcd_user_id := Some (usr_id user), dcd_authorized := True, dcd_last_polled_at := None\<rparr>"

text \<open>The authentication of the user and the approval of the record read before.\<close>

definition verify_user ::
    "'s dist_cache \<Rightarrow> device_env \<Rightarrow> verify_ctx \<Rightarrow> nat \<Rightarrow> device_code_data \<Rightarrow> credentials \<times> 's server
     \<Rightarrow> verify_pc \<times> credentials \<times> 's server" where
  "verify_user C D v now d s =
     (case s of (creds, st) \<Rightarrow>
      let realm = vf_realm v; username = vf_text v ''username'' in
      case ae_get_user_by_username (de_accounts D) (rlm_id realm) username of
        Inr (Some user) \<Rightarrow>
          if \<not> usr_enabled user then (VerDone (Some grant_refused), creds, st)
          else (case direct_authenticate C (de_accounts D) realm (vf_ip v) user username (vf_text v ''password'')
                    (vf_params v ''totp'') (\<lambda>_. now) creds st of
             (out, creds', st1) \<Rightarrow>
               (case out of
                  AuthCacheError _ \<Rightarrow> (VerDone (Some device_cache_failure), creds', st1)
                | AuthPanic \<Rightarrow> (VerDone None, creds', st1)
                | AuthRejected (OobInternal e) \<Rightarrow>
                    (VerDone (Some (DeviceRefused 500 (code_as_ref (oauth_error_code e)))), creds', st1)
                | AuthOk \<Rightarrow>
                    if usr_required_actions user \<noteq> [] then (VerDone (Some grant_refused), creds', st1)
                    else (let st2 = clear_failures C realm (vf_ip v) user now st1; d' = approve d user in
                          case remaining_ttl now (dcd_expires_at d') of
                            None \<Rightarrow> (VerDone (Some expired_token), creds', st2)
                          | Some ttl \<Rightarrow> (VerApprove d' ttl, creds', st2))
                | _ \<Rightarrow> (VerDone (Some grant_refused), creds', st1)))
      | _ \<Rightarrow> (VerDone (Some grant_refused), creds, st))"

definition verify_step ::
    "'s dist_cache \<Rightarrow> device_env \<Rightarrow> verify_ctx \<Rightarrow> nat \<Rightarrow> verify_pc \<Rightarrow> credentials \<times> 's server
     \<Rightarrow> verify_pc \<times> credentials \<times> 's server" where
  "verify_step C D v now pc s =
     (case s of (creds, st) \<Rightarrow>
      let K = ge_codec (de_grants D) in
      case pc of
        VerStart \<Rightarrow>
          if vf_user_code D v = [] \<or> vf_text v ''username'' = [] \<or> vf_text v ''password'' = []
          then (VerDone (Some (DeviceRefused 400 ''invalid_request'')), creds, st)
          else (case on_cache (dc_get C now (user_code_key (vf_user_code D v))) st of
             (r, st') \<Rightarrow>
               (case r of
                  Inr (Some bytes) \<Rightarrow>
                    (case dec_device_code K bytes of
                       None \<Rightarrow> (VerDone (Some expired_token), creds, st')
                     | Some d \<Rightarrow>
                         if dcd_realm_id d \<noteq> rlm_id (vf_realm v) then (VerDone (Some expired_token), creds, st')
                         else (VerAuth d, creds, st'))
                | _ \<Rightarrow> (VerDone (Some expired_token), creds, st')))
      | VerAuth d \<Rightarrow> verify_user C D v now d s
      | VerApprove d ttl \<Rightarrow>
          (VerMirror d ttl, creds, snd (on_cache (dc_set C now (device_code_key (dcd_device_code d)) (enc_device_code K d) (Some ttl)) st))
      | VerMirror d ttl \<Rightarrow>
          (VerDone (Some DeviceApproved), creds,
           snd (on_cache (dc_set C now (user_code_key (dcd_user_code d)) (enc_device_code K d) (Some ttl)) st))
      | VerDone r \<Rightarrow> (VerDone r, creds, st))"

section \<open>The polls\<close>

definition poll_error :: "string \<Rightarrow> reply" where "poll_error code = Refused 400 code"

definition poll_code :: "token_ctx \<Rightarrow> string" where "poll_code ctx = unwrap_text (tr_device_code (tc_req ctx))"

datatype poll_pc =
    PollStart | PollPace device_code_data nat | PollMirror device_code_data nat
  | PollConsume device_code_data user client | PollBurn device_code_data user client | PollDone reply

text \<open>A record that was read: pacing, expiry, client.\<close>

definition pace_poll :: "token_ctx \<Rightarrow> nat \<Rightarrow> device_code_data \<Rightarrow> poll_pc" where
  "pace_poll ctx now d =
     (if (case dcd_last_polled_at d of Some polled \<Rightarrow> utc now - polled < utc_seconds 5 | None \<Rightarrow> False)
      then PollDone (poll_error ''slow_down'')
      else (case remaining_ttl now (dcd_expires_at d) of
         None \<Rightarrow> PollDone (poll_error ''expired_token'')
       | Some remaining \<Rightarrow>
           if dcd_client_id d \<noteq> cli_client_id (tc_client ctx) then PollDone invalid_grant
           else PollPace (d\<lparr>dcd_last_polled_at := Some (utc now)\<rparr>) remaining))"

text \<open>After both writes: is the flow approved, and by whom.\<close>

definition approved_poll :: "grant_env \<Rightarrow> token_ctx \<Rightarrow> device_code_data \<Rightarrow> poll_pc" where
  "approved_poll E ctx d =
     (let rid = rlm_id (tc_realm ctx) in
      if \<not> dcd_authorized d then PollDone (poll_error ''authorization_pending'')
      else (case dcd_user_id d of
         None \<Rightarrow> PollDone invalid_grant
       | Some uid \<Rightarrow>
           (case id_new ''UserId'' uid of
              Inl _ \<Rightarrow> PollDone invalid_grant
            | Inr user_id \<Rightarrow>
                (case ge_get_user E rid user_id of
                   Inr (Some user) \<Rightarrow>
                     if \<not> usr_enabled user then PollDone invalid_grant
                     else (case client_identifier_new (dcd_client_id d) of
                        Inl _ \<Rightarrow> PollDone invalid_grant
                      | Inr cid \<Rightarrow>
                          (case ge_get_client E rid cid of
                             Inr (Some client) \<Rightarrow> PollConsume d user client
                           | _ \<Rightarrow> PollDone invalid_grant))
                 | _ \<Rightarrow> PollDone invalid_grant))))"

text \<open>The record that was consumed against the one that was read.\<close>

definition consumed_poll ::
    "token_ctx \<Rightarrow> nat \<Rightarrow> device_code_data \<Rightarrow> user \<Rightarrow> client \<Rightarrow> device_code_data \<Rightarrow> poll_pc" where
  "consumed_poll ctx now d user client consumed =
     (if dcd_client_id consumed \<noteq> cli_client_id (tc_client ctx) \<or> dcd_user_id consumed \<noteq> dcd_user_id d
         \<or> \<not> dcd_authorized consumed then PollDone invalid_grant
      else if remaining_ttl now (dcd_expires_at consumed) = None then PollDone (poll_error ''expired_token'')
      else PollBurn consumed user client)"

definition issue_device ::
    "grant_env \<Rightarrow> token_ctx \<Rightarrow> nat \<Rightarrow> client \<Rightarrow> user \<Rightarrow> string list \<Rightarrow> 's server \<Rightarrow> reply \<times> 's server" where
  "issue_device E ctx now client user scope st =
     (if MCP_SCOPE_STEP_UP \<in> set scope then (error_reply 400 InvalidScope, st)
      else (let offline = OFFLINE_ACCESS_SCOPE \<in> set scope in
        case persist_session (rlm_id (tc_realm ctx)) (direct_session ctx client user offline now) False st of
          (Inl r, st1) \<Rightarrow> (r, st1)
        | (Inr _, st1) \<Rightarrow>
            (case direct_tokens E ctx now client user scope offline of Inl r \<Rightarrow> (r, st1) | Inr t \<Rightarrow> (Tokens t, st1))))"

definition poll_step ::
    "'s dist_cache \<Rightarrow> grant_env \<Rightarrow> token_ctx \<Rightarrow> nat \<Rightarrow> poll_pc \<Rightarrow> 's server \<Rightarrow> poll_pc \<times> 's server" where
  "poll_step C E ctx now pc st =
     (let K = ge_codec E; key = device_code_key (poll_code ctx);
          read = (\<lambda>r. case r of Inr (Some bytes) \<Rightarrow> dec_device_code K bytes | _ \<Rightarrow> None);
          expired = PollDone (poll_error ''expired_token'') in
      case pc of
        PollStart \<Rightarrow>
          (case on_cache (dc_get C now key) st of
             (r, st') \<Rightarrow> (case read r of None \<Rightarrow> expired | Some d \<Rightarrow> pace_poll ctx now d, st'))
      | PollPace d ttl \<Rightarrow> (PollMirror d ttl, snd (on_cache (dc_set C now key (enc_device_code K d) (Some ttl)) st))
      | PollMirror d ttl \<Rightarrow>
          (approved_poll E ctx d,
           snd (on_cache (dc_set C now (user_code_key (dcd_user_code d)) (enc_device_code K d) (Some ttl)) st))
      | PollConsume d user client \<Rightarrow>
          (case on_cache (dc_get_and_delete C now key) st of
             (r, st') \<Rightarrow> (case read r of None \<Rightarrow> expired | Some consumed \<Rightarrow> consumed_poll ctx now d user client consumed, st'))
      | PollBurn consumed user client \<Rightarrow>
          (let st1 = snd (on_cache (dc_delete C now (user_code_key (dcd_user_code consumed))) st)
           in apfst PollDone (issue_device E ctx now client user (dcd_scope consumed) st1))
      | PollDone r \<Rightarrow> (PollDone r, st))"

end
