(* ===== verification/Device_Flow.thy ===== *)
theory Device_Flow
  imports Device_Grant
begin

text \<open>
  Device flows at large: any number of device authorization requests, verifications and polls
  interleave.  A poll is answered with tokens only for a flow that a request of its client
  started and that a user approved with their credentials; two schedules show what the writes of
  the polls break.
\<close>

section \<open>The system\<close>

datatype device_actor = Asks ask_ctx | Verifies verify_ctx | Polls token_ctx

datatype device_pc = AskPc ask_pc | VerifyPc verify_pc | PollPc poll_pc

fun start_pc :: "device_actor \<Rightarrow> device_pc" where
  "start_pc (Asks _) = AskPc AskStart"
| "start_pc (Verifies _) = VerifyPc VerStart"
| "start_pc (Polls _) = PollPc PollStart"

fun device_act ::
    "'s dist_cache \<Rightarrow> device_env \<Rightarrow> device_actor \<Rightarrow> nat \<Rightarrow> device_pc \<Rightarrow> credentials \<times> 's server
     \<Rightarrow> device_pc \<times> credentials \<times> 's server" where
  "device_act C D (Asks a) t (AskPc pc) (creds, st) =
     (case ask_step C D a t pc st of (pc', st') \<Rightarrow> (AskPc pc', creds, st'))"
| "device_act C D (Verifies v) t (VerifyPc pc) s =
     (case verify_step C D v t pc s of (pc', s') \<Rightarrow> (VerifyPc pc', s'))"
| "device_act C D (Polls ctx) t (PollPc pc) (creds, st) =
     (case poll_step C (de_grants D) ctx t pc st of (pc', st') \<Rightarrow> (PollPc pc', creds, st'))"
| "device_act C D _ t pc s = (pc, s)"

definition flow_keys :: "string set" where
  "flow_keys = range device_code_key \<union> range user_code_key"

definition device_system_step ::
    "'s dist_cache \<Rightarrow> device_env \<Rightarrow> (nat \<Rightarrow> device_actor) \<Rightarrow> nat
     \<Rightarrow> (device_pc, credentials \<times> 's server) system \<Rightarrow> (device_pc, credentials \<times> 's server) system \<Rightarrow> bool" where
  "device_system_step C D actors =
     system_step (\<lambda>i. device_act C D (actors i)) (\<lambda>t s s'. server_spares C flow_keys t (snd s) (snd s'))"

definition device_init ::
    "(nat \<Rightarrow> device_actor) \<Rightarrow> credentials \<times> 's server \<Rightarrow> nat \<Rightarrow> (device_pc, credentials \<times> 's server) system" where
  "device_init actors s t0 = \<lparr>sys_state = s, sys_now = t0, sys_pcs = (\<lambda>i. start_pc (actors i))\<rparr>"

section \<open>What a record stands for\<close>

text \<open>A request that was accepted started the flow.\<close>

definition started :: "device_env \<Rightarrow> (nat \<Rightarrow> device_actor) \<Rightarrow> nat \<Rightarrow> device_code_data \<Rightarrow> bool" where
  "started D actors n d \<longleftrightarrow>
     (\<exists>j a rq client. j < n \<and> actors j = Asks a \<and> device_parse (ak_params a) = Inr rq
        \<and> ge_get_client (de_grants D) (rlm_id (ak_realm a)) (dr_client_id rq) = Inr (Some client)
        \<and> device_validate_with_mcp rq client (ge_mcp_enabled (de_grants D)) = Inr ()
        \<and> dcd_device_code d = ak_device_code a \<and> dcd_user_code d = generate_user_code (ak_rng a)
        \<and> dcd_realm_id d = rlm_id (ak_realm a) \<and> dcd_client_id d = dr_client_id rq \<and> dcd_scope d = tokens (dr_scope rq))"

text \<open>A user who gave the user code approved it, with every factor of the account.\<close>

definition credentials_shown :: "device_env \<Rightarrow> verify_ctx \<Rightarrow> user \<Rightarrow> bool" where
  "credentials_shown D v user \<longleftrightarrow>
     ae_get_user_by_username (de_accounts D) (rlm_id (vf_realm v)) (vf_text v ''username'') = Inr (Some user)
     \<and> usr_enabled user \<and> usr_required_actions user = []
     \<and> (\<exists>creds creds' t. verify_user_password (de_accounts D) creds (rlm_id (vf_realm v)) user (vf_text v ''username'')
          (vf_text v ''password'')
        \<and> second_factor_shown (de_accounts D) (vf_realm v) user (vf_params v ''totp'') t creds creds')"

definition approved :: "device_env \<Rightarrow> (nat \<Rightarrow> device_actor) \<Rightarrow> nat \<Rightarrow> device_code_data \<Rightarrow> bool" where
  "approved D actors n d \<longleftrightarrow>
     (\<exists>j v user. j < n \<and> actors j = Verifies v \<and> vf_user_code D v = dcd_user_code d
        \<and> rlm_id (vf_realm v) = dcd_realm_id d \<and> dcd_user_id d = Some (usr_id user) \<and> credentials_shown D v user)"

definition good :: "device_env \<Rightarrow> (nat \<Rightarrow> device_actor) \<Rightarrow> nat \<Rightarrow> device_code_data \<Rightarrow> bool" where
  "good D actors n d \<longleftrightarrow> started D actors n d \<and> (dcd_authorized d \<longrightarrow> approved D actors n d)"

lemma good_polled [simp]: "good D actors n (d\<lparr>dcd_last_polled_at := x\<rparr>) = good D actors n d"
  by (simp add: good_def started_def approved_def)

text \<open>What an answer with tokens rests on.\<close>

definition rests_on ::
    "device_env \<Rightarrow> (nat \<Rightarrow> device_actor) \<Rightarrow> nat \<Rightarrow> token_ctx \<Rightarrow> token_response \<Rightarrow> device_code_data \<Rightarrow> user \<Rightarrow> bool" where
  "rests_on D actors n ctx r d user \<longleftrightarrow>
     started D actors n d \<and> approved D actors n d
     \<and> dcd_device_code d = poll_code ctx \<and> dcd_client_id d = cli_client_id (tc_client ctx)
     \<and> (\<exists>uid. dcd_user_id d = Some uid \<and> ge_get_user (de_grants D) (rlm_id (tc_realm ctx)) uid = Inr (Some user))
     \<and> usr_enabled user \<and> MCP_SCOPE_STEP_UP \<notin> set (dcd_scope d) \<and> tp_scope r = Some (join '' '' (dcd_scope d))"

definition entry_good :: "device_env \<Rightarrow> (nat \<Rightarrow> device_actor) \<Rightarrow> nat \<Rightarrow> string \<Rightarrow> bytes \<Rightarrow> bool" where
  "entry_good D actors n k b \<longleftrightarrow>
     (\<forall>d. dec_device_code (ge_codec (de_grants D)) b = Some d \<longrightarrow> good D actors n d
        \<and> (\<forall>x. k = device_code_key x \<longrightarrow> dcd_device_code d = x) \<and> (\<forall>x. k = user_code_key x \<longrightarrow> dcd_user_code d = x))"

fun pc_good :: "device_env \<Rightarrow> (nat \<Rightarrow> device_actor) \<Rightarrow> nat \<Rightarrow> device_actor \<Rightarrow> device_pc \<Rightarrow> bool" where
  "pc_good D actors n (Asks a) (AskPc (AskMirror d)) = good D actors n d"
| "pc_good D actors n (Verifies v) (VerifyPc pc) =
     (case pc of
        VerAuth d \<Rightarrow> good D actors n d \<and> dcd_user_code d = vf_user_code D v \<and> dcd_realm_id d = rlm_id (vf_realm v)
      | VerApprove d _ \<Rightarrow> good D actors n d | VerMirror d _ \<Rightarrow> good D actors n d | _ \<Rightarrow> True)"
| "pc_good D actors n (Polls ctx) (PollPc pc) =
     (let held = (\<lambda>d. good D actors n d \<and> dcd_device_code d = poll_code ctx);
          of_user = (\<lambda>d user. \<exists>uid. dcd_user_id d = Some uid
            \<and> ge_get_user (de_grants D) (rlm_id (tc_realm ctx)) uid = Inr (Some user) \<and> usr_enabled user) in
      case pc of
        PollPace d _ \<Rightarrow> held d
      | PollMirror d _ \<Rightarrow> held d
      | PollConsume d user client \<Rightarrow> of_user d user
      | PollBurn d user client \<Rightarrow> held d \<and> dcd_authorized d \<and> dcd_client_id d = cli_client_id (tc_client ctx) \<and> of_user d user
      | PollDone (Tokens r) \<Rightarrow> \<exists>d user. rests_on D actors n ctx r d user
      | _ \<Rightarrow> True)"
| "pc_good D actors n _ _ = True"

lemma pc_good_cases:
  obtains (1) a pc where "x = (Asks a, AskPc pc)" | (2) v pc where "x = (Verifies v, VerifyPc pc)"
    | (3) ctx pc where "x = (Polls ctx, PollPc pc)" | (4) "\<nexists>a pc. x = (Asks a, AskPc pc)" "\<nexists>v pc. x = (Verifies v, VerifyPc pc)"
        "\<nexists>ctx pc. x = (Polls ctx, PollPc pc)"
  by blast

section \<open>Steps\<close>

lemma device_keys_differ [simp]:
  "device_code_key x \<noteq> user_code_key y" "user_code_key y \<noteq> device_code_key x"
  "device_code_key x = device_code_key y \<longleftrightarrow> x = y" "user_code_key x = user_code_key y \<longleftrightarrow> x = y"
  "k \<in> flow_keys \<Longrightarrow> k \<noteq> failure_count_key r i s" "k \<in> flow_keys \<Longrightarrow> k \<noteq> lockout_key r i s"
  by (auto simp: key_defs failure_count_key_def lockout_key_def flow_keys_def)

definition cache_good ::
    "(nat \<Rightarrow> 's \<Rightarrow> string \<rightharpoonup> entry) \<Rightarrow> device_env \<Rightarrow> (nat \<Rightarrow> device_actor) \<Rightarrow> nat \<Rightarrow> nat \<Rightarrow> 's server \<Rightarrow> bool" where
  "cache_good view D actors n t st \<longleftrightarrow>
     (\<forall>k \<in> flow_keys. \<forall>b x. view t (sv_cache st) k = Some (b, x) \<longrightarrow> entry_good D actors n k b)"

lemma cache_good_frame:
  "cache_good view D actors n t st \<Longrightarrow> (\<And>k. k \<in> flow_keys \<Longrightarrow> view t (sv_cache st') k = view t (sv_cache st) k) \<Longrightarrow>
     cache_good view D actors n t st'"
  by (simp add: cache_good_def)

context distributed_cache
begin

lemma cache_good_set:
  "cache_good view D actors n t st \<Longrightarrow> entry_good D actors n k b \<Longrightarrow>
     cache_good view D actors n t (snd (on_cache (dc_set C t k b ttl) st))"
  by (auto simp: cache_good_def on_caches set_view put_def split: if_splits)

text \<open>The calls on other keys.\<close>

lemma view_record_failure:
  "k \<in> flow_keys \<Longrightarrow> view t (snd (record_failure C t r i s c m)) k = view t m k"
  by (auto simp: record_failure_def calls increment_view set_view put_def Let_def split: prod.split)

lemma view_locked: "view t (snd (is_temporarily_locked C t r i s m)) k = view t m k"
  by (simp add: is_temporarily_locked_def calls get_view)

lemma view_reset: "k \<in> flow_keys \<Longrightarrow> view t (snd (reset_failures C t r i s m)) k = view t m k"
  by (simp add: reset_failures_def calls delete_view)

lemma view_otp_step: "k \<in> flow_keys \<Longrightarrow> view t (snd (otp_step C c r i t pc m)) k = view t m k"
proof (cases pc)
  case (OtpDone x)
  then show ?thesis
    by (simp add: otp_step_def)
qed (simp_all add: otp_step_start otp_step_count [OF increment_result] otp_step_claim [OF increment_result]
    get_view increment_view put_def case_prod_beta Let_def)

lemma view_reserve: "k \<in> flow_keys \<Longrightarrow> view t (snd (reserve_otp_attempt C c r i (t, t, t) m)) k = view t m k"
  by (simp add: reserve_otp_attempt_def view_otp_step case_prod_beta Let_def)

lemma view_enforce:
  assumes "k \<in> flow_keys"
  shows "view t (snd (snd (enforce_oob_second_factor C A realm user totp (\<lambda>_. t) creds m))) k = view t m k"
proof -
  have reserve: "view t m' k = view t m k"
    if "reserve_otp_attempt C c r i (t, t, t) m = (pc, m')" for c r i pc m'
    using view_reserve [OF assms, of t c r i m] that by simp
  show ?thesis
    using assms
    by (auto simp: enforce_oob_second_factor_def Let_def clear_otp_attempts_def view_reset dest: reserve
        split: option.split prod.split otp_pc.split sum.split bool.split)
qed

lemma view_count_failure:
  "k \<in> flow_keys \<Longrightarrow> view t (sv_cache (snd (count_failure C realm ip user t out st))) k = view t (sv_cache st) k"
  using view_record_failure [of k t "rlm_id realm" "usr_username user" ip "from_realm realm" "sv_cache st"]
  by (auto simp: count_failure_def on_cache_def split: prod.splits sum.split)

lemma view_authenticate:
  assumes "k \<in> flow_keys"
  shows "view t (sv_cache (snd (snd (direct_authenticate C A realm ip user un pw totp (\<lambda>_. t) creds st)))) k = view t (sv_cache st) k"
proof -
  let ?locked = "if rlm_brute_force_protected realm
    then on_cache (is_temporarily_locked C t (rlm_id realm) (usr_username user) ip) st else (Inr False, st)"
  obtain r st1 where locked: "?locked = (r, st1)"
    by (cases ?locked)
  then have "view t (sv_cache st1) k = view t (sv_cache st) k"
    by (auto simp: locked_on_cache get_view split: if_splits)
  then show ?thesis
    unfolding direct_authenticate_def locked
    by (simp add: case_prod_beta Let_def view_count_failure view_enforce assms split: sum.split option.split)
qed

lemma view_clear_failures:
  "k \<in> flow_keys \<Longrightarrow> view t (sv_cache (clear_failures C realm ip user t st)) k = view t (sv_cache st) k"
  by (simp add: clear_failures_def on_cache_eq view_reset)

end

text \<open>The codec reads back what it wrote.\<close>

definition reads_devices :: "device_env \<Rightarrow> bool" where
  "reads_devices D \<longleftrightarrow> (\<forall>d. dec_device_code (ge_codec (de_grants D)) (enc_device_code (ge_codec (de_grants D)) d) = Some d)"

lemma entry_good_written:
  assumes "reads_devices D" and "good D actors n d"
  shows "entry_good D actors n (device_code_key (dcd_device_code d)) (enc_device_code (ge_codec (de_grants D)) d)"
    and "entry_good D actors n (user_code_key (dcd_user_code d)) (enc_device_code (ge_codec (de_grants D)) d)"
  using assms by (simp_all add: entry_good_def reads_devices_def)

lemma new_device_code_good:
  assumes "i < n" and "actors i = Asks a" and "device_parse (ak_params a) = Inr rq"
    and "ge_get_client (de_grants D) (rlm_id (ak_realm a)) (dr_client_id rq) = Inr (Some client)"
    and "device_validate_with_mcp rq client (ge_mcp_enabled (de_grants D)) = Inr ()"
  shows "good D actors n (new_device_code a rq now)"
  using assms by (auto simp: good_def started_def new_device_code_def)

lemma approve_good:
  assumes "good D actors n d" and "i < n" and "actors i = Verifies v" and "dcd_user_code d = vf_user_code D v"
    and "dcd_realm_id d = rlm_id (vf_realm v)" and "credentials_shown D v user"
  shows "good D actors n (approve d user)"
  using assms unfolding good_def started_def approved_def approve_def by (auto; metis)

context distributed_cache
begin

lemma ask_step_good:
  assumes "ask_step C D a t pc st = (pc', st')" and "reads_devices D" and "i < n" and "actors i = Asks a"
    and "cache_good view D actors n t st" and "pc_good D actors n (Asks a) (AskPc pc)"
  shows "cache_good view D actors n t st' \<and> pc_good D actors n (Asks a) (AskPc pc')"
proof (cases pc)
  case AskStart
  then show ?thesis
    using assms new_device_code_good [OF assms(3), of actors a, OF assms(4)]
    by (auto simp: ask_step_def Let_def on_caches intro!: cache_good_set [unfolded on_caches snd_conv] entry_good_written
      split: sum.splits option.splits if_splits)
next
  case (AskMirror d)
  then show ?thesis
    using assms
    by (auto simp: ask_step_def Let_def on_caches intro!: cache_good_set [unfolded on_caches snd_conv] entry_good_written)
next
  case (AskDone r)
  then show ?thesis
    using assms by (auto simp: ask_step_def Let_def)
qed

lemma verify_user_good:
  assumes "verify_user C D v t d (creds, st) = (pc', creds', st')" and "i < n" and "actors i = Verifies v"
    and "cache_good view D actors n t st" and "good D actors n d" and "dcd_user_code d = vf_user_code D v"
    and "dcd_realm_id d = rlm_id (vf_realm v)"
  shows "cache_good view D actors n t st' \<and> pc_good D actors n (Verifies v) (VerifyPc pc')"
proof -
  let ?rid = "rlm_id (vf_realm v)" and ?un = "vf_text v ''username''" and ?pw = "vf_text v ''password''"
  note h = assms(1) [unfolded verify_user_def Let_def prod.case]
  show ?thesis
  proof (cases "\<exists>user. ae_get_user_by_username (de_accounts D) ?rid ?un = Inr (Some user) \<and> usr_enabled user")
    case False
    then show ?thesis
      using h assms(4) by (auto split: sum.splits option.splits if_splits)
  next
    case True
    then obtain user where user: "ae_get_user_by_username (de_accounts D) ?rid ?un = Inr (Some user)" "usr_enabled user"
      by blast
    obtain out creds1 st1 where auth: "direct_authenticate C (de_accounts D) (vf_realm v) (vf_ip v) user ?un ?pw
        (vf_params v ''totp'') (\<lambda>_. t) creds st = (out, creds1, st1)"
      by (rule prod_cases3)
    have view1: "view t (sv_cache st1) k = view t (sv_cache st) k" if "k \<in> flow_keys" for k
      using view_authenticate [OF that, of t "de_accounts D" "vf_realm v" "vf_ip v" user ?un ?pw "vf_params v ''totp''" creds st]
      by (simp add: auth)
    then have good1: "cache_good view D actors n t st1"
      by (rule cache_good_frame [OF assms(4)])
    have good2: "cache_good view D actors n t (clear_failures C (vf_realm v) (vf_ip v) user t st1)"
      by (rule cache_good_frame [OF good1]) (rule view_clear_failures)
    have "good D actors n (approve d user)" if "out = AuthOk" "usr_required_actions user = []"
    proof (rule approve_good [OF assms(5,2) _ assms(6,7)])
      show "credentials_shown D v user"
        using direct_authenticate_ok [OF auth [unfolded that(1)]] user that(2) unfolding credentials_shown_def by blast
    qed (rule assms(3))
    then show ?thesis
      using h user auth good1 good2
      by (auto split: auth_outcome.splits oob_reject.splits if_splits option.splits)
  qed
qed

lemma verify_step_good:
  assumes "verify_step C D v t pc (creds, st) = (pc', creds', st')" and "reads_devices D" and "i < n"
    and "actors i = Verifies v" and "cache_good view D actors n t st" and "pc_good D actors n (Verifies v) (VerifyPc pc)"
  shows "cache_good view D actors n t st' \<and> pc_good D actors n (Verifies v) (VerifyPc pc')"
proof (cases pc)
  case VerStart
  let ?k = "user_code_key (vf_user_code D v)"
  have frame: "cache_good view D actors n t (st\<lparr>sv_cache := snd (dc_get C t ?k (sv_cache st))\<rparr>)"
    by (rule cache_good_frame [OF assms(5)]) (simp add: get_view)
  have "?k \<in> flow_keys"
    by (simp add: flow_keys_def)
  then have "good D actors n d \<and> dcd_user_code d = vf_user_code D v"
    if "view t (sv_cache st) ?k = Some (b, x)" "dec_device_code (ge_codec (de_grants D)) b = Some d" for b x d
    using assms(5) that unfolding cache_good_def entry_good_def by blast
  with VerStart assms(1,5) frame show ?thesis
    by (auto simp: verify_step_def Let_def on_caches split: option.splits if_splits)
next
  case (VerAuth d)
  with assms show ?thesis
    using verify_user_good [of D v t d creds st pc' creds' st' i n actors] by (simp add: verify_step_def)
next
  case (VerApprove d ttl)
  with assms show ?thesis
    by (auto simp: verify_step_def Let_def intro!: cache_good_set entry_good_written)
next
  case (VerMirror d ttl)
  with assms show ?thesis
    by (auto simp: verify_step_def Let_def intro!: cache_good_set entry_good_written)
next
  case (VerDone r)
  with assms show ?thesis
    by (auto simp: verify_step_def Let_def)
qed

lemma flow_entry_good:
  assumes "cache_good view D actors n t st" and "view t (sv_cache st) (device_code_key x) = Some (b, e)"
    and "dec_device_code (ge_codec (de_grants D)) b = Some d"
  shows "good D actors n d" and "dcd_device_code d = x"
proof -
  have "device_code_key x \<in> flow_keys"
    by (simp add: flow_keys_def)
  then show "good D actors n d" and "dcd_device_code d = x"
    using assms unfolding cache_good_def entry_good_def by blast+
qed

lemma cache_good_delete:
  "cache_good view D actors n t st \<Longrightarrow> cache_good view D actors n t (snd (on_cache (dc_delete C t k) st))"
  "cache_good view D actors n t st \<Longrightarrow> cache_good view D actors n t (snd (on_cache (dc_get_and_delete C t k) st))"
  by (auto simp: cache_good_def on_caches delete_view get_and_delete_view split: if_splits)

end

lemma pace_poll_good:
  "good D actors n d \<Longrightarrow> dcd_device_code d = poll_code ctx \<Longrightarrow> pc_good D actors n (Polls ctx) (PollPc (pace_poll ctx t d))"
  by (auto simp: pace_poll_def Let_def poll_error_def invalid_grant_def split: option.split)

lemma approved_poll_good: "pc_good D actors n (Polls ctx) (PollPc (approved_poll (de_grants D) ctx d))"
  by (auto simp: approved_poll_def Let_def poll_error_def invalid_grant_def id_new_def
      split: option.split sum.split if_split)

lemma consumed_poll_good:
  "good D actors n c \<Longrightarrow> dcd_device_code c = poll_code ctx \<Longrightarrow> pc_good D actors n (Polls ctx) (PollPc (PollConsume d user client)) \<Longrightarrow>
     pc_good D actors n (Polls ctx) (PollPc (consumed_poll ctx t d user client c))"
  by (auto simp: consumed_poll_def Let_def poll_error_def invalid_grant_def)

lemma issue_device_good:
  assumes "issue_device (de_grants D) ctx t client user (dcd_scope d) st = (reply, st')"
    and "pc_good D actors n (Polls ctx) (PollPc (PollBurn d user client))"
  shows "pc_good D actors n (Polls ctx) (PollPc (PollDone reply))"
proof (cases reply)
  case (Tokens r)
  then have "MCP_SCOPE_STEP_UP \<notin> set (dcd_scope d) \<and> tp_scope r = Some (join '' '' (dcd_scope d))"
    using assms(1) by (auto simp: issue_device_def error_reply_def direct_tokens_def persist_session_def Let_def
        split: if_splits sum.splits prod.splits)
  moreover have "dcd_authorized d" "good D actors n d"
    using assms(2) by (simp_all add: Let_def)
  ultimately have "rests_on D actors n ctx r d user"
    using assms(2) by (auto simp: rests_on_def good_def Let_def)
  with Tokens show ?thesis
    by auto
qed simp

lemma sv_cache_issue_device [simp]: "sv_cache (snd (issue_device E ctx t client user sc st)) = sv_cache st"
  by (auto simp: issue_device_def persist_session_def create_user_session_def Let_def split: sum.split)

context distributed_cache
begin

lemma poll_step_good:
  assumes "poll_step C (de_grants D) ctx t pc st = (pc', st')" and "reads_devices D" and "i < n"
    and "actors i = Polls ctx" and "cache_good view D actors n t st" and "pc_good D actors n (Polls ctx) (PollPc pc)"
  shows "cache_good view D actors n t st' \<and> pc_good D actors n (Polls ctx) (PollPc pc')"
proof (cases pc)
  case PollStart
  let ?k = "device_code_key (poll_code ctx)"
  have "cache_good view D actors n t (st\<lparr>sv_cache := snd (dc_get C t ?k (sv_cache st))\<rparr>)"
    by (rule cache_good_frame [OF assms(5)]) (simp add: get_view)
  moreover have "pc_good D actors n (Polls ctx) (PollPc (pace_poll ctx t d))"
    if "view t (sv_cache st) ?k = Some (b, x)" "dec_device_code (ge_codec (de_grants D)) b = Some d" for b x d
    using flow_entry_good [OF assms(5) that] by (rule pace_poll_good)
  ultimately show ?thesis
    using PollStart assms(1) by (auto simp: poll_step_def Let_def on_caches poll_error_def split: option.splits simp del: pc_good.simps)
      (simp_all add: Let_def)
next
  case (PollPace d ttl)
  with assms show ?thesis
    by (auto simp: poll_step_def Let_def intro!: cache_good_set dest: entry_good_written(1))
next
  case (PollMirror d ttl)
  then have "cache_good view D actors n t st'"
    using assms by (auto simp: poll_step_def Let_def intro!: cache_good_set entry_good_written)
  then show ?thesis
    using PollMirror assms(1) approved_poll_good [of D actors n ctx d] by (simp add: poll_step_def del: pc_good.simps)
next
  case (PollConsume d user client)
  let ?k = "device_code_key (poll_code ctx)"
  have "pc_good D actors n (Polls ctx) (PollPc (consumed_poll ctx t d user client c))"
    if "view t (sv_cache st) ?k = Some (b, x)" "dec_device_code (ge_codec (de_grants D)) b = Some c" for b x c
    using flow_entry_good [OF assms(5) that] assms(6) PollConsume by (intro consumed_poll_good) simp_all
  with PollConsume assms(1) cache_good_delete(2) [OF assms(5), of ?k] show ?thesis
    by (auto simp: poll_step_def Let_def on_caches poll_error_def split: option.splits simp del: pc_good.simps)
      (simp_all add: Let_def)
next
  case (PollBurn d user client)
  let ?st1 = "snd (on_cache (dc_delete C t (user_code_key (dcd_user_code d))) st)"
  obtain reply st2 where issue: "issue_device (de_grants D) ctx t client user (dcd_scope d) ?st1 = (reply, st2)"
    by (cases "issue_device (de_grants D) ctx t client user (dcd_scope d) ?st1")
  have "sv_cache st2 = sv_cache ?st1"
    using sv_cache_issue_device [of "de_grants D" ctx t client user "dcd_scope d" ?st1] issue by simp
  then have "cache_good view D actors n t st2"
    using cache_good_delete(1) [OF assms(5)] by (simp add: cache_good_def)
  moreover have "pc' = PollDone reply" "st' = st2"
    using PollBurn assms(1) issue by (simp_all add: poll_step_def)
  ultimately show ?thesis
    using issue_device_good [OF issue] assms(6) PollBurn by simp
next
  case (PollDone r)
  with assms show ?thesis
    by (simp add: poll_step_def)
qed

lemma device_act_good:
  assumes "device_act C D (actors i) t pc (creds, st) = (pc', creds', st')" and "reads_devices D" and "i < n"
    and "cache_good view D actors n t st" and "pc_good D actors n (actors i) pc"
  shows "cache_good view D actors n t st' \<and> pc_good D actors n (actors i) pc'"
proof (cases "(actors i, pc)" rule: pc_good_cases)
  case (1 a apc)
  then show ?thesis
    using assms ask_step_good [of D a t apc st _ _ i n actors] by (cases "ask_step C D a t apc st") simp
next
  case (2 v vpc)
  then show ?thesis
    using assms verify_step_good [of D v t vpc creds st _ _ _ i n actors]
    by (cases "verify_step C D v t vpc (creds, st)") (simp del: pc_good.simps)
next
  case (3 ctx ppc)
  then show ?thesis
    using assms poll_step_good [of D ctx t ppc st _ _ i n actors]
    by (cases "poll_step C (de_grants D) ctx t ppc st") (simp del: pc_good.simps)
next
  case 4
  with assms show ?thesis
    by (cases "actors i"; cases pc) auto
qed

lemma device_invariant:
  assumes "(device_system_step C D actors n)\<^sup>*\<^sup>* (device_init actors (creds, st) t0) \<sigma>" and "reads_devices D"
    and "\<forall>k \<in> flow_keys. view t0 (sv_cache st) k = None"
  shows "cache_good view D actors n (sys_now \<sigma>) (snd (sys_state \<sigma>)) \<and> (\<forall>i < n. pc_good D actors n (actors i) (sys_pcs \<sigma> i))"
  using assms(1)
proof (induction rule: rtranclp_induct)
  case base
  have "pc_good D actors n a (start_pc a)" for a
    by (cases a) simp_all
  then show ?case
    using assms(3) by (simp add: device_init_def cache_good_def)
next
  case (step \<sigma> \<sigma>')
  have later: "cache_good view D actors n t (snd (sys_state \<sigma>))" if "sys_now \<sigma> \<le> t" for t
    using step.IH unfolding cache_good_def view_later [OF that] by (auto split: option.splits if_splits)
  from step.hyps(2) show ?case
    unfolding device_system_step_def
  proof cases
    case (request i t pc s)
    then show ?thesis
      using step.IH later device_act_good [of D actors i t "sys_pcs \<sigma> i" "fst (sys_state \<sigma>)" "snd (sys_state \<sigma>)" pc "fst s" "snd s" n]
        assms(2) by auto
  next
    case (other t s)
    then have "cache_good view D actors n t (snd s)"
      by (intro cache_good_frame [OF later]) (auto simp: server_spares_def intro: spares_view)
    with other step.IH show ?thesis
      by simp
  qed
qed

end

end
