(* ===== verification/Device_Races.thy ===== *)
theory Device_Races
  imports Device_Flow
begin

text \<open>
  Whole runs of the device handlers, and the properties of device flows: tokens need a request, an
  approval and the right client, in every interleaving; two polls that overlap redeem one code
  twice; a poll that overlaps the approval undoes it.
\<close>

section \<open>Runs\<close>

lemma poll_step_simps:
  "poll_step C E ctx t (PollPace d ttl) st =
     (PollMirror d ttl, snd (on_cache (dc_set C t (device_code_key (poll_code ctx)) (enc_device_code (ge_codec E) d) (Some ttl)) st))"
  "poll_step C E ctx t (PollMirror d ttl) st =
     (approved_poll E ctx d,
      snd (on_cache (dc_set C t (user_code_key (dcd_user_code d)) (enc_device_code (ge_codec E) d) (Some ttl)) st))"
  "poll_step C E ctx t (PollBurn d user client) st =
     apfst PollDone (issue_device E ctx t client user (dcd_scope d)
       (snd (on_cache (dc_delete C t (user_code_key (dcd_user_code d))) st)))"
  "poll_step C E ctx t (PollDone r) st = (PollDone r, st)"
  by (simp_all add: poll_step_def Let_def)

context distributed_cache
begin

lemma poll_reads:
  assumes "view t (sv_cache st) (device_code_key (poll_code ctx)) = Some (b, x)" and "dec_device_code (ge_codec E) b = Some d"
  shows "poll_step C E ctx t PollStart st =
      (pace_poll ctx t d, st\<lparr>sv_cache := snd (dc_get C t (device_code_key (poll_code ctx)) (sv_cache st))\<rparr>)"
    and "poll_step C E ctx t (PollConsume d0 user client) st =
      (consumed_poll ctx t d0 user client d,
       st\<lparr>sv_cache := snd (dc_get_and_delete C t (device_code_key (poll_code ctx)) (sv_cache st))\<rparr>)"
  using assms by (simp_all add: poll_step_def Let_def on_caches)

text \<open>What a poll read is enough for it to succeed: it writes the record it goes on to consume.\<close>

lemma paced_poll_redeems:
  assumes approved: "approved_poll E ctx d = PollConsume d user client"
    and client: "dcd_client_id d = cli_client_id (tc_client ctx)"
    and reads: "dec_device_code (ge_codec E) (enc_device_code (ge_codec E) d) = Some d"
    and t: "t3 \<le> t4" "t4 \<le> t5" "t5 < t3 + ttl" and expiry: "remaining_ttl t5 (dcd_expires_at d) \<noteq> None"
    and issue: "\<And>st :: 's server. fst (issue_device E ctx t6 client user (dcd_scope d) st) = Tokens r"
  shows "fst (run_alone (poll_step C E ctx) [t3, t4, t5, t6] (PollPace d ttl) st) = PollDone (Tokens r)"
proof -
  let ?k = "device_code_key (poll_code ctx)" and ?b = "enc_device_code (ge_codec E) d"
  let ?st1 = "snd (on_cache (dc_set C t3 ?k ?b (Some ttl)) st)"
  let ?st2 = "snd (on_cache (dc_set C t4 (user_code_key (dcd_user_code d)) ?b (Some ttl)) ?st1)"
  have "dcd_authorized d"
    using approved by (auto simp: approved_poll_def Let_def split: if_splits)
  then have consumed: "consumed_poll ctx t5 d user client d = PollBurn d user client"
    using client expiry by (simp add: consumed_poll_def)
  have "view t5 (sv_cache ?st2) ?k = Some (?b, Some (t3 + ttl))"
    using t by (simp add: on_caches set_view put_def live_def expiry_def)
  note consume = poll_reads(2) [OF this reads, of d user client, unfolded consumed]
  show ?thesis
    using issue by (simp add: poll_step_simps approved consume case_prod_beta)
qed

lemma paced_poll_pends:
  assumes pending: "\<not> dcd_authorized d" and t: "t3 \<le> t4"
  obtains st' where "run_alone (poll_step C E ctx) [t3, t4] (PollPace d ttl) st = (PollDone (poll_error ''authorization_pending''), st')"
    and "\<And>u k. t4 \<le> u \<Longrightarrow> u < t3 + ttl \<Longrightarrow> k \<in> {device_code_key (poll_code ctx), user_code_key (dcd_user_code d)} \<Longrightarrow>
      \<exists>x. view u (sv_cache st') k = Some (enc_device_code (ge_codec E) d, x)"
proof -
  let ?st1 = "snd (on_cache (dc_set C t3 (device_code_key (poll_code ctx)) (enc_device_code (ge_codec E) d) (Some ttl)) st)"
  let ?st2 = "snd (on_cache (dc_set C t4 (user_code_key (dcd_user_code d)) (enc_device_code (ge_codec E) d) (Some ttl)) ?st1)"
  have "run_alone (poll_step C E ctx) [t3, t4] (PollPace d ttl) st = (PollDone (poll_error ''authorization_pending''), ?st2)"
    using pending by (simp add: poll_step_simps approved_poll_def)
  moreover have "\<exists>x. view u (sv_cache ?st2) k = Some (enc_device_code (ge_codec E) d, x)"
    if "t4 \<le> u" "u < t3 + ttl" "k \<in> {device_code_key (poll_code ctx), user_code_key (dcd_user_code d)}" for u k
    using that t by (auto simp: on_caches set_view put_def live_def expiry_def)
  ultimately show thesis
    by (rule that)
qed

text \<open>A device authorization request that is accepted stores its record twice.\<close>

lemma ask_runs:
  assumes "device_parse (ak_params a) = Inr rq"
    and "ge_get_client (de_grants D) (rlm_id (ak_realm a)) (dr_client_id rq) = Inr (Some client)"
    and "device_validate_with_mcp rq client (ge_mcp_enabled (de_grants D)) = Inr ()"
    and "length (enc_device_code (ge_codec (de_grants D)) (new_device_code a rq t1)) \<le> MAX_CACHED_AUTH_PAYLOAD_BYTES"
  obtains st' where "run_alone (ask_step C D a) [t1, t2] AskStart st = (AskDone (device_response D a (new_device_code a rq t1)), st')"
    and "\<And>u. t2 \<le> u \<Longrightarrow> u < t2 + secs DEVICE_EXPIRES_IN \<Longrightarrow>
      view u (sv_cache st') (user_code_key (generate_user_code (ak_rng a)))
        = Some (enc_device_code (ge_codec (de_grants D)) (new_device_code a rq t1), Some (t2 + secs DEVICE_EXPIRES_IN))"
proof -
  let ?d = "new_device_code a rq t1"
  let ?st1 = "snd (on_cache (dc_set C t1 (device_code_key (dcd_device_code ?d)) (enc_device_code (ge_codec (de_grants D)) ?d)
    (Some (secs DEVICE_EXPIRES_IN))) st)"
  let ?st2 = "snd (on_cache (dc_set C t2 (user_code_key (dcd_user_code ?d)) (enc_device_code (ge_codec (de_grants D)) ?d)
    (Some (secs DEVICE_EXPIRES_IN))) ?st1)"
  have "run_alone (ask_step C D a) [t1, t2] AskStart st = (AskDone (device_response D a ?d), ?st2)"
    using assms by (simp add: ask_step_def Let_def on_caches)
  moreover have "dcd_user_code ?d = generate_user_code (ak_rng a)"
    by (simp add: new_device_code_def)
  moreover have "view u (sv_cache ?st2) (user_code_key (dcd_user_code ?d)) =
      Some (enc_device_code (ge_codec (de_grants D)) ?d, Some (t2 + secs DEVICE_EXPIRES_IN))"
    if "t2 \<le> u" "u < t2 + secs DEVICE_EXPIRES_IN" for u
    using that by (simp add: on_caches set_view put_def live_def expiry_def)
  ultimately show thesis
    using that [of ?st2] by (simp del: run_alone.simps)
qed

text \<open>A verification whose user authenticates overwrites both.\<close>

lemma verify_runs:
  assumes "vf_user_code D v \<noteq> []" and "vf_text v ''username'' \<noteq> []" and "vf_text v ''password'' \<noteq> []"
    and "view t1 (sv_cache st) (user_code_key (vf_user_code D v)) = Some (b, x)"
    and "dec_device_code (ge_codec (de_grants D)) b = Some d" and "dcd_realm_id d = rlm_id (vf_realm v)"
    and "\<And>st. verify_user C D v t2 d (creds, st) = (VerApprove d' ttl, creds, st)"
    and t: "t3 \<le> t4" "t1 \<le> t3"
  obtains st' where "run_alone (verify_step C D v) [t1, t2, t3, t4] VerStart (creds, st) = (VerDone (Some DeviceApproved), creds, st')"
    and "\<And>u. t4 \<le> u \<Longrightarrow> u < t3 + ttl \<Longrightarrow> view u (sv_cache st') (device_code_key (dcd_device_code d')) =
      Some (enc_device_code (ge_codec (de_grants D)) d', Some (t3 + ttl))"
proof -
  let ?K = "ge_codec (de_grants D)"
  let ?st1 = "snd (on_cache (dc_get C t1 (user_code_key (vf_user_code D v))) st)"
  let ?st2 = "snd (on_cache (dc_set C t3 (device_code_key (dcd_device_code d')) (enc_device_code ?K d') (Some ttl)) ?st1)"
  let ?st3 = "snd (on_cache (dc_set C t4 (user_code_key (dcd_user_code d')) (enc_device_code ?K d') (Some ttl)) ?st2)"
  have "run_alone (verify_step C D v) [t1, t2, t3, t4] VerStart (creds, st) = (VerDone (Some DeviceApproved), creds, ?st3)"
    using assms(1-7) by (simp add: verify_step_def Let_def on_caches)
  moreover have "view u (sv_cache ?st3) (device_code_key (dcd_device_code d')) = Some (enc_device_code ?K d', Some (t3 + ttl))"
    if "t4 \<le> u" "u < t3 + ttl" for u
    using that t by (simp add: on_caches set_view put_def live_def expiry_def)
  ultimately show thesis
    by (rule that)
qed

end

text \<open>The same runs as actors of the system.\<close>

lemma actor_runs:
  "run_alone (device_act C D (Asks a)) ts (AskPc apc) (creds, st) =
     (case run_alone (ask_step C D a) ts apc st of (pc', st') \<Rightarrow> (AskPc pc', creds, st'))"
  "run_alone (device_act C D (Verifies v)) ts (VerifyPc vpc) s =
     (case run_alone (verify_step C D v) ts vpc s of (pc', s') \<Rightarrow> (VerifyPc pc', s'))"
  "run_alone (device_act C D (Polls ctx)) ts (PollPc ppc) (creds, st) =
     (case run_alone (poll_step C (de_grants D) ctx) ts ppc st of (pc', st') \<Rightarrow> (PollPc pc', creds, st'))"
  by (induction ts arbitrary: apc vpc ppc st s) (auto split: prod.split)

section \<open>An example\<close>

definition example_device_env :: device_env where
  "example_device_env =
     \<lparr>de_grants = example_env example_codec, de_accounts = example_account, de_urls = sample_base_lib,
      de_issuer_url = ''https://id.test'', de_uppercase = id\<rparr>"

definition example_ask :: ask_ctx where
  "example_ask = \<lparr>ak_realm = example_realm, ak_params = [''client_id'' \<mapsto> ''app''], ak_device_code = ''d-1'', ak_rng = (\<lambda>_. 0)\<rparr>"

definition example_verify :: verify_ctx where
  "example_verify = \<lparr>vf_realm = example_realm,
     vf_params = [''user_code'' \<mapsto> ''AAAA-AAAA'', ''username'' \<mapsto> ''alice'', ''password'' \<mapsto> ''secret''], vf_ip = ''10.0.0.2''\<rparr>"

definition example_device_credentials :: credentials where
  "example_device_credentials = [(''default'', ''u-1'', JString ''password'') \<mapsto> [example_credential PasswordCred ''secret'']]"

definition example_request_data :: device_authorization_request where
  "example_request_data = \<lparr>dr_client_id = ''app'', dr_scope = scope_empty\<rparr>"

definition example_record :: device_code_data where
  "example_record = new_device_code example_ask example_request_data 1"

lemma example_record_fields:
  "dcd_device_code example_record = ''d-1''" "dcd_user_code example_record = ''AAAA-AAAA''"
  "dcd_client_id example_record = ''app''" "dcd_realm_id example_record = ''default''" "dcd_scope example_record = []"
  "dcd_expires_at example_record = 1 + int (from_secs 600)" "\<not> dcd_authorized example_record"
  "dcd_last_polled_at example_record = None"
  by (simp_all add: example_record_def new_device_code_def example_ask_def example_request_data_def generate_user_code_def
      USER_CODE_CHARSET_def upt_rec example_realm_def realm_default_def scope_empty_def DEVICE_EXPIRES_IN_def utc_def utc_seconds_def)

lemma example_reads: "reads_devices example_device_env"
  by (simp add: reads_devices_def example_device_env_def example_env_def example_codec_def)

lemma example_asked:
  "device_parse (ak_params example_ask) = Inr example_request_data"
  "ge_get_client (de_grants example_device_env) rid ''app'' = Inr (Some (example_client True [loopback_cb '':8080'']))"
  "device_validate_with_mcp example_request_data (example_client True [loopback_cb '':8080''])
     (ge_mcp_enabled (de_grants example_device_env)) = Inr ()"
  subgoal by code_simp
  subgoal by (simp add: example_device_env_def example_env_def)
  subgoal by (simp add: device_validate_with_mcp_def example_request_data_def example_client_def scope_empty_def)
  done

lemma example_small:
  "length (enc_device_code (ge_codec (de_grants example_device_env)) example_record) \<le> MAX_CACHED_AUTH_PAYLOAD_BYTES"
proof -
  have user: "dcd_user_id example_record = None"
    by (simp add: example_record_def new_device_code_def)
  have "length (nat_to_string 600000000001) \<le> 12"
    by (rule nat_to_string_length) simp_all
  then show ?thesis
    by (simp add: example_device_env_def example_env_def example_codec_def sample_codec_def device_fields_def frame_def
        example_record_fields user opt_text_def bool_text_def int_text_def from_secs_def NANOS_PER_SEC_def
        MAX_CACHED_AUTH_PAYLOAD_BYTES_def)
qed

definition example_approved :: device_code_data where
  "example_approved = approve example_record example_user"

definition example_ttl :: "nat \<Rightarrow> nat" where "example_ttl t = from_secs 600 + 1 - t"

definition polled :: "nat \<Rightarrow> device_code_data \<Rightarrow> device_code_data" where
  "polled t d = d\<lparr>dcd_last_polled_at := Some (utc t)\<rparr>"

lemma example_verifies:
  assumes "t \<le> from_secs 500"
  shows "verify_user in_memory example_device_env example_verify t example_record (example_device_credentials, st) =
    (VerApprove example_approved (example_ttl t), example_device_credentials, st)"
proof -
  have v: "vf_text example_verify ''username'' = ''alice''" "vf_text example_verify ''password'' = ''secret''"
      "vf_params example_verify ''totp'' = None" "rlm_id (vf_realm example_verify) = ''default''"
      "\<not> rlm_brute_force_protected (vf_realm example_verify)"
    by (simp_all add: example_verify_def vf_text_def unwrap_text_def example_realm_def realm_default_def)
  have user: "ae_get_user_by_username (de_accounts example_device_env) ''default'' ''alice'' = Inr (Some example_user)"
      "usr_enabled example_user" "usr_required_actions example_user = []"
    by (simp_all add: example_device_env_def example_account_def example_user_def)
  have "verify_user_password (de_accounts example_device_env) example_device_credentials ''default'' example_user ''alice'' ''secret''"
    by (simp add: verify_user_password_def federated_verdict_def verify_password_credentials_def get_credentials_def
        example_user_def example_device_credentials_def example_account_def example_device_env_def example_credential_def byte_val_def)
  moreover have "get_credentials ''default'' (usr_id example_user) ty example_device_credentials = []"
    if "ty \<in> {Totp, Hotp, WebAuthn}" for ty
    using that by (auto simp: get_credentials_def example_device_credentials_def)
  ultimately have "direct_authenticate in_memory (de_accounts example_device_env) (vf_realm example_verify) ip example_user
      ''alice'' ''secret'' None ts example_device_credentials st = (AuthOk, example_device_credentials, st)" for ip ts
    by (simp add: direct_authenticate_def v enforce_oob_second_factor_def Let_def)
  moreover have "remaining_ttl t (dcd_expires_at (approve example_record example_user)) = Some (example_ttl t)"
    using assms by (simp add: remaining_ttl_def example_ttl_def approve_def example_record_fields utc_def from_secs_def NANOS_PER_SEC_def)
  ultimately show ?thesis
    by (simp add: verify_user_def Let_def v user clear_failures_def example_approved_def)
qed

lemma example_paces:
  assumes "t \<le> from_secs 500" and "d \<in> {example_record, example_approved}"
  shows "pace_poll (example_ctx sd) t d = PollPace (polled t d) (example_ttl t)"
proof -
  have "remaining_ttl t (dcd_expires_at d) = Some (example_ttl t)"
    using assms by (auto simp: remaining_ttl_def example_ttl_def example_approved_def approve_def example_record_fields utc_def from_secs_def
        NANOS_PER_SEC_def)
  moreover have "dcd_last_polled_at d = None" "dcd_client_id d = ''app''"
    using assms(2) by (auto simp: example_approved_def approve_def example_record_fields)
  ultimately show ?thesis
    by (simp add: pace_poll_def polled_def example_ctx_def example_client_def)
qed

lemma example_polls:
  "approved_poll (example_env K) (example_ctx sd) (polled t example_approved) =
     PollConsume (polled t example_approved) example_user (example_client True [loopback_cb '':8080''])"
proof -
  have "client_identifier_new ''app'' = Inr ''app''"
    by code_simp
  then show ?thesis
    by (simp add: approved_poll_def Let_def example_approved_def approve_def polled_def example_record_fields example_user_def
        id_new_def example_env_def)
qed

lemma example_device_issues:
  obtains r where "\<And>st :: 's server. fst (issue_device (example_env K) ctx t client user [] st) = Tokens r"
    and "tp_access_token r = ''at-'' @ tc_ids ctx 2"
proof -
  obtain r where "direct_tokens (example_env K) ctx t client user [] False = Inr r" "tp_access_token r = ''at-'' @ tc_ids ctx 2"
    by (simp add: direct_tokens_def example_env_def Let_def)
  then show thesis
    by (intro that) (simp_all add: issue_device_def persist_session_def create_user_session_def Let_def)
qed

lemma example_device_redeems:
  assumes "t3 \<le> t4" "t4 \<le> t5" "t5 \<le> from_secs 500" "t \<le> from_secs 50"
  obtains r where "\<And>st. fst (run_alone (poll_step in_memory (example_env example_codec) (example_ctx sd)) [t3, t4, t5, t6]
      (PollPace (polled t example_approved) (example_ttl t)) st) = PollDone (Tokens r)"
    and "tp_access_token r = ''at-'' @ sd @ ''2''"
proof -
  let ?d = "polled t example_approved"
  have scope: "dcd_scope ?d = []" "dcd_client_id ?d = ''app''"
    by (simp_all add: polled_def example_approved_def approve_def example_record_fields)
  obtain r where issue: "\<And>st :: 'a in_memory_cache server. fst (issue_device (example_env example_codec) (example_ctx sd) t6
        (example_client True [loopback_cb '':8080'']) example_user [] st) = Tokens r"
    and token: "tp_access_token r = ''at-'' @ tc_ids (example_ctx sd) 2"
    by (rule example_device_issues [of example_codec "example_ctx sd" t6 "example_client True [loopback_cb '':8080'']"
        example_user]) (rule that)
  have reads: "dec_device_code (ge_codec (example_env example_codec)) (enc_device_code (ge_codec (example_env example_codec)) ?d) = Some ?d"
    by (simp add: example_env_def example_codec_def)
  have expiry: "remaining_ttl t5 (dcd_expires_at ?d) \<noteq> None" "t5 < t3 + example_ttl t"
    using assms by (simp_all add: remaining_ttl_def example_ttl_def polled_def example_approved_def approve_def example_record_fields utc_def
        from_secs_def NANOS_PER_SEC_def)
  have client: "dcd_client_id ?d = cli_client_id (tc_client (example_ctx sd))"
    by (simp add: scope example_ctx_def example_client_def)
  show thesis
  proof (rule that)
    show "fst (run_alone (poll_step in_memory (example_env example_codec) (example_ctx sd)) [t3, t4, t5, t6]
        (PollPace ?d (example_ttl t)) st) = PollDone (Tokens r)" for st :: "'a in_memory_cache server"
      using issue by (intro mem.paced_poll_redeems [OF example_polls client reads assms(1,2) expiry(2,1)]) (simp add: scope)
    have "nat_to_string 2 = ''2''"
      by code_simp
    then show "tp_access_token r = ''at-'' @ sd @ ''2''"
      using token by (simp add: example_ctx_def)
  qed
qed

lemma poll_actor:
  "run_alone (device_act C D (Polls ctx)) ts (PollPc pc) s =
     (PollPc (fst (run_alone (poll_step C (de_grants D) ctx) ts pc (snd s))), fst s,
      snd (run_alone (poll_step C (de_grants D) ctx) ts pc (snd s)))"
  by (cases s) (simp add: actor_runs case_prod_beta del: run_alone.simps)

text \<open>A server whose cache holds a record under a device code.\<close>

definition holding :: "device_code_data \<Rightarrow> nat in_memory_cache server" where
  "holding d = (let b = enc_device_code example_codec d in
     snd (on_cache (dc_set in_memory 0 (user_code_key (dcd_user_code d)) b None)
       (snd (on_cache (dc_set in_memory 0 (device_code_key (dcd_device_code d)) b None) example_server))))"

lemma holding_views:
  "mem_view u (sv_cache (holding d)) (device_code_key (dcd_device_code d)) = Some (enc_device_code example_codec d, None)"
  "mem_view u (sv_cache (holding d)) (user_code_key (dcd_user_code d)) = Some (enc_device_code example_codec d, None)"
  unfolding holding_def Let_def mem.on_caches snd_conv server.simps
  by (simp_all add: mem.set_view [simplified] put_def live_def expiry_def)

lemma example_poll_reads:
  assumes "t \<le> from_secs 500" and "d \<in> {example_record, example_approved}"
    and "mem_view t (sv_cache st) (device_code_key ''d-1'') = Some (enc_device_code example_codec d, x)"
  obtains st' where "run_alone (poll_step in_memory (example_env example_codec) (example_ctx sd)) [t] PollStart st =
      (PollPace (polled t d) (example_ttl t), st')"
    and "\<And>u. t \<le> u \<Longrightarrow> mem_view u (sv_cache st') = mem_view u (sv_cache st)"
proof -
  let ?st' = "st\<lparr>sv_cache := snd (dc_get in_memory t (device_code_key ''d-1'') (sv_cache st))\<rparr>"
  have code: "poll_code (example_ctx sd) = ''d-1''"
    by (simp add: poll_code_def example_ctx_def example_token_request_def unwrap_text_def)
  have "dec_device_code (ge_codec (example_env example_codec)) (enc_device_code example_codec d) = Some d"
    by (simp add: example_env_def example_codec_def)
  with assms(3) have "run_alone (poll_step in_memory (example_env example_codec) (example_ctx sd)) [t] PollStart st =
      (PollPace (polled t d) (example_ttl t), ?st')"
    using mem.poll_reads(1) [of t st "example_ctx sd"] by (simp add: code example_paces [OF assms(1,2)])
  moreover have "mem_view u (sv_cache ?st') = mem_view u (sv_cache st)" if "t \<le> u" for u
    using mem.get_view [OF that, of "device_code_key ''d-1''" "sv_cache st"] by simp
  ultimately show thesis
    by (rule that)
qed

text \<open>A request, its verification and a poll, one after the other.\<close>

definition example_actors :: "nat \<Rightarrow> device_actor" where
  "example_actors i = (if i = 0 then Asks example_ask else if i = 1 then Verifies example_verify else Polls (example_ctx ''x''))"

lemma example_form:
  "vf_user_code example_device_env example_verify = ''AAAA-AAAA''" "vf_text example_verify ''username'' = ''alice''"
  "vf_text example_verify ''password'' = ''secret''" "rlm_id (vf_realm example_verify) = ''default''"
  by (code_simp, code_simp, code_simp, code_simp)

lemma example_codecs:
  "de_grants example_device_env = example_env example_codec" "ge_codec (example_env example_codec) = example_codec"
  "dec_device_code example_codec (enc_device_code example_codec d) = Some d"
  by (simp_all add: example_device_env_def example_env_def example_codec_def)

lemma example_run:
  obtains \<sigma> r where "(device_system_step in_memory example_device_env example_actors 3)\<^sup>*\<^sup>*
       (device_init example_actors (example_device_credentials, example_server :: nat in_memory_cache server) 0) \<sigma>"
    and "sys_pcs \<sigma> 2 = PollPc (PollDone (Tokens r))"
proof -
  let ?init = "device_init example_actors (example_device_credentials, example_server :: nat in_memory_cache server) 0"
  let ?turns = "map (Pair 0) [1, 2] @ map (Pair 1) [3, 4, 5, 6] @ map (Pair 2) [7] @ map (Pair 2) [8, 9, 10, 11] @ []"
  let ?\<sigma> = "run_schedule (\<lambda>i. device_act in_memory example_device_env (example_actors i)) ?turns ?init"
  let ?b = "enc_device_code example_codec example_record" and ?b' = "enc_device_code example_codec example_approved"
  have early: "(4 :: nat) \<le> from_secs 500" "(7 :: nat) \<le> from_secs 500" "(7 :: nat) \<le> from_secs 50" "(10 :: nat) \<le> from_secs 500"
      "3 < 2 + secs DEVICE_EXPIRES_IN" "7 < 5 + example_ttl 4"
    by (simp_all add: from_secs_def secs_def DEVICE_EXPIRES_IN_def NANOS_PER_SEC_def example_ttl_def)
  have ask: "dr_client_id example_request_data = ''app''" "generate_user_code (ak_rng example_ask) = ''AAAA-AAAA''"
    by (code_simp, code_simp)
  have approved: "dcd_device_code example_approved = ''d-1''"
    by (simp add: example_approved_def approve_def example_record_fields)
  obtain st1 where asked: "run_alone (ask_step in_memory example_device_env example_ask) [1, 2] AskStart (example_server :: nat in_memory_cache server)
      = (AskDone (device_response example_device_env example_ask example_record), st1)"
    and view1: "\<And>u. 2 \<le> u \<Longrightarrow> u < 2 + secs DEVICE_EXPIRES_IN \<Longrightarrow> mem_view u (sv_cache st1) (user_code_key ''AAAA-AAAA'') =
      Some (?b, Some (2 + secs DEVICE_EXPIRES_IN))"
    by (rule mem.ask_runs [of example_ask example_request_data example_device_env _ 1 2, folded example_record_def, unfolded ask example_codecs,
          OF example_asked(1,2) [unfolded example_codecs] example_asked(3) [unfolded example_codecs] example_small [unfolded example_codecs]])
      (rule that)
  obtain st2 where verified: "run_alone (verify_step in_memory example_device_env example_verify) [3, 4, 5, 6] VerStart
      (example_device_credentials, st1) = (VerDone (Some DeviceApproved), example_device_credentials, st2)"
    and view2: "\<And>u. 6 \<le> u \<Longrightarrow> u < 5 + example_ttl 4 \<Longrightarrow> mem_view u (sv_cache st2) (device_code_key ''d-1'') =
      Some (?b', Some (5 + example_ttl 4))"
    by (rule mem.verify_runs [of example_device_env example_verify 3 st1 ?b "Some (2 + secs DEVICE_EXPIRES_IN)" example_record 4
          example_device_credentials example_approved "example_ttl 4" 5 6])
      (use early(5) in \<open>simp_all add: example_form view1 example_codecs example_record_fields example_verifies [OF early(1)] approved
        del: run_alone.simps\<close>)
  obtain st3 where read: "run_alone (poll_step in_memory (example_env example_codec) (example_ctx ''x'')) [7] PollStart st2 =
      (PollPace (polled 7 example_approved) (example_ttl 7), st3)"
    by (rule example_poll_reads [OF early(2) _ view2 [OF _ early(6)], of "''x''"]) (simp, simp, rule that)
  obtain r where redeem: "\<And>st :: nat in_memory_cache server. fst (run_alone (poll_step in_memory (example_env example_codec)
      (example_ctx ''x'')) [8, 9, 10, 11] (PollPace (polled 7 example_approved) (example_ttl 7)) st) = PollDone (Tokens r)"
    by (rule example_device_redeems [of 8 9 10 7 "''x''" 11, OF _ _ early(4,3)]) (simp, simp, rule that)
  have "(device_system_step in_memory example_device_env example_actors 3)\<^sup>*\<^sup>* ?init ?\<sigma>"
    unfolding device_system_step_def by (rule run_schedule_reaches) (auto simp: device_init_def)
  moreover have "sys_pcs ?\<sigma> 2 = PollPc (PollDone (Tokens r))"
    unfolding run_schedule_alone
    by (simp add: device_init_def example_actors_def actor_runs(1,2) poll_actor example_codecs asked verified read redeem case_prod_beta
        Let_def del: run_alone.simps One_nat_def)
  ultimately show thesis
    by (rule that)
qed

section \<open>Properties\<close>



text \<open>(C33) Two polls that overlap redeem one approved device code twice: each writes the record it read
  back before it consumes it.\<close>

theorem device_code_redeemed_twice:
  "\<exists>\<sigma> a b. (device_system_step in_memory example_device_env (\<lambda>i. Polls (example_ctx (nat_to_string i))) 2)\<^sup>*\<^sup>*
       (device_init (\<lambda>i. Polls (example_ctx (nat_to_string i))) (Map.empty, holding example_approved) 0) \<sigma>
     \<and> sys_pcs \<sigma> 0 = PollPc (PollDone (Tokens a)) \<and> sys_pcs \<sigma> 1 = PollPc (PollDone (Tokens b))
     \<and> tp_access_token a \<noteq> tp_access_token b"
proof -
  let ?actors = "\<lambda>i. Polls (example_ctx (nat_to_string i))"
  let ?init = "device_init ?actors (Map.empty, holding example_approved) 0"
  let ?act = "\<lambda>i. device_act in_memory example_device_env (?actors i)"
  let ?turns = "map (Pair 0) [1] @ map (Pair 1) [2] @ map (Pair 0) [3, 4, 5, 6] @ map (Pair 1) [7, 8, 9, 10] @ []"
  let ?\<sigma> = "run_schedule ?act ?turns ?init"
  have early: "(5 :: nat) \<le> from_secs 500" "(9 :: nat) \<le> from_secs 500" "(1 :: nat) \<le> from_secs 50" "(2 :: nat) \<le> from_secs 50"
      "(1 :: nat) \<le> from_secs 500" "(2 :: nat) \<le> from_secs 500"
    by (simp_all add: from_secs_def NANOS_PER_SEC_def)
  obtain a where a: "\<And>st :: nat in_memory_cache server. fst (run_alone (poll_step in_memory (example_env example_codec)
      (example_ctx (nat_to_string 0))) [3, 4, 5, 6] (PollPace (polled 1 example_approved) (example_ttl 1)) st)
      = PollDone (Tokens a)" "tp_access_token a = ''at-'' @ nat_to_string 0 @ ''2''"
    by (rule example_device_redeems [of 3 4 5 1 "nat_to_string 0" 6, OF _ _ early(1,3)]) (simp, simp, rule that)
  obtain b where b: "\<And>st :: nat in_memory_cache server. fst (run_alone (poll_step in_memory (example_env example_codec)
      (example_ctx (nat_to_string 1))) [7, 8, 9, 10] (PollPace (polled 2 example_approved) (example_ttl 2)) st)
      = PollDone (Tokens b)" "tp_access_token b = ''at-'' @ nat_to_string 1 @ ''2''"
    by (rule example_device_redeems [of 7 8 9 2 "nat_to_string 1" 10, OF _ _ early(2,4)]) (simp, simp, rule that)
  have view: "mem_view u (sv_cache (holding example_approved)) (device_code_key ''d-1'') =
      Some (enc_device_code example_codec example_approved, None)" for u
    using holding_views(1) [of u example_approved] by (simp add: example_approved_def approve_def example_record_fields)
  obtain st1 where read0: "run_alone (poll_step in_memory (example_env example_codec) (example_ctx (nat_to_string 0))) [1] PollStart
      (holding example_approved) = (PollPace (polled 1 example_approved) (example_ttl 1), st1)"
    and view1: "\<And>u. 1 \<le> u \<Longrightarrow> mem_view u (sv_cache st1) = mem_view u (sv_cache (holding example_approved))"
    by (rule example_poll_reads [OF early(5) _ view, of "nat_to_string 0"]) (simp, rule that)
  obtain st2 where read1: "run_alone (poll_step in_memory (example_env example_codec) (example_ctx (nat_to_string 1))) [2] PollStart
      st1 = (PollPace (polled 2 example_approved) (example_ttl 2), st2)"
    by (rule example_poll_reads [OF early(6), of example_approved st1 None "nat_to_string 1"]) (simp_all add: view1 view del: run_alone.simps)
  have reach: "(device_system_step in_memory example_device_env ?actors 2)\<^sup>*\<^sup>* ?init ?\<sigma>"
    unfolding device_system_step_def by (rule run_schedule_reaches) (auto simp: device_init_def)
  have "sys_pcs ?\<sigma> 0 = PollPc (PollDone (Tokens a))" "sys_pcs ?\<sigma> 1 = PollPc (PollDone (Tokens b))"
    unfolding run_schedule_alone
    by (simp_all add: device_init_def poll_actor example_codecs read0 read1 a b case_prod_beta Let_def del: run_alone.simps One_nat_def)
  moreover have "tp_access_token a \<noteq> tp_access_token b"
    unfolding a(2) b(2) by code_simp
  ultimately show ?thesis
    using reach by blast
qed

text \<open>An entry of the cache holds a record nobody approved.\<close>

definition stored_unapproved :: "nat \<Rightarrow> nat in_memory_cache server \<Rightarrow> string \<Rightarrow> bool" where
  "stored_unapproved t st k \<longleftrightarrow>
     (\<exists>b x d. mem_view t (sv_cache st) k = Some (b, x) \<and> dec_device_code example_codec b = Some d \<and> \<not> dcd_authorized d)"

text \<open>(C34) A poll that read the record before the user approved it writes it back after: the user is told that
  the device is approved, while both entries of the flow hold an unapproved record again and the
  device keeps being told to wait.\<close>

theorem device_approval_lost:
  "\<exists>\<sigma>. (device_system_step in_memory example_device_env
           (\<lambda>i. if i = 0 then Polls (example_ctx ''x'') else Verifies example_verify) 2)\<^sup>*\<^sup>*
         (device_init (\<lambda>i. if i = 0 then Polls (example_ctx ''x'') else Verifies example_verify)
           (example_device_credentials, holding example_record) 0) \<sigma>
     \<and> sys_pcs \<sigma> 1 = VerifyPc (VerDone (Some DeviceApproved))
     \<and> sys_pcs \<sigma> 0 = PollPc (PollDone (poll_error ''authorization_pending''))
     \<and> stored_unapproved (sys_now \<sigma>) (snd (sys_state \<sigma>)) (device_code_key ''d-1'')
     \<and> stored_unapproved (sys_now \<sigma>) (snd (sys_state \<sigma>)) (user_code_key ''AAAA-AAAA'')"
proof -
  let ?actors = "\<lambda>i :: nat. if i = 0 then Polls (example_ctx ''x'') else Verifies example_verify"
  let ?init = "device_init ?actors (example_device_credentials, holding example_record) 0"
  let ?turns = "map (Pair 0) [1] @ map (Pair 1) [2, 3, 4, 5] @ map (Pair 0) [6, 7] @ []"
  let ?\<sigma> = "run_schedule (\<lambda>i. device_act in_memory example_device_env (?actors i)) ?turns ?init"
  let ?keys = "{device_code_key ''d-1'', user_code_key ''AAAA-AAAA''}"
  note fields = holding_views [of _ example_record, unfolded example_record_fields]
  have early: "(1 :: nat) \<le> from_secs 500" "(3 :: nat) \<le> from_secs 500" "7 < 6 + example_ttl 1"
    by (simp_all add: from_secs_def NANOS_PER_SEC_def example_ttl_def)
  have code: "poll_code (example_ctx ''x'') = ''d-1''"
    by (simp add: poll_code_def example_ctx_def example_token_request_def unwrap_text_def)
  obtain st1 where read: "run_alone (poll_step in_memory (example_env example_codec) (example_ctx ''x'')) [1] PollStart
      (holding example_record) = (PollPace (polled 1 example_record) (example_ttl 1), st1)"
    and view1: "\<And>u. 1 \<le> u \<Longrightarrow> mem_view u (sv_cache st1) = mem_view u (sv_cache (holding example_record))"
    by (rule example_poll_reads [OF early(1) _ fields(1), of "''x''"]) (simp, rule that)
  obtain st2 where verified: "run_alone (verify_step in_memory example_device_env example_verify) [2, 3, 4, 5] VerStart
      (example_device_credentials, st1) = (VerDone (Some DeviceApproved), example_device_credentials, st2)"
    by (rule mem.verify_runs [of example_device_env example_verify 2 st1 "enc_device_code example_codec example_record" None
          example_record 3 example_device_credentials example_approved "example_ttl 3" 4 5])
      (use fields(2) [of 2] in \<open>simp_all add: example_form view1 example_codecs example_record_fields example_verifies [OF early(2)] del: run_alone.simps\<close>)
  obtain st3 where pends: "run_alone (poll_step in_memory (example_env example_codec) (example_ctx ''x'')) [6, 7]
      (PollPace (polled 1 example_record) (example_ttl 1)) st2 = (PollDone (poll_error ''authorization_pending''), st3)"
    and stored: "\<And>u k. 7 \<le> u \<Longrightarrow> u < 6 + example_ttl 1 \<Longrightarrow> k \<in> ?keys \<Longrightarrow>
      \<exists>x. mem_view u (sv_cache st3) k = Some (enc_device_code example_codec (polled 1 example_record), x)"
    using mem.paced_poll_pends [of "polled 1 example_record" 6 7 "example_env example_codec" "example_ctx ''x''" "example_ttl 1" st2]
    by (simp add: polled_def code example_codecs example_record_fields del: run_alone.simps) metis
  have reach: "(device_system_step in_memory example_device_env ?actors 2)\<^sup>*\<^sup>* ?init ?\<sigma>"
    unfolding device_system_step_def by (rule run_schedule_reaches) (auto simp: device_init_def)
  have run: "?\<sigma> = \<lparr>sys_state = (example_device_credentials, st3), sys_now = 7,
      sys_pcs = (sys_pcs ?init)(0 := PollPc (PollDone (poll_error ''authorization_pending'')),
        1 := VerifyPc (VerDone (Some DeviceApproved)))\<rparr>"
    unfolding run_schedule_alone
    by (simp add: device_init_def poll_actor actor_runs(2) example_codecs read verified pends case_prod_beta Let_def fun_eq_iff
        del: run_alone.simps One_nat_def)
  have "stored_unapproved 7 st3 k" if "k \<in> ?keys" for k
    using stored [OF _ early(3) that] by (auto simp: stored_unapproved_def example_codecs polled_def example_record_fields)
  then have "sys_pcs ?\<sigma> 1 = VerifyPc (VerDone (Some DeviceApproved))"
    "sys_pcs ?\<sigma> 0 = PollPc (PollDone (poll_error ''authorization_pending''))"
    "stored_unapproved (sys_now ?\<sigma>) (snd (sys_state ?\<sigma>)) (device_code_key ''d-1'')"
    "stored_unapproved (sys_now ?\<sigma>) (snd (sys_state ?\<sigma>)) (user_code_key ''AAAA-AAAA'')"
    unfolding run by simp_all
  with reach show ?thesis
    by blast
qed

end
