(* ===== verification/Flow_Executor.thy ===== *)
theory Flow_Executor
  imports Grant_Base
begin

text \<open>
  The executor of authentication flows, \<^verbatim>\<open>issuerd-auth-flow/src/executor.rs\<close>, over the traits of
  authenticators and required actions (\<^verbatim>\<open>issuerd-core/src/traits.rs\<close>) and the plugin registry.
  An authenticator changes the context of the login and the world (storage, cache, clock), whose
  type is a parameter.  A panic of an authenticator aborts the flow.
\<close>

section \<open>Contexts, authenticators, registry\<close>

datatype challenge =
    ChLoginForm string | ChOtpForm string | ChWebAuthn string string | ChRedirect string | ChCookie

record auth_context =
  cx_realm_id :: string
  cx_client_id :: "string option"
  cx_user_id :: "string option"
  cx_session_id :: "string option"
  cx_ip_address :: "string option"
  cx_parameters :: "string \<rightharpoonup> string list"
  cx_attributes :: "string \<rightharpoonup> string"
  cx_current_challenge :: "challenge option"

datatype auth_step_result = StepSuccess | StepFailure issuerd_error | StepChallenge challenge | StepAttempted

text \<open>\<open>None\<close> is a panic.\<close>

record 'w authenticator =
  au_configured_for :: "auth_context \<Rightarrow> bool"
  au_authenticate :: "auth_context \<times> 'w \<Rightarrow> auth_step_result option \<times> auth_context \<times> 'w"

text \<open>\<open>pr_ready\<close> tells whether the first poll of a lookup completes it.\<close>

record 'w plugin_registry =
  pr_authenticator :: "string \<Rightarrow> issuerd_error + 'w authenticator option"
  pr_ready :: "string \<Rightarrow> bool"
  pr_required_action :: "string \<Rightarrow> issuerd_error + (auth_context \<Rightarrow> 'w \<Rightarrow> issuerd_error + bool) option"
  pr_required_action_ids :: "string list"

section \<open>Outcomes\<close>

record flow_result =
  fr_user_id :: string
  fr_session_id :: string
  fr_auth_time :: int
  fr_required_actions :: "string list"

datatype flow_outcome = FlowSuccess flow_result | FlowChallenge challenge string | FlowFailure issuerd_error

datatype execution_status = NotEvaluated | StatusSuccess | StatusAttempted | StatusFailed | StatusSkipped

datatype stage_outcome = StageSuccess | StageFailure issuerd_error | StageChallenge challenge | StageAttempted

text \<open>An error of the executor itself, or a panic below it.\<close>

datatype flow_abort = Aborted issuerd_error | Panicked

fun is_operational_failure :: "issuerd_error \<Rightarrow> bool" where
  "is_operational_failure (ServerError _) = True"
| "is_operational_failure TemporarilyUnavailable = True"
| "is_operational_failure UnsupportedOperation = True"
| "is_operational_failure (KeyEncryption _) = True"
| "is_operational_failure NotFound = True"
| "is_operational_failure Conflict = True"
| "is_operational_failure (InvalidRequest _) = True"
| "is_operational_failure _ = False"

section \<open>The executor\<close>

record 'w flow_executor =
  fe_registry :: "'w plugin_registry"
  fe_flows :: "string \<rightharpoonup> flow_config"
  fe_generate_id :: "'w \<Rightarrow> string \<times> 'w"
  fe_now :: "'w \<Rightarrow> nat \<times> 'w"

text \<open>A later flow of the same alias replaces an earlier one.\<close>

definition flows_by_alias :: "flow_config list \<Rightarrow> string \<rightharpoonup> flow_config" where
  "flows_by_alias flows = fold (\<lambda>f m. m(flow_alias f \<mapsto> f)) flows Map.empty"

definition flow_executor_new ::
    "'w plugin_registry \<Rightarrow> flow_config list \<Rightarrow> ('w \<Rightarrow> string \<times> 'w) \<Rightarrow> ('w \<Rightarrow> nat \<times> 'w) \<Rightarrow> 'w flow_executor" where
  "flow_executor_new R flows gen clock =
     \<lparr>fe_registry = R, fe_flows = flows_by_alias flows, fe_generate_id = gen, fe_now = clock\<rparr>"

text \<open>What a run changes: the context, the flow state, the world.\<close>

record 'w run =
  rn_context :: auth_context
  rn_status :: "string \<rightharpoonup> execution_status"
  rn_path :: "string list"
  rn_world :: 'w

definition mark :: "flow_stage \<Rightarrow> execution_status \<Rightarrow> 'w run \<Rightarrow> 'w run" where
  "mark stage s r = r\<lparr>rn_status := (rn_status r)(stage_id stage \<mapsto> s)\<rparr>"

definition execute_stage :: "'w flow_executor \<Rightarrow> flow_stage \<Rightarrow> 'w run \<Rightarrow> (flow_abort + stage_outcome) \<times> 'w run" where
  "execute_stage X stage r =
     (case pr_authenticator (fe_registry X) (stage_authenticator stage) of
        Inl e \<Rightarrow> (Inl (Aborted e), r)
      | Inr None \<Rightarrow>
          (Inr (StageFailure (InvalidRequest (''unknown authenticator: '' @ stage_authenticator stage))), r)
      | Inr (Some a) \<Rightarrow>
          if stage_requirement stage = OptionalReq \<and> \<not> au_configured_for a (rn_context r) then (Inr StageAttempted, r)
          else (case au_authenticate a (rn_context r, rn_world r) of
             (res, ctx, w) \<Rightarrow>
               (case res of
                  None \<Rightarrow> Inl Panicked
                | Some StepSuccess \<Rightarrow> Inr StageSuccess
                | Some (StepFailure e) \<Rightarrow> Inr (StageFailure e)
                | Some (StepChallenge c) \<Rightarrow> Inr (StageChallenge c)
                | Some StepAttempted \<Rightarrow> Inr StageAttempted,
                r\<lparr>rn_context := ctx, rn_world := w\<rparr>)))"

type_synonym 'w flow_answer = "(flow_abort + flow_outcome) \<times> 'w run"

type_synonym 'w sub_runner = "flow_config \<Rightarrow> 'w run \<Rightarrow> 'w flow_answer"

text \<open>A stage that names a sub-flow.\<close>

definition enter_sub_flow ::
    "'w flow_executor \<Rightarrow> 'w sub_runner \<Rightarrow> string \<Rightarrow> 'w run \<Rightarrow> (flow_abort + flow_outcome) \<times> 'w run" where
  "enter_sub_flow X sub alias r =
     (case fe_flows X alias of
        None \<Rightarrow> (Inl (Aborted (InvalidRequest (''unknown sub-flow alias: '' @ alias))), r)
      | Some nested \<Rightarrow>
          (case sub nested (r\<lparr>rn_path := rn_path r @ [alias]\<rparr>) of
             (Inl a, r') \<Rightarrow> (Inl a, r')
           | (Inr out, r') \<Rightarrow> (Inr out, r'\<lparr>rn_path := butlast (rn_path r')\<rparr>)))"

text \<open>The loop over a group of alternatives.\<close>

datatype alt_outcome = AltSuccess | AltChallenge challenge string | AltNone "issuerd_error option"

fun alt_loop ::
    "'w flow_executor \<Rightarrow> 'w sub_runner \<Rightarrow> issuerd_error option \<Rightarrow> flow_stage list \<Rightarrow> 'w run
     \<Rightarrow> (flow_abort + alt_outcome) \<times> 'w run" where
  "alt_loop X sub last_error [] r = (Inr (AltNone last_error), r)"
| "alt_loop X sub last_error (stage # alts) r =
     (case stage_sub_flow_alias stage of
        Some alias \<Rightarrow>
          (case enter_sub_flow X sub alias r of
             (Inl a, r') \<Rightarrow> (Inl a, r')
           | (Inr (FlowSuccess _), r') \<Rightarrow> (Inr AltSuccess, mark stage StatusSuccess r')
           | (Inr (FlowChallenge c eid), r') \<Rightarrow> (Inr (AltChallenge c eid), r')
           | (Inr (FlowFailure e), r') \<Rightarrow> alt_loop X sub (Some e) alts (mark stage StatusFailed r'))
      | None \<Rightarrow>
          (case execute_stage X stage r of
             (Inl a, r') \<Rightarrow> (Inl a, r')
           | (Inr StageSuccess, r') \<Rightarrow> (Inr AltSuccess, mark stage StatusSuccess r')
           | (Inr (StageChallenge c), r') \<Rightarrow> (Inr (AltChallenge c (stage_id stage)), r')
           | (Inr (StageFailure e), r') \<Rightarrow> alt_loop X sub (Some e) alts (mark stage StatusFailed r')
           | (Inr StageAttempted, r') \<Rightarrow> alt_loop X sub last_error alts (mark stage StatusAttempted r')))"

text \<open>After the last stage.\<close>

definition stages_done :: "'w flow_executor \<Rightarrow> 'w run \<Rightarrow> (flow_abort + flow_outcome) \<times> 'w run" where
  "stages_done X r =
     (case cx_user_id (rn_context r) of
        None \<Rightarrow> (Inr (FlowFailure AccessDenied), r)
      | Some user_id \<Rightarrow>
          (let (sid, w1) = (case cx_session_id (rn_context r) of
                 Some s \<Rightarrow> (s, rn_world r) | None \<Rightarrow> fe_generate_id X (rn_world r));
               (now, w2) = fe_now X w1
           in (Inr (FlowSuccess \<lparr>fr_user_id = user_id, fr_session_id = sid, fr_auth_time = utc now,
                 fr_required_actions = []\<rparr>), r\<lparr>rn_world := w2\<rparr>)))"

definition is_alternative :: "flow_stage \<Rightarrow> bool" where
  "is_alternative s \<longleftrightarrow> stage_requirement s = Alternative"

text \<open>One iteration of the loop over the stages returns, or goes on with \<open>skip_conditional_scope\<close>, the
  stages left and the run.\<close>

datatype 'w control = Return "'w flow_answer" | Continue bool "flow_stage list" "'w run"

text \<open>After a stage that failed or was only attempted.\<close>

definition sub_flow_failed :: "flow_stage \<Rightarrow> flow_stage list \<Rightarrow> issuerd_error \<Rightarrow> 'w run \<Rightarrow> 'w control" where
  "sub_flow_failed stage rest e r =
     (let req = stage_requirement stage; r' = mark stage StatusFailed r in
      if req \<in> {OptionalReq, Conditional} \<and> is_operational_failure e then Return (Inr (FlowFailure e), r')
      else if req \<in> {Required, Alternative} then Return (Inr (FlowFailure e), r')
      else Continue (req = Conditional) rest r')"

definition stage_failed :: "flow_stage \<Rightarrow> flow_stage list \<Rightarrow> issuerd_error \<Rightarrow> 'w run \<Rightarrow> 'w control" where
  "stage_failed stage rest e r =
     (let req = stage_requirement stage; r' = mark stage StatusFailed r in
      if req = Required \<or> is_operational_failure e then Return (Inr (FlowFailure e), r')
      else Continue (req = Conditional) rest r')"

definition stage_attempted :: "flow_stage \<Rightarrow> flow_stage list \<Rightarrow> 'w run \<Rightarrow> 'w control" where
  "stage_attempted stage rest r =
     (let req = stage_requirement stage; r' = mark stage StatusAttempted r in
      if req = Required then Return (Inr (FlowFailure AccessDenied), r') else Continue (req = Conditional) rest r')"

definition stage_step ::
    "'w flow_executor \<Rightarrow> 'w sub_runner \<Rightarrow> bool \<Rightarrow> flow_stage \<Rightarrow> flow_stage list \<Rightarrow> 'w run \<Rightarrow> 'w control" where
  "stage_step X sub skip stage rest r =
     (let req = stage_requirement stage in
      if req = Disabled then Continue skip rest (mark stage StatusSkipped r)
      else if skip \<and> req = Conditional then Continue skip rest (mark stage StatusSkipped r)
      else (case stage_sub_flow_alias stage of
         Some alias \<Rightarrow>
           (case enter_sub_flow X sub alias r of
              (Inl a, r') \<Rightarrow> Return (Inl a, r')
            | (Inr (FlowSuccess _), r') \<Rightarrow> Continue False rest (mark stage StatusSuccess r')
            | (Inr (FlowChallenge c eid), r') \<Rightarrow> Return (Inr (FlowChallenge c eid), r')
            | (Inr (FlowFailure e), r') \<Rightarrow> sub_flow_failed stage rest e r')
       | None \<Rightarrow>
           if req = Alternative
           then (case alt_loop X sub None (takeWhile is_alternative (stage # rest)) r of
              (Inl a, r') \<Rightarrow> Return (Inl a, r')
            | (Inr AltSuccess, r') \<Rightarrow> Continue False (dropWhile is_alternative rest) r'
            | (Inr (AltChallenge c eid), r') \<Rightarrow> Return (Inr (FlowChallenge c eid), r')
            | (Inr (AltNone (Some e)), r') \<Rightarrow> Return (Inr (FlowFailure e), r')
            | (Inr (AltNone None), r') \<Rightarrow> Return (Inr (FlowFailure AccessDenied), r'))
           else (case execute_stage X stage r of
              (Inl a, r') \<Rightarrow> Return (Inl a, r')
            | (Inr StageSuccess, r') \<Rightarrow> Continue False rest (mark stage StatusSuccess r')
            | (Inr (StageChallenge c), r') \<Rightarrow> Return (Inr (FlowChallenge c (stage_id stage)), r')
            | (Inr (StageFailure e), r') \<Rightarrow> stage_failed stage rest e r'
            | (Inr StageAttempted, r') \<Rightarrow> stage_attempted stage rest r')))"

lemma stage_step_rest:
  assumes "stage_step X sub skip stage rest r = Continue skip' rest' r'"
  shows "rest' = rest \<or> stage_requirement stage = Alternative \<and> stage_sub_flow_alias stage = None \<and> rest' = dropWhile is_alternative rest"
  using assms
  by (auto simp: stage_step_def sub_flow_failed_def stage_failed_def stage_attempted_def Let_def
      split: if_splits option.splits prod.splits sum.splits flow_outcome.splits stage_outcome.splits alt_outcome.splits)

lemma stage_step_shorter:
  assumes "stage_step X sub skip stage rest r = Continue skip' rest' r'"
  shows "length rest' < Suc (length rest)"
  using stage_step_rest [OF assms] length_dropWhile_le [of is_alternative rest] by auto

function stage_loop ::
    "'w flow_executor \<Rightarrow> 'w sub_runner \<Rightarrow> bool \<Rightarrow> flow_stage list \<Rightarrow> 'w run \<Rightarrow> 'w flow_answer" where
  "stage_loop X sub skip [] r = stages_done X r"
| "stage_loop X sub skip (stage # rest) r =
     (case stage_step X sub skip stage rest r of
        Return answer \<Rightarrow> answer
      | Continue skip' rest' r' \<Rightarrow> stage_loop X sub skip' rest' r')"
  by pat_completeness auto
termination
  by (relation "measure (\<lambda>(X, sub, skip, stages, r). length stages)") (simp_all add: stage_step_shorter)

lemma stage_loop_rule:
  assumes "\<And>skip r. P skip [] r (stages_done X r)"
    and "\<And>skip s rest r answer. stage_step X sub skip s rest r = Return answer \<Longrightarrow> P skip (s # rest) r answer"
    and "\<And>skip s rest r skip' rest' r' answer. stage_step X sub skip s rest r = Continue skip' rest' r' \<Longrightarrow>
      P skip' rest' r' answer \<Longrightarrow> P skip (s # rest) r answer"
  shows "P skip stages r (stage_loop X sub skip stages r)"
proof (induction "length stages" arbitrary: skip stages r rule: less_induct)
  case less
  show ?case
  proof (cases stages)
    case (Cons s rest)
    show ?thesis
    proof (cases "stage_step X sub skip s rest r")
      case (Continue skip' rest' r')
      with assms(3) [OF this less] stage_step_shorter [OF this] Cons show ?thesis
        by simp
    qed (simp add: Cons assms(2))
  qed (simp add: assms(1))
qed

text \<open>\<open>execute_stages\<close>; a sub-flow is executed one level deeper.\<close>

function execute_stages ::
    "'w flow_executor \<Rightarrow> nat \<Rightarrow> flow_stage list \<Rightarrow> 'w run \<Rightarrow> 'w flow_answer" where
  "execute_stages X depth stages r =
     (if depth > 10 then (Inr (FlowFailure (ServerError ''flow recursion depth exceeded'')), r)
      else stage_loop X (\<lambda>flow. execute_stages X (Suc depth) (flow_stages flow)) False stages r)"
  by pat_completeness auto
termination
  by (relation "measure (\<lambda>(X, depth, stages, r). 11 - depth)") auto

lemma execute_stages_rule:
  assumes "\<And>depth stages r. depth > 10 \<Longrightarrow> P depth stages r (Inr (FlowFailure (ServerError ''flow recursion depth exceeded'')), r)"
    and "\<And>depth stages r. depth \<le> 10 \<Longrightarrow> (\<And>(f :: flow_config) r. P (Suc depth) (flow_stages f) r (execute_stages X (Suc depth) (flow_stages f) r)) \<Longrightarrow>
      P depth stages r (stage_loop X (\<lambda>flow. execute_stages X (Suc depth) (flow_stages flow)) False stages r)"
  shows "P depth stages r (execute_stages X depth stages r)"
proof (induction "11 - depth" arbitrary: depth stages r rule: less_induct)
  case less
  show ?case
  proof (cases "depth > 10")
    case False
    then have "P depth stages r (stage_loop X (\<lambda>flow. execute_stages X (Suc depth) (flow_stages flow)) False stages r)"
      by (intro assms(2) less) auto
    with False show ?thesis
      by (subst execute_stages.simps) (simp del: execute_stages.simps)
  qed (simp add: assms(1))
qed

lemmas [simp del] = execute_stages.simps

fun evaluate_actions ::
    "'w plugin_registry \<Rightarrow> auth_context \<Rightarrow> 'w \<Rightarrow> string list \<Rightarrow> string list \<Rightarrow> issuerd_error + string list" where
  "evaluate_actions R ctx w [] pending = Inr pending"
| "evaluate_actions R ctx w (i # ids) pending =
     (case pr_required_action R i of
        Inl e \<Rightarrow> Inl e
      | Inr None \<Rightarrow> Inl (ServerError (''required action listed but not registered: '' @ i))
      | Inr (Some try_evaluate) \<Rightarrow>
          (case try_evaluate ctx w of
             Inl e \<Rightarrow> Inl e
           | Inr b \<Rightarrow> evaluate_actions R ctx w ids (if b then pending @ [i] else pending)))"

definition finalize_outcome :: "'w flow_executor \<Rightarrow> flow_outcome \<Rightarrow> 'w run \<Rightarrow> flow_abort + flow_outcome" where
  "finalize_outcome X outcome r =
     (case outcome of
        FlowSuccess result \<Rightarrow>
          (case evaluate_actions (fe_registry X) (rn_context r) (rn_world r) (pr_required_action_ids (fe_registry X))
                 (fr_required_actions result) of
             Inl e \<Rightarrow> Inl (Aborted e)
           | Inr actions \<Rightarrow> Inr (FlowSuccess (result\<lparr>fr_required_actions := actions\<rparr>)))
      | _ \<Rightarrow> Inr outcome)"

definition finalized ::
    "'w flow_executor \<Rightarrow> 'w flow_answer \<Rightarrow> 'w flow_answer" where
  "finalized X res = (case res of (Inl a, r) \<Rightarrow> (Inl a, r) | (Inr out, r) \<Rightarrow> (finalize_outcome X out r, r))"

definition start_run :: "flow_config \<Rightarrow> auth_context \<Rightarrow> 'w \<Rightarrow> 'w run" where
  "start_run flow ctx w = \<lparr>rn_context = ctx, rn_status = Map.empty, rn_path = [flow_alias flow], rn_world = w\<rparr>"

definition execute ::
    "'w flow_executor \<Rightarrow> flow_config \<Rightarrow> auth_context \<Rightarrow> 'w \<Rightarrow> (flow_abort + flow_outcome) \<times> 'w run" where
  "execute X flow ctx w = finalized X (execute_stages X 0 (flow_stages flow) (start_run flow ctx w))"

text \<open>Resumption at a stage of the flow.\<close>

definition continue_flow ::
    "'w flow_executor \<Rightarrow> flow_config \<Rightarrow> string \<Rightarrow> auth_context \<Rightarrow> 'w \<Rightarrow> (flow_abort + flow_outcome) \<times> 'w run" where
  "continue_flow X flow execution_id ctx w =
     (let r = start_run flow ctx w in
      case dropWhile (\<lambda>s. stage_id s \<noteq> execution_id) (flow_stages flow) of
        [] \<Rightarrow> (Inl (Aborted (InvalidRequest (''unknown execution_id: '' @ execution_id))), r)
      | stage # remaining \<Rightarrow>
          (let req = stage_requirement stage; rest = (\<lambda>r. finalized X (execute_stages X 0 remaining r)) in
           if req = Disabled then rest (mark stage StatusSkipped r)
           else (case execute_stage X stage r of
              (Inl a, r') \<Rightarrow> (Inl a, r')
            | (Inr StageSuccess, r') \<Rightarrow> rest (mark stage StatusSuccess r')
            | (Inr (StageChallenge c), r') \<Rightarrow> (Inr (FlowChallenge c execution_id), r')
            | (Inr (StageFailure e), r') \<Rightarrow>
                (let r'' = mark stage StatusFailed r' in
                 if req = OptionalReq \<and> is_operational_failure e then (Inr (FlowFailure e), r'')
                 else if req \<in> {Required, Alternative, Conditional} then (Inr (FlowFailure e), r'')
                 else rest r'')
            | (Inr StageAttempted, r') \<Rightarrow>
                (let r'' = mark stage StatusAttempted r' in
                 if req \<in> {Required, Alternative, Conditional} then (Inr (FlowFailure AccessDenied), r'')
                 else rest r''))))"

end
