(* ===== verification/Flow_Validation.thy ===== *)
theory Flow_Validation
  imports Flow_Executor "HOL-Library.While_Combinator"
begin

text \<open>
  The static validation of a realm's flows, \<^verbatim>\<open>issuerd-auth-flow/src/validation.rs\<close>, which the admin
  API runs before it saves flows.  The cycle check is a depth-first search with an explicit stack;
  it is proved to return, and to report a cycle exactly when there is one.
\<close>

section \<open>The checks of a flow\<close>

definition quoted :: "string \<Rightarrow> string" where "quoted s = [CHR 0x27] @ s @ [CHR 0x27]"

definition authenticator_exists :: "'w plugin_registry \<Rightarrow> string \<Rightarrow> string + bool" where
  "authenticator_exists R i =
     (if \<not> pr_ready R i then Inl ''registry lookup did not complete synchronously''
      else (case pr_authenticator R i of Inr found \<Rightarrow> Inr (\<not> Option.is_none found) | Inl e \<Rightarrow> Inl (error_display e)))"

definition stage_errors ::
    "(string \<rightharpoonup> flow_config) \<Rightarrow> 'w plugin_registry \<Rightarrow> flow_config \<Rightarrow> flow_stage \<Rightarrow> string list" where
  "stage_errors by_alias R flow stage =
     (let at = ''flow '' @ quoted (flow_alias flow) @ '' stage '' @ quoted (stage_id stage) @ '': '' in
      case stage_sub_flow_alias stage of
        Some alias \<Rightarrow> if by_alias alias = None then [at @ ''unknown sub-flow alias '' @ quoted alias] else []
      | None \<Rightarrow>
          (case authenticator_exists R (stage_authenticator stage) of
             Inr True \<Rightarrow> []
           | Inr False \<Rightarrow> [at @ ''unknown authenticator '' @ quoted (stage_authenticator stage)]
           | Inl reason \<Rightarrow>
               [at @ ''failed to look up authenticator '' @ quoted (stage_authenticator stage) @ '': '' @ reason]))"

definition check_stages :: "(string \<rightharpoonup> flow_config) \<Rightarrow> 'w plugin_registry \<Rightarrow> flow_config \<Rightarrow> string list" where
  "check_stages by_alias R flow = concat (map (stage_errors by_alias R flow) (flow_stages flow))"

fun duplicate_ids :: "flow_config \<Rightarrow> string set \<Rightarrow> flow_stage list \<Rightarrow> string list" where
  "duplicate_ids flow seen [] = []"
| "duplicate_ids flow seen (s # stages) =
     (if stage_id s \<in> seen
      then (''flow '' @ quoted (flow_alias flow) @ '': duplicate stage id '' @ quoted (stage_id s)) # duplicate_ids flow seen stages
      else duplicate_ids flow (insert (stage_id s) seen) stages)"

definition check_duplicate_stage_ids :: "flow_config \<Rightarrow> string list" where
  "check_duplicate_stage_ids flow = duplicate_ids flow {} (flow_stages flow)"

definition check_top_level_has_enabled_stage :: "flow_config \<Rightarrow> string list" where
  "check_top_level_has_enabled_stage flow =
     (if flow_top_level flow \<and> flow_stages flow \<noteq> [] \<and> list_all (\<lambda>s. stage_requirement s = Disabled) (flow_stages flow)
      then [''top-level flow '' @ quoted (flow_alias flow) @ '' has no enabled stages; it can never succeed''] else [])"

section \<open>The search for cycles\<close>

datatype dfs_mark = InStack | DfsDone

type_synonym adjacency = "string \<rightharpoonup> string list"

definition adjacency_of :: "flow_config list \<Rightarrow> adjacency" where
  "adjacency_of flows =
     (let by_alias = flows_by_alias flows;
          targets = (\<lambda>f. filter (\<lambda>a. by_alias a \<noteq> None) (List.map_filter stage_sub_flow_alias (flow_stages f)))
      in fold (\<lambda>f m. m(flow_alias f \<mapsto> targets f)) flows Map.empty)"

definition targets_of :: "adjacency \<Rightarrow> string \<Rightarrow> string list" where
  "targets_of adj a = (case adj a of Some ts \<Rightarrow> ts | None \<Rightarrow> [])"

text \<open>The two vectors \<open>path\<close> and \<open>cursor\<close> are one stack, its top first.\<close>

record dfs =
  dfs_stack :: "(string \<times> nat) list"
  dfs_marks :: "string \<rightharpoonup> dfs_mark"
  dfs_errors :: "string list"

definition cycle_error :: "string list \<Rightarrow> string \<Rightarrow> string" where
  "cycle_error path target =
     ''sub-flow cycle detected: ''
       @ join '' -> '' ((if target \<in> set path then dropWhile (\<lambda>a. a \<noteq> target) path else path) @ [target])"

definition visit_step :: "adjacency \<Rightarrow> dfs \<Rightarrow> dfs" where
  "visit_step adj s =
     (case dfs_stack s of
        [] \<Rightarrow> s
      | (alias, next) # below \<Rightarrow>
          if length (targets_of adj alias) \<le> next
          then s\<lparr>dfs_stack := below, dfs_marks := (dfs_marks s)(alias \<mapsto> DfsDone)\<rparr>
          else (let target = targets_of adj alias ! next; s1 = s\<lparr>dfs_stack := (alias, Suc next) # below\<rparr> in
            case dfs_marks s target of
              Some InStack \<Rightarrow>
                s1\<lparr>dfs_errors := dfs_errors s @ [cycle_error (rev (map fst (dfs_stack s))) target]\<rparr>
            | Some DfsDone \<Rightarrow> s1
            | None \<Rightarrow> s1\<lparr>dfs_stack := (target, 0) # (alias, Suc next) # below, dfs_marks := (dfs_marks s)(target \<mapsto> InStack)\<rparr>))"

text \<open>The loop may in principle not end; it is shown to end below.\<close>

definition visit :: "adjacency \<Rightarrow> string \<Rightarrow> dfs \<Rightarrow> dfs option" where
  "visit adj root s =
     while_option (\<lambda>s. dfs_stack s \<noteq> []) (visit_step adj)
       (s\<lparr>dfs_stack := [(root, 0)], dfs_marks := (dfs_marks s)(root \<mapsto> InStack)\<rparr>)"

fun visit_all :: "adjacency \<Rightarrow> flow_config list \<Rightarrow> dfs \<Rightarrow> dfs option" where
  "visit_all adj [] s = Some s"
| "visit_all adj (f # flows) s =
     (if dfs_marks s (flow_alias f) = None
      then Option.bind (visit adj (flow_alias f) s) (visit_all adj flows) else visit_all adj flows s)"

definition detect_cycles :: "flow_config list \<Rightarrow> string list option" where
  "detect_cycles flows =
     map_option dfs_errors
       (visit_all (adjacency_of flows) flows \<lparr>dfs_stack = [], dfs_marks = Map.empty, dfs_errors = []\<rparr>)"

definition validate_flows :: "flow_config list \<Rightarrow> 'w plugin_registry \<Rightarrow> (string list + unit) option" where
  "validate_flows flows R =
     (let by_alias = flows_by_alias flows;
          errors = concat (map (\<lambda>f. check_stages by_alias R f @ check_duplicate_stage_ids f
            @ check_top_level_has_enabled_stage f) flows)
      in map_option (\<lambda>cycles. if errors @ cycles = [] then Inr () else Inl (errors @ cycles)) (detect_cycles flows))"

section \<open>The flows that pass\<close>

definition edges :: "adjacency \<Rightarrow> (string \<times> string) set" where
  "edges adj = {(a, b). b \<in> set (targets_of adj a)}"

lemma edges_iff: "(a, b) \<in> edges adj \<longleftrightarrow> b \<in> set (targets_of adj a)"
  by (simp add: edges_def)

text \<open>The path on the stack, and what has been searched.\<close>

definition on_stack :: "dfs \<Rightarrow> string set" where "on_stack s = fst ` set (dfs_stack s)"

definition finished :: "dfs \<Rightarrow> string set" where "finished s = {a. dfs_marks s a = Some DfsDone}"

fun searched :: "adjacency \<Rightarrow> string set \<Rightarrow> string option \<Rightarrow> (string \<times> nat) list \<Rightarrow> bool" where
  "searched adj D up [] = True"
| "searched adj D up ((a, n) # st) =
     (n \<le> length (targets_of adj a)
      \<and> (case up of
           None \<Rightarrow> set (take n (targets_of adj a)) \<subseteq> D
         | Some b \<Rightarrow> b \<in> set (targets_of adj a) \<and> set (take n (targets_of adj a)) \<subseteq> insert b D)
      \<and> searched adj D (Some a) st)"

fun stack_path :: "adjacency \<Rightarrow> (string \<times> nat) list \<Rightarrow> bool" where
  "stack_path adj ((a, n) # (b, m) # st) \<longleftrightarrow> (b, a) \<in> edges adj \<and> stack_path adj ((b, m) # st)"
| "stack_path adj st \<longleftrightarrow> True"

definition dfs_inv :: "adjacency \<Rightarrow> dfs \<Rightarrow> bool" where
  "dfs_inv adj s \<longleftrightarrow>
     distinct (map fst (dfs_stack s)) \<and> on_stack s = {a. dfs_marks s a = Some InStack} \<and> stack_path adj (dfs_stack s)
     \<and> (dfs_errors s \<noteq> [] \<longrightarrow> \<not> acyclic (edges adj))
     \<and> (dfs_errors s = [] \<longrightarrow>
          searched adj (finished s) None (dfs_stack s)
          \<and> (\<forall>a \<in> finished s. set (targets_of adj a) \<subseteq> finished s \<and> (a, a) \<notin> (edges adj)\<^sup>+))"

lemma stack_path_reaches:
  "stack_path adj ((a, n) # st) \<Longrightarrow> b \<in> fst ` set ((a, n) # st) \<Longrightarrow> (b, a) \<in> (edges adj)\<^sup>*"
proof (induction st arbitrary: a n)
  case (Cons x st)
  obtain c m where x: "x = (c, m)"
    by (cases x)
  show ?case
  proof (cases "b = a")
    case False
    then have "(b, c) \<in> (edges adj)\<^sup>*"
      using Cons.prems Cons.IH [of c m] by (auto simp: x)
    with Cons.prems(1) show ?thesis
      by (simp add: x rtrancl_into_rtrancl)
  qed simp
qed auto

lemma searched_mono: "searched adj D up st \<Longrightarrow> D \<subseteq> D' \<Longrightarrow> searched adj D' up st"
  by (induction adj D up st rule: searched.induct) (auto split: option.splits)

lemma closed_reach:
  assumes "(a, b) \<in> (edges adj)\<^sup>*" and "\<And>x. x \<in> D \<Longrightarrow> set (targets_of adj x) \<subseteq> D" and "a \<in> D"
  shows "b \<in> D"
  using assms(1,3) by (induction rule: rtrancl_induct) (use assms(2) in \<open>auto simp: edges_iff\<close>)

lemma finished_pop: "dfs_marks s' = (dfs_marks s)(a \<mapsto> DfsDone) \<Longrightarrow> finished s' = insert a (finished s)"
  by (auto simp: finished_def)

lemma take_next: "n < length xs \<Longrightarrow> set (take (Suc n) xs) = insert (xs ! n) (set (take n xs))"
  by (simp add: take_Suc_conv_app_nth)

lemma searched_below:
  "searched adj D (Some a) st \<Longrightarrow> searched adj (insert a D) None st"
  by (cases st) (auto intro: searched_mono)

lemma dfs_inv_errors:
  assumes "dfs_inv adj s" and "dfs_errors s \<noteq> []"
  shows "\<not> acyclic (edges adj)"
  using assms by (simp add: dfs_inv_def)

lemma visit_step_inv:
  assumes inv: "dfs_inv adj s" and stack: "dfs_stack s \<noteq> []"
  shows "dfs_inv adj (visit_step adj s)"
proof -
  obtain a n st where st: "dfs_stack s = (a, n) # st"
    using stack by (cases "dfs_stack s") auto
  let ?ts = "targets_of adj a"
  have dist: "a \<notin> fst ` set st" "distinct (map fst st)" and marks: "insert a (fst ` set st) = {x. dfs_marks s x = Some InStack}"
    and path: "stack_path adj ((a, n) # st)" and errs: "dfs_errors s \<noteq> [] \<Longrightarrow> \<not> acyclic (edges adj)"
    using inv by (auto simp: dfs_inv_def st on_stack_def)
  have ok: "searched adj (finished s) None ((a, n) # st)"
      "\<And>x. x \<in> finished s \<Longrightarrow> set (targets_of adj x) \<subseteq> finished s" "\<And>x. x \<in> finished s \<Longrightarrow> (x, x) \<notin> (edges adj)\<^sup>+"
    if "dfs_errors s = []"
    using inv that by (auto simp: dfs_inv_def st)
  have below: "stack_path adj st"
    using path by (cases st) auto
  have a: "dfs_marks s a = Some InStack"
    using marks by blast
  show ?thesis
  proof (cases "length ?ts \<le> n")
    case True
    let ?s' = "s\<lparr>dfs_stack := st, dfs_marks := (dfs_marks s)(a \<mapsto> DfsDone)\<rparr>"
    have step: "visit_step adj s = ?s'"
      using True by (simp add: visit_step_def st)
    have "(a, a) \<notin> (edges adj)\<^sup>+" if none: "dfs_errors s = []"
    proof
      assume "(a, a) \<in> (edges adj)\<^sup>+"
      then obtain b where b: "(a, b) \<in> edges adj" "(b, a) \<in> (edges adj)\<^sup>*"
        by (auto dest: tranclD)
      then have "b \<in> finished s"
        using ok(1) [OF none] True by (auto simp: edges_iff)
      from closed_reach [OF b(2) ok(2) [OF none] this] a show False
        by (simp add: finished_def)
    qed
    moreover have "on_stack ?s' = {x. dfs_marks ?s' x = Some InStack}"
      using marks dist(1) by (auto simp: on_stack_def)
    moreover have "searched adj (insert a (finished s)) None st" "set ?ts \<subseteq> finished s" if "dfs_errors s = []"
      using ok(1) [OF that] True by (auto intro: searched_below)
    ultimately show ?thesis
      unfolding step dfs_inv_def finished_pop [of ?s' s a, simplified]
      using dist(2) below errs ok(2,3) by auto
  next
    case False
    let ?t = "?ts ! n"
    have edge: "(a, ?t) \<in> edges adj"
      using False by (simp add: edges_iff)
    have path': "stack_path adj ((a, Suc n) # st)"
      using path by (cases st) auto
    have advance: "searched adj (finished s) None ((a, Suc n) # st)" if "?t \<in> finished s" "dfs_errors s = []"
      using ok(1) [OF that(2)] that(1) False by (simp add: take_next del: take_Suc_Cons)
    have push: "searched adj (finished s) None ((?t, 0) # (a, Suc n) # st)" if "dfs_errors s = []"
      using ok(1) [OF that] False edge by (auto simp: take_next edges_iff simp del: take_Suc_Cons)
    consider (grey) "dfs_marks s ?t = Some InStack" | (black) "dfs_marks s ?t = Some DfsDone" | (white) "dfs_marks s ?t = None"
      by (metis dfs_mark.exhaust not_None_eq)
    then show ?thesis
    proof cases
      case grey
      then have "?t \<in> fst ` set ((a, n) # st)"
        using marks by auto
      from stack_path_reaches [OF path this] edge have "(?t, ?t) \<in> (edges adj)\<^sup>+"
        by (rule rtrancl_into_trancl1)
      then have "\<not> acyclic (edges adj)"
        by (auto simp: acyclic_def)
      with False grey dist marks path' show ?thesis
        by (simp add: visit_step_def st Let_def dfs_inv_def on_stack_def finished_def)
    next
      case black
      then have "?t \<in> finished s"
        by (simp add: finished_def)
      with False black dist marks path' errs advance ok(2,3) show ?thesis
        by (simp add: visit_step_def st Let_def dfs_inv_def on_stack_def finished_def)
    next
      case white
      then have "?t \<notin> insert a (fst ` set st)"
        unfolding marks by simp
      then have "?t \<noteq> a" "?t \<notin> fst ` set st"
        by auto
      moreover have "finished (s\<lparr>dfs_stack := st', dfs_marks := (dfs_marks s)(?t \<mapsto> InStack)\<rparr>) = finished s" for st'
        using white by (auto simp: finished_def)
      moreover have "insert ?t (insert a (fst ` set st)) = {x. ((dfs_marks s)(?t \<mapsto> InStack)) x = Some InStack}"
        using marks by auto
      ultimately show ?thesis
        using False white dist edge path' errs push ok(2,3)
        by (simp add: visit_step_def st Let_def dfs_inv_def on_stack_def)
    qed
  qed
qed

section \<open>The search ends\<close>

definition nodes :: "adjacency \<Rightarrow> string set" where
  "nodes adj = (\<Union>a \<in> dom adj. set (targets_of adj a))"

lemma finite_nodes: "finite (dom adj) \<Longrightarrow> finite (nodes adj)"
  by (simp add: nodes_def)

lemma target_node: "b \<in> set (targets_of adj a) \<Longrightarrow> b \<in> nodes adj"
  by (cases "adj a") (auto simp: nodes_def targets_of_def intro!: bexI [of _ a])

definition work :: "adjacency \<Rightarrow> dfs \<Rightarrow> nat \<times> nat" where
  "work adj s =
     (card {a \<in> nodes adj. dfs_marks s a = None}, sum_list (map (\<lambda>(a, n). Suc (length (targets_of adj a) - n)) (dfs_stack s)))"

lemma visit_step_work:
  assumes "finite (dom adj)" and "dfs_stack s \<noteq> []" and "\<And>a. a \<in> on_stack s \<Longrightarrow> dfs_marks s a \<noteq> None"
  shows "(work adj (visit_step adj s), work adj s) \<in> less_than <*lex*> less_than"
proof -
  obtain a n st where st: "dfs_stack s = (a, n) # st"
    using assms(2) by (cases "dfs_stack s") auto
  let ?t = "targets_of adj a ! n" and ?free = "\<lambda>m. {x \<in> nodes adj. m x = None}"
  have a: "?free ((dfs_marks s)(a \<mapsto> k)) = ?free (dfs_marks s)" for k
    using assms(3) [of a] by (auto simp: on_stack_def st)
  show ?thesis
  proof (cases "length (targets_of adj a) \<le> n")
    case True
    then show ?thesis
      by (simp add: visit_step_def st work_def a del: fun_upd_apply)
  next
    case False
    have "card (?free ((dfs_marks s)(?t \<mapsto> InStack))) < card (?free (dfs_marks s))" if "dfs_marks s ?t = None"
    proof (rule psubset_card_mono)
      show "finite (?free (dfs_marks s))"
        using finite_nodes [OF assms(1)] by simp
      show "?free ((dfs_marks s)(?t \<mapsto> InStack)) \<subset> ?free (dfs_marks s)"
        using that target_node [of ?t adj a] False by auto
    qed
    moreover have "length (targets_of adj a) + k - Suc n < length (targets_of adj a) + k - n" for k
      using False by arith
    ultimately show ?thesis
      using False by (simp add: visit_step_def st work_def Let_def del: fun_upd_apply split: option.split dfs_mark.split)
  qed
qed

lemma dfs_inv_marked: "dfs_inv adj s \<Longrightarrow> a \<in> on_stack s \<Longrightarrow> dfs_marks s a \<noteq> None"
  by (auto simp: dfs_inv_def)

lemma visit_inv:
  assumes fin: "finite (dom adj)" and inv: "dfs_inv adj s" and stack: "dfs_stack s = []" and root: "dfs_marks s root = None"
  obtains s' where "visit adj root s = Some s'" and "dfs_inv adj s'" and "dfs_stack s' = []"
    and "finished s \<union> {root} \<subseteq> finished s'"
proof -
  let ?go = "\<lambda>s. dfs_stack s \<noteq> []"
  let ?start = "s\<lparr>dfs_stack := [(root, 0)], dfs_marks := (dfs_marks s)(root \<mapsto> InStack)\<rparr>"
  let ?P = "\<lambda>s'. dfs_inv adj s' \<and> finished s \<subseteq> finished s' \<and> dfs_marks s' root \<noteq> None"
  have "finished ?start = finished s"
    using root by (auto simp: finished_def)
  moreover have "{x. dfs_marks s x = Some InStack} = {}"
    using inv stack by (simp add: dfs_inv_def on_stack_def)
  ultimately have start: "?P ?start"
    using inv stack root by (auto simp: dfs_inv_def on_stack_def)
  have step: "?P (visit_step adj s1)" if "?P s1" "?go s1" for s1
  proof -
    have "finished s1 \<subseteq> finished (visit_step adj s1)" "dfs_marks (visit_step adj s1) root \<noteq> None"
      using that by (auto simp: visit_step_def finished_def Let_def dfs_inv_def on_stack_def
          split: list.splits option.splits dfs_mark.splits)
    with that visit_step_inv show ?thesis
      by blast
  qed
  have "wf {(t, s). (?P s \<and> ?go s) \<and> t = visit_step adj s}"
    by (rule wf_subset [OF wf_inv_image [OF wf_lex_prod [OF wf_less_than wf_less_than], of "work adj"]])
      (auto simp: visit_step_work [OF fin] dfs_inv_marked)
  then obtain s' where s': "while_option ?go (visit_step adj) ?start = Some s'"
    using wf_while_option_Some [of ?P ?go "visit_step adj" ?start] step start by blast
  from while_option_rule [of ?P, OF step s' start] have P: "?P s'"
    by blast
  have stop: "dfs_stack s' = []"
    using while_option_stop [OF s'] by simp
  then have "dfs_marks s' root = Some DfsDone"
    using P by (cases "dfs_marks s' root"; cases "the (dfs_marks s' root)") (auto simp: dfs_inv_def on_stack_def)
  with P stop s' show thesis
    by (intro that [of s']) (auto simp: visit_def finished_def)
qed

lemma visit_all_inv:
  assumes "finite (dom adj)" and "dfs_inv adj s" and "dfs_stack s = []"
  shows "\<exists>s'. visit_all adj flows s = Some s' \<and> dfs_inv adj s' \<and> dfs_stack s' = []
    \<and> finished s \<union> flow_alias ` set flows \<subseteq> finished s'"
  using assms(2,3)
proof (induction flows arbitrary: s)
  case (Cons f flows)
  show ?case
  proof (cases "dfs_marks s (flow_alias f)")
    case None
    then obtain s1 where s1: "visit adj (flow_alias f) s = Some s1" "dfs_inv adj s1" "dfs_stack s1 = []"
        "finished s \<union> {flow_alias f} \<subseteq> finished s1"
      using visit_inv [OF assms(1) Cons.prems] by blast
    from Cons.IH [OF this(2,3)] s1 None show ?thesis
      by auto
  next
    case (Some k)
    moreover have "k \<noteq> InStack"
      using Some Cons.prems by (auto simp: dfs_inv_def on_stack_def)
    ultimately have "flow_alias f \<in> finished s"
      by (cases k) (simp_all add: finished_def)
    with Cons.IH [OF Cons.prems] Some show ?thesis
      by auto
  qed
qed auto

section \<open>What the validation accepts\<close>

lemma fold_upd_dom: "dom (fold (\<lambda>f m. m(key f \<mapsto> val f)) xs m) = dom m \<union> key ` set xs"
  by (induction xs arbitrary: m) auto

lemma fold_upd_cases:
  "fold (\<lambda>f m. m(key f \<mapsto> val f)) xs m k = Some v \<Longrightarrow> m k = Some v \<or> (\<exists>f \<in> set xs. key f = k \<and> val f = v)"
  by (induction xs arbitrary: m) (fastforce split: if_splits)+

lemma fold_upd_map:
  "fold (\<lambda>f m. m(key f \<mapsto> val f)) xs (map_option val \<circ> m) = map_option val \<circ> fold (\<lambda>f m. m(key f \<mapsto> f)) xs m"
proof (induction xs arbitrary: m)
  case (Cons x xs)
  have eq: "(map_option val \<circ> m)(key x \<mapsto> val x) = map_option val \<circ> m(key x \<mapsto> x)"
    by auto
  show ?case
    by (simp only: fold_simps eq Cons.IH)
qed simp

text \<open>The sub-flows a flow refers to; a later flow of the same alias replaces an earlier one.\<close>

definition sub_flow_edges :: "flow_config list \<Rightarrow> (string \<times> string) set" where
  "sub_flow_edges flows =
     {(a, b). \<exists>f. flows_by_alias flows a = Some f \<and> Some b \<in> stage_sub_flow_alias ` set (flow_stages f)
        \<and> flows_by_alias flows b \<noteq> None}"

definition flows_valid :: "flow_config list \<Rightarrow> 'w plugin_registry \<Rightarrow> bool" where
  "flows_valid flows R \<longleftrightarrow>
     (\<forall>f \<in> set flows. \<forall>s \<in> set (flow_stages f).
        case stage_sub_flow_alias s of
          Some alias \<Rightarrow> alias \<in> flow_alias ` set flows
        | None \<Rightarrow> pr_ready R (stage_authenticator s) \<and> (\<exists>a. pr_authenticator R (stage_authenticator s) = Inr (Some a)))
     \<and> (\<forall>f \<in> set flows. distinct (map stage_id (flow_stages f)))
     \<and> (\<forall>f \<in> set flows. flow_top_level f \<longrightarrow> flow_stages f = [] \<or> (\<exists>s \<in> set (flow_stages f). stage_requirement s \<noteq> Disabled))
     \<and> acyclic (sub_flow_edges flows)"

lemma flows_by_alias_None_iff: "flows_by_alias flows a = None \<longleftrightarrow> a \<notin> flow_alias ` set flows"
  using fold_upd_dom [of flow_alias "\<lambda>f. f" flows Map.empty] by (auto simp: flows_by_alias_def domIff)

lemma flows_by_alias_Some: "flows_by_alias flows a = Some f \<Longrightarrow> f \<in> set flows \<and> flow_alias f = a"
  using fold_upd_cases [of flow_alias "\<lambda>f. f" flows Map.empty a f] by (auto simp: flows_by_alias_def)

lemma targets_adjacency:
  "targets_of (adjacency_of flows) a =
     (case flows_by_alias flows a of
        None \<Rightarrow> []
      | Some f \<Rightarrow> filter (\<lambda>a. flows_by_alias flows a \<noteq> None) (List.map_filter stage_sub_flow_alias (flow_stages f)))"
proof -
  have "adjacency_of flows =
      map_option (\<lambda>f. filter (\<lambda>a. flows_by_alias flows a \<noteq> None) (List.map_filter stage_sub_flow_alias (flow_stages f)))
        \<circ> flows_by_alias flows"
    unfolding adjacency_of_def Let_def flows_by_alias_def by (subst fold_upd_map [symmetric]) (simp add: comp_def)
  then show ?thesis
    by (simp add: targets_of_def split: option.split)
qed

lemma set_mapped: "set (List.map_filter f xs) = {y. \<exists>x \<in> set xs. f x = Some y}"
  by (force simp: List.map_filter_def)

lemma edges_adjacency: "edges (adjacency_of flows) = sub_flow_edges flows"
proof -
  have "(a, b) \<in> edges (adjacency_of flows) \<longleftrightarrow> (a, b) \<in> sub_flow_edges flows" for a b
    by (cases "flows_by_alias flows a")
      (auto simp: edges_iff sub_flow_edges_def targets_adjacency set_mapped image_iff eq_commute [of "Some b"])
  then show ?thesis
    by auto
qed

lemma detect_cycles_correct: "\<exists>errs. detect_cycles flows = Some errs \<and> (errs = [] \<longleftrightarrow> acyclic (sub_flow_edges flows))"
proof -
  let ?adj = "adjacency_of flows" and ?s = "\<lparr>dfs_stack = [], dfs_marks = Map.empty, dfs_errors = []\<rparr>"
  have fin: "finite (dom ?adj)"
    by (simp add: adjacency_of_def Let_def fold_upd_dom)
  have "dfs_inv ?adj ?s"
    by (simp add: dfs_inv_def on_stack_def finished_def)
  from visit_all_inv [OF fin this, of flows] obtain s' where s': "visit_all ?adj flows ?s = Some s'"
    and inv: "dfs_inv ?adj s'" and all: "flow_alias ` set flows \<subseteq> finished s'"
    by auto
  have "acyclic (edges ?adj)" if "dfs_errors s' = []"
    unfolding acyclic_def
  proof (intro allI notI)
    fix x
    assume cycle: "(x, x) \<in> (edges ?adj)\<^sup>+"
    then obtain y where "(x, y) \<in> edges ?adj"
      by (auto dest: tranclD)
    then have "x \<in> flow_alias ` set flows"
      using flows_by_alias_Some [of flows x] by (fastforce simp: edges_adjacency sub_flow_edges_def)
    with all inv that cycle show False
      by (auto simp: dfs_inv_def)
  qed
  then show ?thesis
    using inv s' by (auto simp: detect_cycles_def dfs_inv_def edges_adjacency)
qed

lemma duplicate_ids_Nil: "duplicate_ids flow seen stages = [] \<longleftrightarrow> distinct (map stage_id stages) \<and> seen \<inter> stage_id ` set stages = {}"
  by (induction stages arbitrary: seen) auto

lemma stage_errors_Nil:
  "stage_errors (flows_by_alias flows) R flow s = [] \<longleftrightarrow>
     (case stage_sub_flow_alias s of
        Some alias \<Rightarrow> alias \<in> flow_alias ` set flows
      | None \<Rightarrow> pr_ready R (stage_authenticator s) \<and> (\<exists>a. pr_authenticator R (stage_authenticator s) = Inr (Some a)))"
  by (auto simp: stage_errors_def Let_def authenticator_exists_def flows_by_alias_None_iff Option.is_none_def
      split: option.splits sum.splits bool.splits)

lemma validate_flows_valid:
  "\<exists>r. validate_flows flows R = Some r \<and> (r = Inr () \<longleftrightarrow> flows_valid flows R)"
proof -
  obtain cycles where cycles: "detect_cycles flows = Some cycles" "cycles = [] \<longleftrightarrow> acyclic (sub_flow_edges flows)"
    using detect_cycles_correct by blast
  have "check_stages (flows_by_alias flows) R f = [] \<longleftrightarrow> (\<forall>s \<in> set (flow_stages f). stage_errors (flows_by_alias flows) R f s = [])" for f
    by (auto simp: check_stages_def)
  moreover have "check_top_level_has_enabled_stage f = [] \<longleftrightarrow>
      (flow_top_level f \<longrightarrow> flow_stages f = [] \<or> (\<exists>s \<in> set (flow_stages f). stage_requirement s \<noteq> Disabled))" for f
    by (auto simp: check_top_level_has_enabled_stage_def list_all_iff)
  moreover have "check_duplicate_stage_ids f = [] \<longleftrightarrow> distinct (map stage_id (flow_stages f))" for f
    by (simp add: check_duplicate_stage_ids_def duplicate_ids_Nil)
  ultimately show ?thesis
    using cycles by (auto simp: validate_flows_def Let_def flows_valid_def stage_errors_Nil)
qed

text \<open>(C36) The validation always returns, and accepts a set of flows exactly when every stage resolves, stage
  ids are unique in each flow, each top-level flow that has stages has an enabled one, and no flow
  contains itself through its sub-flows.\<close>

theorem validate_flows_decides:
  "\<exists>r. validate_flows flows R = Some r \<and> (r = Inr () \<longleftrightarrow> flows_valid flows R)"
  by (rule validate_flows_valid)

end
