(* ===== verification/Builtin_Flows.thy ===== *)
theory Builtin_Flows
  imports Entities
begin

text \<open>
  The authentication flows every realm is born with, \<^verbatim>\<open>issuerd-core/src/flows.rs\<close>.
\<close>

definition flat_stage :: "string \<Rightarrow> requirement \<Rightarrow> string \<Rightarrow> int \<Rightarrow> flow_stage" where
  "flat_stage sid req auth priority =
     \<lparr>stage_id = sid, stage_requirement = req, stage_authenticator = auth, stage_priority = priority,
      stage_sub_flow_alias = None, stage_config = None\<rparr>"

definition default_browser_flow :: "string \<Rightarrow> flow_config" where
  "default_browser_flow realm_id =
     \<lparr>flow_alias = ''browser'', flow_realm_id = realm_id, flow_provider_id = ''basic-flow'',
      flow_top_level = True, flow_built_in = True,
      flow_stages =
        [flat_stage ''cookie-auth'' Alternative ''auth-cookie'' 1,
         flat_stage ''auth-spnego'' Alternative ''auth-spnego'' 2,
         flat_stage ''idp-redirect'' Alternative ''auth-idp-redirect'' 3,
         flat_stage ''username-password'' Alternative ''auth-username-password'' 4,
         flat_stage ''conditional-user-configured'' Conditional ''conditional-user-configured'' 5,
         flat_stage ''auth-otp-form'' Conditional ''auth-otp-form'' 6,
         flat_stage ''auth-webauthn'' OptionalReq ''auth-webauthn'' 7]\<rparr>"

definition registration_flow :: "string \<Rightarrow> flow_config" where
  "registration_flow realm_id =
     \<lparr>flow_alias = ''registration'', flow_realm_id = realm_id, flow_provider_id = ''basic-flow'',
      flow_top_level = True, flow_built_in = True,
      flow_stages = [flat_stage ''registration'' Required ''auth-registration'' 1]\<rparr>"

lemma flat_stage_simps [simp]:
  "stage_id (flat_stage sid req auth priority) = sid"
  "stage_requirement (flat_stage sid req auth priority) = req"
  "stage_authenticator (flat_stage sid req auth priority) = auth"
  "stage_sub_flow_alias (flat_stage sid req auth priority) = None"
  by (simp_all add: flat_stage_def)

end
