(* ===== verification/Memory_Store.thy ===== *)
theory Memory_Store
  imports Directory Second_Factor Builtin_Flows
begin

text \<open>
  The in-memory storage, \<^verbatim>\<open>issuerd-storage/src/memory.rs\<close>: realms, users, clients, sessions,
  consents, identity providers with their account links and flows, on top of the directory and
  the credentials; and the seeding of new realms and clients (\<^verbatim>\<open>issuerd-storage/src/seed.rs\<close>).
  Deletions cascade.  Every mutating method holds the mutation lock to its end.  The conversion
  of text to lower case follows the Unicode tables and is a parameter.
\<close>

section \<open>State\<close>

record identity_provider_link =
  ipl_user_id :: string
  ipl_provider_alias :: string
  ipl_external_subject :: string
  ipl_external_username :: "string option"
  ipl_stored_refresh_token :: "string option"
  ipl_created_at :: timestamp

record memory_store =
  ms_realms :: "(string \<times> realm) list"
  ms_users :: "((string \<times> string) \<times> user) list"
  ms_clients :: "((string \<times> string) \<times> client) list"
  ms_credentials :: credentials
  ms_sessions :: "((string \<times> string) \<times> user_session) list"
  ms_consents :: "((string \<times> string \<times> string) \<times> consent) list"
  ms_identity_providers :: "((string \<times> string) \<times> identity_provider_config) list"
  ms_links :: "((string \<times> string \<times> string) \<times> identity_provider_link) list"
  ms_flow_configs :: "((string \<times> string) \<times> flow_config) list"
  ms_directory :: directory

definition memory_store_new :: memory_store where
  "memory_store_new =
     \<lparr>ms_realms = [], ms_users = [], ms_clients = [], ms_credentials = Map.empty, ms_sessions = [],
      ms_consents = [], ms_identity_providers = [], ms_links = [], ms_flow_configs = [],
      ms_directory = directory_new\<rparr>"

text \<open>\<open>retain\<close> of a map the code iterates over and of one it only looks up.\<close>

definition retain_rows :: "('k \<Rightarrow> 'v \<Rightarrow> bool) \<Rightarrow> ('k \<times> 'v) list \<Rightarrow> ('k \<times> 'v) list" where
  "retain_rows P rows = filter (\<lambda>(k, v). P k v) rows"

definition retain_map :: "('k \<Rightarrow> bool) \<Rightarrow> ('k \<Rightarrow> 'v option) \<Rightarrow> 'k \<Rightarrow> 'v option" where
  "retain_map P m k = (if P k then m k else None)"

section \<open>Users\<close>

definition get_user :: "memory_store \<Rightarrow> string \<Rightarrow> string \<Rightarrow> user option" where
  "get_user m realm i = map_of (ms_users m) (realm, i)"

definition get_user_by_username :: "memory_store \<Rightarrow> string \<Rightarrow> string \<Rightarrow> user option" where
  "get_user_by_username m realm username =
     find (\<lambda>u. usr_realm_id u = realm \<and> usr_username u = username) (map snd (ms_users m))"

definition get_user_by_email :: "memory_store \<Rightarrow> string \<Rightarrow> string \<Rightarrow> user option" where
  "get_user_by_email m realm email =
     find (\<lambda>u. usr_realm_id u = realm \<and> usr_email u = Some email) (map snd (ms_users m))"

definition get_user_by_federation_link :: "memory_store \<Rightarrow> string \<Rightarrow> string \<Rightarrow> user list" where
  "get_user_by_federation_link m realm link =
     filter (\<lambda>u. usr_realm_id u = realm \<and> usr_federation_link u = Some link) (map snd (ms_users m))"

definition user_matches :: "(string \<Rightarrow> string) \<Rightarrow> string \<Rightarrow> string \<Rightarrow> user \<Rightarrow> bool" where
  "user_matches lower realm query u \<longleftrightarrow>
     usr_realm_id u = realm
     \<and> (lower query = [] \<or> str_contains (lower (usr_username u)) (lower query)
        \<or> (case usr_email u of Some e \<Rightarrow> str_contains (lower e) (lower query) | None \<Rightarrow> False))"

definition list_users :: "(string \<Rightarrow> string) \<Rightarrow> memory_store \<Rightarrow> string \<Rightarrow> string \<Rightarrow> pagination \<Rightarrow> user list" where
  "list_users lower m realm query pg =
     page pg (sort_key usr_username (filter (user_matches lower realm query) (map snd (ms_users m))))"

definition count_users :: "(string \<Rightarrow> string) \<Rightarrow> memory_store \<Rightarrow> string \<Rightarrow> string \<Rightarrow> int" where
  "count_users lower m realm query =
     int (length (filter (user_matches lower realm query) (map snd (ms_users m))))"

definition create_user :: "memory_store \<Rightarrow> string \<Rightarrow> user \<Rightarrow> issuerd_error + memory_store" where
  "create_user m realm user =
     (if list_ex (\<lambda>u. usr_realm_id u = realm \<and> usr_username u = usr_username user) (map snd (ms_users m))
      then Inl (InvalidRequest ''username already exists in realm'')
      else Inr (m\<lparr>ms_users := AList.update (realm, usr_id user)
             (user\<lparr>usr_updated_at := usr_created_at user\<rparr>) (ms_users m)\<rparr>))"

definition update_user :: "memory_store \<Rightarrow> nat \<Rightarrow> string \<Rightarrow> user \<Rightarrow> issuerd_error + memory_store" where
  "update_user m now realm user =
     (if map_of (ms_users m) (realm, usr_id user) = None then Inl NotFound
      else Inr (m\<lparr>ms_users := AList.update (realm, usr_id user)
             (user\<lparr>usr_updated_at := utc now\<rparr>) (ms_users m)\<rparr>))"

definition delete_user :: "memory_store \<Rightarrow> string \<Rightarrow> string \<Rightarrow> memory_store" where
  "delete_user m realm i =
     m\<lparr>ms_users := AList.delete (realm, i) (ms_users m),
       ms_credentials := retain_map (\<lambda>(r, u, ty). r \<noteq> realm \<or> u \<noteq> i) (ms_credentials m),
       ms_sessions := retain_rows (\<lambda>k v. fst k \<noteq> realm \<or> us_user_id v \<noteq> i) (ms_sessions m),
       ms_consents := retain_rows (\<lambda>k v. fst k \<noteq> realm \<or> fst (snd k) \<noteq> i) (ms_consents m),
       ms_links := retain_rows (\<lambda>k v. fst k \<noteq> realm \<or> ipl_user_id v \<noteq> i) (ms_links m),
       ms_directory := (ms_directory m)
         \<lparr>md_user_realm_roles := (md_user_realm_roles (ms_directory m))((realm, i) := None),
          md_user_client_roles := (md_user_client_roles (ms_directory m))((realm, i) := None),
          md_user_groups := (md_user_groups (ms_directory m))((realm, i) := None)\<rparr>\<rparr>"

section \<open>Clients\<close>

definition get_client :: "memory_store \<Rightarrow> string \<Rightarrow> string \<Rightarrow> client option" where
  "get_client m realm i = map_of (ms_clients m) (realm, i)"

definition get_client_by_client_id :: "memory_store \<Rightarrow> string \<Rightarrow> string \<Rightarrow> client option" where
  "get_client_by_client_id m realm client_id =
     find (\<lambda>c. cli_realm_id c = realm \<and> cli_client_id c = client_id) (map snd (ms_clients m))"

definition list_clients :: "memory_store \<Rightarrow> string \<Rightarrow> pagination \<Rightarrow> client list" where
  "list_clients m realm pg =
     page pg (sort_key cli_client_id (filter (\<lambda>c. cli_realm_id c = realm) (map snd (ms_clients m))))"

definition count_clients :: "memory_store \<Rightarrow> string \<Rightarrow> int" where
  "count_clients m realm = int (length (filter (\<lambda>c. cli_realm_id c = realm) (map snd (ms_clients m))))"

definition ALL_ROWS :: pagination where "ALL_ROWS = \<lparr>pg_first = 0, pg_max = 2147483647\<rparr>"

definition assign_listed_scope :: "string \<Rightarrow> client \<Rightarrow> client_scope \<Rightarrow> directory \<Rightarrow> directory" where
  "assign_listed_scope realm client s d =
     (if scope_contains (cli_default_scopes client) (csc_name s)
      then assign_client_scope d realm (cli_id client) (csc_id s) True
      else if scope_contains (cli_optional_scopes client) (csc_name s)
      then assign_client_scope d realm (cli_id client) (csc_id s) False
      else d)"

definition seed_client_scope_assignments :: "directory \<Rightarrow> string \<Rightarrow> client \<Rightarrow> directory" where
  "seed_client_scope_assignments d realm client =
     (let scopes = list_client_scopes d realm ALL_ROWS;
          d1 = fold (assign_listed_scope realm client) scopes d
      in case find (\<lambda>s. csc_name s = ''roles'') scopes of
           None \<Rightarrow> d1
         | Some roles \<Rightarrow>
             if list_ex (\<lambda>(i, _). i = csc_id roles) (list_client_scope_assignments d1 realm (cli_id client)) then d1
             else assign_client_scope d1 realm (cli_id client) (csc_id roles) True)"

definition create_client :: "memory_store \<Rightarrow> string \<Rightarrow> client \<Rightarrow> issuerd_error + memory_store" where
  "create_client m realm client =
     (if list_ex (\<lambda>c. cli_realm_id c = realm \<and> cli_client_id c = cli_client_id client) (map snd (ms_clients m))
      then Inl (InvalidRequest ''client_id already exists in realm'')
      else Inr (m\<lparr>ms_clients := AList.update (realm, cli_id client) client (ms_clients m),
             ms_directory := seed_client_scope_assignments (ms_directory m) realm client\<rparr>))"

definition update_client :: "memory_store \<Rightarrow> string \<Rightarrow> client \<Rightarrow> issuerd_error + memory_store" where
  "update_client m realm client =
     (if map_of (ms_clients m) (realm, cli_id client) = None then Inl NotFound
      else Inr (m\<lparr>ms_clients := AList.update (realm, cli_id client) client (ms_clients m)\<rparr>))"

text \<open>Removing role identifiers from the lists of every user of a realm.\<close>

definition strip_roles ::
    "string \<Rightarrow> string list \<Rightarrow> (string \<times> string \<Rightarrow> string list option) \<Rightarrow> string \<times> string \<Rightarrow> string list option" where
  "strip_roles realm ids m k =
     (if fst k = realm then map_option (filter (\<lambda>r. r \<notin> set ids)) (m k) else m k)"

definition delete_client :: "memory_store \<Rightarrow> string \<Rightarrow> string \<Rightarrow> memory_store" where
  "delete_client m realm i =
     (let d = ms_directory m;
          role_ids = map (role_id \<circ> snd)
            (filter (\<lambda>(k, r). fst k = realm \<and> role_client_id r = Some i) (md_roles d))
      in m\<lparr>ms_clients := AList.delete (realm, i) (ms_clients m),
           ms_directory := d
             \<lparr>md_scope_assignments := (md_scope_assignments d)((realm, i) := None),
              md_roles := retain_rows (\<lambda>k r. \<not> (fst k = realm \<and> snd k \<in> set role_ids)) (md_roles d),
              md_user_realm_roles := strip_roles realm role_ids (md_user_realm_roles d),
              md_user_client_roles := strip_roles realm role_ids (md_user_client_roles d)\<rparr>\<rparr>)"

section \<open>Sessions and consents\<close>

definition find_user_session :: "memory_store \<Rightarrow> string \<Rightarrow> string \<Rightarrow> user_session option" where
  "find_user_session m realm i = map_of (ms_sessions m) (realm, i)"

definition session_of :: "string \<Rightarrow> string option \<Rightarrow> user_session \<Rightarrow> bool" where
  "session_of realm user s \<longleftrightarrow>
     us_realm_id s = realm \<and> (case user of None \<Rightarrow> True | Some u \<Rightarrow> us_user_id s = u)"

text \<open>Sorted by the latest refresh first.\<close>

definition list_sessions :: "memory_store \<Rightarrow> string \<Rightarrow> string option \<Rightarrow> pagination \<Rightarrow> user_session list" where
  "list_sessions m realm user pg =
     page pg (sort_key (\<lambda>s. - us_last_session_refresh s) (filter (session_of realm user) (map snd (ms_sessions m))))"

definition count_sessions :: "memory_store \<Rightarrow> string \<Rightarrow> string option \<Rightarrow> int" where
  "count_sessions m realm user = int (length (filter (session_of realm user) (map snd (ms_sessions m))))"

definition insert_user_session :: "memory_store \<Rightarrow> string \<Rightarrow> user_session \<Rightarrow> memory_store" where
  "insert_user_session m realm session =
     m\<lparr>ms_sessions := AList.update (realm, us_id session) session (ms_sessions m)\<rparr>"

definition replace_user_session :: "memory_store \<Rightarrow> string \<Rightarrow> user_session \<Rightarrow> issuerd_error + memory_store" where
  "replace_user_session m realm session =
     (if map_of (ms_sessions m) (realm, us_id session) = None then Inl NotFound
      else Inr (m\<lparr>ms_sessions := AList.update (realm, us_id session) session (ms_sessions m)\<rparr>))"

definition remove_user_session :: "memory_store \<Rightarrow> string \<Rightarrow> string \<Rightarrow> memory_store" where
  "remove_user_session m realm i = m\<lparr>ms_sessions := AList.delete (realm, i) (ms_sessions m)\<rparr>"

definition get_consents :: "memory_store \<Rightarrow> string \<Rightarrow> string \<Rightarrow> consent list" where
  "get_consents m realm user =
     map snd (filter (\<lambda>(k, _). fst k = realm \<and> fst (snd k) = user) (ms_consents m))"

definition create_consent :: "memory_store \<Rightarrow> string \<Rightarrow> consent \<Rightarrow> memory_store" where
  "create_consent m realm consent =
     m\<lparr>ms_consents := AList.update (realm, cons_user_id consent, cons_client_id consent) consent (ms_consents m)\<rparr>"

definition delete_consent :: "memory_store \<Rightarrow> string \<Rightarrow> string \<Rightarrow> string \<Rightarrow> memory_store" where
  "delete_consent m realm user client_id =
     m\<lparr>ms_consents := AList.delete (realm, user, client_id) (ms_consents m)\<rparr>"

section \<open>Identity providers and account links\<close>

definition get_identity_provider :: "memory_store \<Rightarrow> string \<Rightarrow> string \<Rightarrow> identity_provider_config option" where
  "get_identity_provider m realm i = map_of (ms_identity_providers m) (realm, i)"

definition get_identity_provider_by_alias :: "memory_store \<Rightarrow> string \<Rightarrow> string \<Rightarrow> identity_provider_config option" where
  "get_identity_provider_by_alias m realm al =
     map_option snd (find (\<lambda>(k, p). fst k = realm \<and> idp_alias p = al) (ms_identity_providers m))"

definition list_identity_providers :: "memory_store \<Rightarrow> string \<Rightarrow> identity_provider_config list" where
  "list_identity_providers m realm = map snd (filter (\<lambda>(k, _). fst k = realm) (ms_identity_providers m))"

definition create_identity_provider :: "memory_store \<Rightarrow> string \<Rightarrow> identity_provider_config \<Rightarrow> memory_store" where
  "create_identity_provider m realm idp =
     m\<lparr>ms_identity_providers := AList.update (realm, idp_id idp) idp (ms_identity_providers m)\<rparr>"

definition update_identity_provider ::
    "memory_store \<Rightarrow> string \<Rightarrow> identity_provider_config \<Rightarrow> issuerd_error + memory_store" where
  "update_identity_provider m realm idp =
     (if map_of (ms_identity_providers m) (realm, idp_id idp) = None then Inl NotFound
      else Inr (m\<lparr>ms_identity_providers := AList.update (realm, idp_id idp) idp (ms_identity_providers m)\<rparr>))"

definition delete_identity_provider :: "memory_store \<Rightarrow> string \<Rightarrow> string \<Rightarrow> memory_store" where
  "delete_identity_provider m realm i =
     (let m1 = (case map_of (ms_identity_providers m) (realm, i) of
            None \<Rightarrow> m
          | Some idp \<Rightarrow> m\<lparr>ms_links := retain_rows (\<lambda>k _. fst k \<noteq> realm \<or> fst (snd k) \<noteq> idp_alias idp) (ms_links m)\<rparr>)
      in m1\<lparr>ms_identity_providers := AList.delete (realm, i) (ms_identity_providers m1)\<rparr>)"

definition get_identity_provider_link ::
    "memory_store \<Rightarrow> string \<Rightarrow> string \<Rightarrow> string \<Rightarrow> identity_provider_link option" where
  "get_identity_provider_link m realm al external_subject = map_of (ms_links m) (realm, al, external_subject)"

definition get_identity_provider_link_for_user ::
    "memory_store \<Rightarrow> string \<Rightarrow> string \<Rightarrow> string \<Rightarrow> identity_provider_link option" where
  "get_identity_provider_link_for_user m realm user al =
     map_option snd (find (\<lambda>(k, l). fst k = realm \<and> fst (snd k) = al \<and> ipl_user_id l = user) (ms_links m))"

definition list_identity_provider_links :: "memory_store \<Rightarrow> string \<Rightarrow> string \<Rightarrow> identity_provider_link list" where
  "list_identity_provider_links m realm user =
     map snd (filter (\<lambda>(k, l). fst k = realm \<and> ipl_user_id l = user) (ms_links m))"

definition create_identity_provider_link ::
    "memory_store \<Rightarrow> string \<Rightarrow> identity_provider_link \<Rightarrow> issuerd_error + memory_store" where
  "create_identity_provider_link m realm link =
     (if list_ex (\<lambda>(k, l). fst k = realm \<and> fst (snd k) = ipl_provider_alias link
          \<and> (snd (snd k) = ipl_external_subject link \<or> ipl_user_id l = ipl_user_id link)) (ms_links m)
      then Inl Conflict
      else Inr (m\<lparr>ms_links := AList.update (realm, ipl_provider_alias link, ipl_external_subject link) link (ms_links m)\<rparr>))"

definition delete_identity_provider_link :: "memory_store \<Rightarrow> string \<Rightarrow> string \<Rightarrow> string \<Rightarrow> memory_store" where
  "delete_identity_provider_link m realm user al =
     m\<lparr>ms_links := retain_rows (\<lambda>k l. \<not> (fst k = realm \<and> fst (snd k) = al \<and> ipl_user_id l = user)) (ms_links m)\<rparr>"

section \<open>Flows\<close>

definition get_flow_config :: "memory_store \<Rightarrow> string \<Rightarrow> string \<Rightarrow> issuerd_error + flow_config option" where
  "get_flow_config m realm al =
     and_then (alias_new al) (\<lambda>a. Inr (map_of (ms_flow_configs m) (realm, a)))"

definition create_flow_config :: "memory_store \<Rightarrow> string \<Rightarrow> flow_config \<Rightarrow> memory_store" where
  "create_flow_config m realm config =
     m\<lparr>ms_flow_configs := AList.update (realm, flow_alias config) config (ms_flow_configs m)\<rparr>"

definition update_flow_config :: "memory_store \<Rightarrow> string \<Rightarrow> flow_config \<Rightarrow> issuerd_error + memory_store" where
  "update_flow_config m realm config =
     (if map_of (ms_flow_configs m) (realm, flow_alias config) = None then Inl NotFound
      else Inr (m\<lparr>ms_flow_configs := AList.update (realm, flow_alias config) config (ms_flow_configs m)\<rparr>))"

text \<open>\<open>None\<close> is the panic on a text that is no alias.\<close>

definition delete_flow_config :: "memory_store \<Rightarrow> string \<Rightarrow> string \<Rightarrow> memory_store option" where
  "delete_flow_config m realm al =
     (case alias_new al of
        Inl _ \<Rightarrow> None
      | Inr a \<Rightarrow> Some (m\<lparr>ms_flow_configs := AList.delete (realm, a) (ms_flow_configs m)\<rparr>))"

definition list_flow_configs :: "memory_store \<Rightarrow> string \<Rightarrow> flow_config list" where
  "list_flow_configs m realm =
     sort_key flow_alias (map snd (filter (\<lambda>(k, _). fst k = realm) (ms_flow_configs m)))"

section \<open>Realms\<close>

definition get_realm :: "memory_store \<Rightarrow> string \<Rightarrow> realm option" where
  "get_realm m i = map_of (ms_realms m) i"

definition get_realm_by_name :: "memory_store \<Rightarrow> string \<Rightarrow> realm option" where
  "get_realm_by_name m name = find (\<lambda>r. rlm_name r = name) (map snd (ms_realms m))"

definition list_realms :: "memory_store \<Rightarrow> pagination \<Rightarrow> realm list" where
  "list_realms m pg = page pg (sort_key rlm_name (map snd (ms_realms m)))"

definition count_realms :: "memory_store \<Rightarrow> int" where
  "count_realms m = int (length (ms_realms m))"

definition ensure_realm_pairwise_sector_key :: "string \<Rightarrow> string \<Rightarrow> realm \<Rightarrow> realm" where
  "ensure_realm_pairwise_sector_key id1 id2 realm =
     (case rlm_attributes realm ''pairwise_sector_key'' of
        Some _ \<Rightarrow> realm
      | None \<Rightarrow> realm\<lparr>rlm_attributes := (rlm_attributes realm)(''pairwise_sector_key'' \<mapsto> id1 @ id2)\<rparr>)"

text \<open>The seeding of a new realm; only a conflict is tolerated.\<close>

fun create_missing_scopes :: "string \<Rightarrow> client_scope list \<Rightarrow> client_scope list \<Rightarrow> directory \<Rightarrow> issuerd_error + directory" where
  "create_missing_scopes realm existing [] d = Inr d"
| "create_missing_scopes realm existing (s # ss) d =
     (if list_ex (\<lambda>e. csc_name e = csc_name s) existing then create_missing_scopes realm existing ss d
      else (case create_client_scope d realm s of
         Inr d' \<Rightarrow> create_missing_scopes realm existing ss d'
       | Inl e \<Rightarrow> if e = Conflict then create_missing_scopes realm existing ss d else Inl e))"

definition add_realm_default :: "string \<Rightarrow> client_scope list \<Rightarrow> bool \<Rightarrow> string \<Rightarrow> directory \<Rightarrow> directory" where
  "add_realm_default realm scopes is_default name d =
     (case find (\<lambda>s. csc_name s = name) scopes of
        Some s \<Rightarrow> add_realm_default_client_scope d realm (csc_id s) is_default
      | None \<Rightarrow> d)"

definition seed_builtin_client_scopes :: "(nat \<Rightarrow> string) \<Rightarrow> string \<Rightarrow> directory \<Rightarrow> issuerd_error + directory" where
  "seed_builtin_client_scopes ids realm d =
     and_then (create_missing_scopes realm (list_client_scopes d realm ALL_ROWS) (builtin_client_scopes ids realm) d)
       (\<lambda>d1. let scopes = list_client_scopes d1 realm ALL_ROWS in
          Inr (fold (add_realm_default realm scopes False) DEFAULT_OPTIONAL_SCOPES
                (fold (add_realm_default realm scopes True) DEFAULT_DEFAULT_SCOPES d1)))"

definition seed_flow :: "string \<Rightarrow> flow_config \<Rightarrow> memory_store \<Rightarrow> issuerd_error + memory_store" where
  "seed_flow realm flow m =
     and_then (get_flow_config m realm (flow_alias flow)) (\<lambda>f.
       Inr (if f = None then create_flow_config m realm flow else m))"

definition seed_builtin_flows :: "string \<Rightarrow> memory_store \<Rightarrow> issuerd_error + memory_store" where
  "seed_builtin_flows realm m =
     and_then (seed_flow realm (default_browser_flow realm) m) (seed_flow realm (registration_flow realm))"

text \<open>A failing seed leaves what was written before it.\<close>

definition create_realm :: "memory_store \<Rightarrow> (nat \<Rightarrow> string) \<Rightarrow> realm \<Rightarrow> (issuerd_error + unit) \<times> memory_store" where
  "create_realm m ids realm =
     (if list_ex (\<lambda>r. rlm_name r = rlm_name realm \<and> rlm_id r \<noteq> rlm_id realm) (map snd (ms_realms m))
      then (Inl (InvalidRequest ''realm name already exists''), m)
      else (let realm' = ensure_realm_pairwise_sector_key (ids 0) (ids 1) realm;
                m1 = m\<lparr>ms_realms := AList.update (rlm_id realm) realm' (ms_realms m)\<rparr>
            in case seed_builtin_client_scopes (\<lambda>i. ids (i + 2)) (rlm_id realm) (ms_directory m1) of
                 Inl e \<Rightarrow> (Inl e, m1)
               | Inr d \<Rightarrow>
                   (let m2 = m1\<lparr>ms_directory := d\<rparr> in
                    case seed_builtin_flows (rlm_id realm) m2 of
                      Inl e \<Rightarrow> (Inl e, m2)
                    | Inr m3 \<Rightarrow> (Inr (), m3))))"

definition update_realm :: "memory_store \<Rightarrow> realm \<Rightarrow> issuerd_error + memory_store" where
  "update_realm m realm =
     (if map_of (ms_realms m) (rlm_id realm) = None then Inl NotFound
      else Inr (m\<lparr>ms_realms := AList.update (rlm_id realm) realm (ms_realms m)\<rparr>))"

definition delete_realm :: "memory_store \<Rightarrow> string \<Rightarrow> memory_store" where
  "delete_realm m i =
     (let d = ms_directory m in
      m\<lparr>ms_realms := AList.delete i (ms_realms m),
        ms_users := retain_rows (\<lambda>k _. fst k \<noteq> i) (ms_users m),
        ms_clients := retain_rows (\<lambda>k _. fst k \<noteq> i) (ms_clients m),
        ms_credentials := retain_map (\<lambda>k. fst k \<noteq> i) (ms_credentials m),
        ms_sessions := retain_rows (\<lambda>k _. fst k \<noteq> i) (ms_sessions m),
        ms_consents := retain_rows (\<lambda>k _. fst k \<noteq> i) (ms_consents m),
        ms_identity_providers := retain_rows (\<lambda>k _. fst k \<noteq> i) (ms_identity_providers m),
        ms_links := retain_rows (\<lambda>k _. fst k \<noteq> i) (ms_links m),
        ms_flow_configs := retain_rows (\<lambda>k _. fst k \<noteq> i) (ms_flow_configs m),
        ms_directory := d
          \<lparr>md_roles := retain_rows (\<lambda>k _. fst k \<noteq> i) (md_roles d),
           md_groups := retain_rows (\<lambda>k _. fst k \<noteq> i) (md_groups d),
           md_user_realm_roles := retain_map (\<lambda>k. fst k \<noteq> i) (md_user_realm_roles d),
           md_user_client_roles := retain_map (\<lambda>k. fst k \<noteq> i) (md_user_client_roles d),
           md_user_groups := retain_map (\<lambda>k. fst k \<noteq> i) (md_user_groups d),
           md_client_scopes := retain_rows (\<lambda>k _. fst k \<noteq> i) (md_client_scopes d),
           md_scope_assignments := retain_map (\<lambda>k. fst k \<noteq> i) (md_scope_assignments d),
           md_realm_default_scopes := retain_map (\<lambda>k. k \<noteq> i) (md_realm_default_scopes d)\<rparr>\<rparr>)"

end
