(* ===== verification/Memory_Invariant.thy ===== *)
theory Memory_Invariant
  imports Memory_Store
begin

text \<open>
  The invariant of the in-memory storage under every sequence of calls, and what the deletion of
  a user or a realm leaves.
\<close>

section \<open>Well-formed stores\<close>

text \<open>A table whose rows fit their keys, each key once.\<close>

definition wf_table :: "('k \<Rightarrow> 'v \<Rightarrow> bool) \<Rightarrow> ('k \<times> 'v) list \<Rightarrow> bool" where
  "wf_table fits rows \<longleftrightarrow> distinct (map fst rows) \<and> (\<forall>(k, v) \<in> set rows. fits k v)"

text \<open>An external account is linked to one user, and a user to one account of a provider.\<close>

fun links_clash ::
    "(string \<times> string \<times> string) \<times> identity_provider_link \<Rightarrow> (string \<times> string \<times> string) \<times> identity_provider_link \<Rightarrow> bool" where
  "links_clash ((r, a, s), l) ((r', a', s'), l') \<longleftrightarrow>
     r = r' \<and> a = a' \<and> (s = s' \<or> ipl_user_id l = ipl_user_id l')"

definition links_one_to_one :: "((string \<times> string \<times> string) \<times> identity_provider_link) list \<Rightarrow> bool" where
  "links_one_to_one rows \<longleftrightarrow> (\<forall>x \<in> set rows. \<forall>y \<in> set rows. links_clash x y \<longrightarrow> x = y)"

definition wf_store :: "memory_store \<Rightarrow> bool" where
  "wf_store m \<longleftrightarrow>
     wf_table (\<lambda>k r. k = rlm_id r) (ms_realms m)
     \<and> wf_table (\<lambda>k u. k = (usr_realm_id u, usr_id u)) (ms_users m)
     \<and> wf_table (\<lambda>k c. k = (cli_realm_id c, cli_id c)) (ms_clients m)
     \<and> wf_table (\<lambda>k s. k = (us_realm_id s, us_id s)) (ms_sessions m)
     \<and> wf_table (\<lambda>k c. snd k = (cons_user_id c, cons_client_id c)) (ms_consents m)
     \<and> wf_table (\<lambda>k p. snd k = idp_id p) (ms_identity_providers m)
     \<and> wf_table (\<lambda>k l. snd k = (ipl_provider_alias l, ipl_external_subject l)) (ms_links m)
     \<and> wf_table (\<lambda>k f. k = (flow_realm_id f, flow_alias f)) (ms_flow_configs m)
     \<and> links_one_to_one (ms_links m) \<and> wf_directory (ms_directory m)"

section \<open>The calls\<close>

text \<open>Rows with a realm are written under it.\<close>

datatype store_op =
    CreateRealm "nat \<Rightarrow> string" realm | UpdateRealm realm | DeleteRealm string
  | CreateUser user | UpdateUser nat user | DeleteUser string string
  | CreateClient client | UpdateClient client | DeleteClient string string
  | CreateCredential string string credential | UpdateCredential string string credential
  | ConsumeTotp string string string u64 | DeleteCredential string string string
  | CreateSession user_session | UpdateSession user_session | DeleteSession string string
  | CreateConsent string consent | DeleteConsent string string string
  | CreateProvider string identity_provider_config | UpdateProvider string identity_provider_config
  | DeleteProvider string string
  | CreateLink string identity_provider_link | DeleteLink string string string
  | CreateFlow flow_config | UpdateFlow flow_config | DeleteFlow string string
  | OnDirectory directory_op

definition keep :: "memory_store \<Rightarrow> issuerd_error + memory_store \<Rightarrow> memory_store" where
  "keep m r = (case r of Inl _ \<Rightarrow> m | Inr m' \<Rightarrow> m')"

fun store_step :: "store_op \<Rightarrow> memory_store \<Rightarrow> memory_store" where
  "store_step (CreateRealm ids r) m = snd (create_realm m ids r)"
| "store_step (UpdateRealm r) m = keep m (update_realm m r)"
| "store_step (DeleteRealm i) m = delete_realm m i"
| "store_step (CreateUser u) m = keep m (create_user m (usr_realm_id u) u)"
| "store_step (UpdateUser now u) m = keep m (update_user m now (usr_realm_id u) u)"
| "store_step (DeleteUser r u) m = delete_user m r u"
| "store_step (CreateClient c) m = keep m (create_client m (cli_realm_id c) c)"
| "store_step (UpdateClient c) m = keep m (update_client m (cli_realm_id c) c)"
| "store_step (DeleteClient r c) m = delete_client m r c"
| "store_step (CreateCredential r u c) m = m\<lparr>ms_credentials := create_credential r u c (ms_credentials m)\<rparr>"
| "store_step (UpdateCredential r u c) m = m\<lparr>ms_credentials := update_credential r u c (ms_credentials m)\<rparr>"
| "store_step (ConsumeTotp r u i s) m = m\<lparr>ms_credentials := snd (consume_totp_step r u i s (ms_credentials m))\<rparr>"
| "store_step (DeleteCredential r u i) m = m\<lparr>ms_credentials := delete_credential r u i (ms_credentials m)\<rparr>"
| "store_step (CreateSession s) m = insert_user_session m (us_realm_id s) s"
| "store_step (UpdateSession s) m = keep m (replace_user_session m (us_realm_id s) s)"
| "store_step (DeleteSession r i) m = remove_user_session m r i"
| "store_step (CreateConsent r c) m = create_consent m r c"
| "store_step (DeleteConsent r u c) m = delete_consent m r u c"
| "store_step (CreateProvider r p) m = create_identity_provider m r p"
| "store_step (UpdateProvider r p) m = keep m (update_identity_provider m r p)"
| "store_step (DeleteProvider r i) m = delete_identity_provider m r i"
| "store_step (CreateLink r l) m = keep m (create_identity_provider_link m r l)"
| "store_step (DeleteLink r u a) m = delete_identity_provider_link m r u a"
| "store_step (CreateFlow f) m = create_flow_config m (flow_realm_id f) f"
| "store_step (UpdateFlow f) m = keep m (update_flow_config m (flow_realm_id f) f)"
| "store_step (DeleteFlow r a) m = (case delete_flow_config m r a of Some m' \<Rightarrow> m' | None \<Rightarrow> m)"
| "store_step (OnDirectory a) m =
     (case directory_step a (ms_directory m) of Inl _ \<Rightarrow> m | Inr d \<Rightarrow> m\<lparr>ms_directory := d\<rparr>)"

inductive store_reachable :: "memory_store \<Rightarrow> bool" where
  new: "store_reachable memory_store_new"
| step: "store_reachable m \<Longrightarrow> store_reachable (store_step a m)"

section \<open>Every call keeps the invariant\<close>

lemma wf_table_Nil [simp, wf_intros]: "wf_table fits []"
  by (simp add: wf_table_def)

lemma wf_table_update [wf_intros]:
  assumes "wf_table fits rows" and "fits k v"
  shows "wf_table fits (AList.update k v rows)"
proof -
  have "\<forall>(k, v) \<in> insert (k, v) (set rows). fits k v"
    using assms by (auto simp: wf_table_def)
  with set_update_subset [of k v rows] assms(1) show ?thesis
    by (auto simp: wf_table_def distinct_update)
qed

lemma wf_table_delete [wf_intros]: "wf_table fits rows \<Longrightarrow> wf_table fits (AList.delete k rows)"
  by (auto simp: wf_table_def distinct_delete) (auto simp: AList.delete_eq)

lemma set_retain_rows: "set (retain_rows P rows) = {(k, v) \<in> set rows. P k v}"
  by (auto simp: retain_rows_def)

lemma wf_table_retain [wf_intros]: "wf_table fits rows \<Longrightarrow> wf_table fits (retain_rows P rows)"
  by (auto simp: wf_table_def retain_rows_def distinct_map_filter')

lemma wf_rows_table: "wf_rows f g rows \<longleftrightarrow> wf_table (\<lambda>k r. k = (f r, g r)) rows"
  by (simp add: wf_rows_def wf_table_def)

lemma wf_rows_retain [wf_intros]: "wf_rows f g rows \<Longrightarrow> wf_rows f g (retain_rows P rows)"
  by (simp add: wf_rows_table wf_table_retain)

lemma wf_lists_retain_map [wf_intros]: "wf_lists m f \<Longrightarrow> wf_lists (retain_map P m) f"
  by (auto simp: wf_lists_def ran_def retain_map_def split: if_splits)

lemma wf_lists_forget [wf_intros]: "wf_lists m f \<Longrightarrow> wf_lists (m(k := None)) f"
  by (auto simp: wf_lists_def ran_def split: if_splits)

lemma wf_lists_strip [wf_intros]: "wf_lists m id \<Longrightarrow> wf_lists (strip_roles realm ids m) id"
  unfolding wf_lists_def ran_def strip_roles_def by (fastforce split: if_splits)

lemma links_subset: "links_one_to_one rows \<Longrightarrow> set rows' \<subseteq> set rows \<Longrightarrow> links_one_to_one rows'"
  unfolding links_one_to_one_def by blast

lemma links_retain [wf_intros]: "links_one_to_one rows \<Longrightarrow> links_one_to_one (retain_rows P rows)"
  by (erule links_subset) (auto simp: set_retain_rows)

lemma links_update:
  assumes "links_one_to_one rows"
    and "\<not> list_ex (\<lambda>(k, l'). fst k = r \<and> fst (snd k) = a \<and> (snd (snd k) = s \<or> ipl_user_id l' = ipl_user_id l)) rows"
  shows "links_one_to_one (AList.update (r, a, s) l rows)"
proof (rule links_subset)
  have "\<not> links_clash x ((r, a, s), l) \<and> \<not> links_clash ((r, a, s), l) x" if "x \<in> set rows" for x
  proof -
    obtain r' a' s' l' where x: "x = ((r', a', s'), l')"
      by (metis prod.exhaust)
    with assms(2) that show ?thesis
      by (auto simp: list_ex_iff)
  qed
  with assms(1) show "links_one_to_one (((r, a, s), l) # rows)"
    by (simp add: links_one_to_one_def del: links_clash.simps)
qed (use set_update_subset [of "(r, a, s)" l rows] in simp)

text \<open>The seeding goes through calls of the directory.\<close>

lemma wf_assign_scope [wf_intros]: "wf_directory d \<Longrightarrow> wf_directory (assign_client_scope d realm c s b)"
  using directory_step_wf [of d "AssignScope realm c s b"] by simp

lemma wf_add_default [wf_intros]: "wf_directory d \<Longrightarrow> wf_directory (add_realm_default_client_scope d realm s b)"
  using directory_step_wf [of d "AddDefaultScope realm s b"] by simp

lemma wf_fold: "(\<And>x d. P d \<Longrightarrow> P (f x d)) \<Longrightarrow> P d \<Longrightarrow> P (fold f xs d)"
  by (induction xs arbitrary: d) simp_all

lemma wf_assign_listed: "wf_directory d \<Longrightarrow> wf_directory (assign_listed_scope realm c s d)"
  by (simp add: assign_listed_scope_def wf_assign_scope)

lemma wf_seed_client [wf_intros]:
  assumes "wf_directory d"
  shows "wf_directory (seed_client_scope_assignments d realm c)"
proof -
  have "wf_directory (fold (assign_listed_scope realm c) scopes d)" for scopes
    by (rule wf_fold [where P = wf_directory]) (simp_all add: wf_assign_listed assms)
  then show ?thesis
    by (simp add: seed_client_scope_assignments_def Let_def wf_assign_scope split: option.split)
qed

lemma wf_add_realm_default: "wf_directory d \<Longrightarrow> wf_directory (add_realm_default realm scopes b name d)"
  by (simp add: add_realm_default_def wf_add_default split: option.split)

lemma wf_create_missing:
  "create_missing_scopes realm existing ss d = Inr d' \<Longrightarrow> wf_directory d \<Longrightarrow>
   (\<forall>s \<in> set ss. csc_realm_id s = realm) \<Longrightarrow> wf_directory d'"
proof (induction realm existing ss d arbitrary: d' rule: create_missing_scopes.induct)
  case (2 realm existing s ss d)
  have "wf_directory d1" if "create_client_scope d realm s = Inr d1" for d1
    using directory_step_wf [of d "CreateScope s" d1] 2 that by simp
  with 2 show ?case
    by (auto split: if_splits sum.splits)
qed simp

lemma builtin_scopes_realm: "\<forall>s \<in> set (builtin_client_scopes ids realm). csc_realm_id s = realm"
proof -
  have "csc_realm_id (fst (builtin_scope ids realm name ms n)) = realm" for name ms n
    by (simp add: builtin_scope_def)
  then show ?thesis
    by (simp add: builtin_client_scopes_def Let_def case_prod_beta)
qed

lemma wf_seed_scopes:
  assumes "seed_builtin_client_scopes ids realm d = Inr d'" and "wf_directory d"
  shows "wf_directory d'"
proof -
  from assms(1) obtain d1 where
      d1: "create_missing_scopes realm (list_client_scopes d realm ALL_ROWS) (builtin_client_scopes ids realm) d = Inr d1"
    and d': "d' = (let scopes = list_client_scopes d1 realm ALL_ROWS in
       fold (add_realm_default realm scopes False) DEFAULT_OPTIONAL_SCOPES
         (fold (add_realm_default realm scopes True) DEFAULT_DEFAULT_SCOPES d1))"
    by (auto simp: seed_builtin_client_scopes_def and_then_Inr_iff Let_def)
  have "wf_directory d1"
    by (rule wf_create_missing [OF d1 assms(2) builtin_scopes_realm])
  then show ?thesis
    unfolding d' Let_def by (intro wf_fold [where P = wf_directory] wf_add_realm_default)
qed

lemma wf_seed_flow:
  assumes "seed_flow realm flow m = Inr m'" and "wf_store m" and "flow_realm_id flow = realm"
  shows "wf_store m'"
  using assms
  by (auto simp: seed_flow_def and_then_Inr_iff create_flow_config_def wf_store_def intro!: wf_intros)

lemma wf_seed_flows: "seed_builtin_flows realm m = Inr m' \<Longrightarrow> wf_store m \<Longrightarrow> wf_store m'"
  unfolding seed_builtin_flows_def and_then_Inr_iff
  by (elim exE conjE) (erule wf_seed_flow, erule wf_seed_flow, simp_all add: default_browser_flow_def registration_flow_def)

lemma wf_create_realm:
  assumes "wf_store m"
  shows "wf_store (snd (create_realm m ids realm))"
proof -
  let ?m1 = "m\<lparr>ms_realms := AList.update (rlm_id realm) (ensure_realm_pairwise_sector_key (ids 0) (ids 1) realm) (ms_realms m)\<rparr>"
  have "rlm_id (ensure_realm_pairwise_sector_key a b realm) = rlm_id realm" for a b
    by (simp add: ensure_realm_pairwise_sector_key_def split: option.split)
  with assms have m1: "wf_store ?m1"
    by (simp add: wf_store_def wf_table_update)
  have m2: "wf_store (?m1\<lparr>ms_directory := d\<rparr>)"
    if "seed_builtin_client_scopes (\<lambda>i. ids (i + 2)) (rlm_id realm) (ms_directory ?m1) = Inr d" for d
    using m1 wf_seed_scopes [OF that] by (simp add: wf_store_def)
  show ?thesis
    using assms m1 m2 wf_seed_flows by (auto simp: create_realm_def Let_def split: sum.splits)
qed

lemmas store_defs = keep_def update_realm_def delete_realm_def create_user_def update_user_def delete_user_def
  create_client_def update_client_def delete_client_def insert_user_session_def replace_user_session_def
  remove_user_session_def create_consent_def delete_consent_def create_identity_provider_def
  update_identity_provider_def delete_identity_provider_def create_identity_provider_link_def
  delete_identity_provider_link_def create_flow_config_def update_flow_config_def delete_flow_config_def Let_def

lemma store_step_wf:
  assumes "wf_store m"
  shows "wf_store (store_step a m)"
proof (cases a)
  case (CreateRealm ids r)
  with assms show ?thesis
    by (simp add: wf_create_realm)
next
  case (CreateClient c)
  with assms show ?thesis
    by (auto simp: wf_store_def store_defs intro!: wf_table_update wf_seed_client)
next
  case (CreateLink r l)
  with assms show ?thesis
    by (auto simp: wf_store_def store_defs intro!: wf_table_update links_update)
next
  case (OnDirectory op)
  with assms directory_step_wf [of "ms_directory m" op] show ?thesis
    by (auto simp: wf_store_def split: sum.splits)
qed (use assms in \<open>auto simp: wf_store_def wf_directory_def store_defs intro!: wf_intros split: option.splits sum.splits\<close>)

lemma store_reachable_wf: "store_reachable m \<Longrightarrow> wf_store m"
proof (induction rule: store_reachable.induct)
  case new
  then show ?case
    by (simp add: memory_store_new_def wf_store_def links_one_to_one_def wf_directory_def directory_new_def wf_rows_def wf_lists_def)
qed (rule store_step_wf)

section \<open>What a deletion leaves\<close>

text \<open>All that the lookups and listings return for a user, and for a realm.\<close>

record user_rows =
  ut_row :: "user option"
  ut_credentials :: "credential_type \<Rightarrow> credential list"
  ut_sessions :: "user_session list"
  ut_consents :: "consent list"
  ut_links :: "identity_provider_link list"
  ut_realm_roles :: "string list"
  ut_client_roles :: "string list"
  ut_groups :: "string list"

definition user_trace :: "memory_store \<Rightarrow> pagination \<Rightarrow> string \<Rightarrow> string \<Rightarrow> user_rows" where
  "user_trace m pg realm u =
     \<lparr>ut_row = get_user m realm u, ut_credentials = (\<lambda>ty. get_credentials realm u ty (ms_credentials m)),
      ut_sessions = list_sessions m realm (Some u) pg, ut_consents = get_consents m realm u,
      ut_links = list_identity_provider_links m realm u,
      ut_realm_roles = list_user_realm_roles (ms_directory m) realm u,
      ut_client_roles = list_user_client_roles (ms_directory m) realm u,
      ut_groups = list_user_groups (ms_directory m) realm u\<rparr>"

definition no_user_trace :: user_rows where
  "no_user_trace =
     \<lparr>ut_row = None, ut_credentials = (\<lambda>_. []), ut_sessions = [], ut_consents = [], ut_links = [],
      ut_realm_roles = [], ut_client_roles = [], ut_groups = []\<rparr>"

record realm_rows =
  rt_row :: "realm option"
  rt_users :: "user list"
  rt_sessions :: "user_session list"
  rt_clients :: "client list"
  rt_roles :: "role list"
  rt_groups :: "group list"
  rt_client_scopes :: "client_scope list"
  rt_assignments :: "string \<Rightarrow> (string \<times> bool) list"
  rt_default_scopes :: "(string \<times> bool) list"
  rt_providers :: "identity_provider_config list"
  rt_flows :: "flow_config list"

definition realm_trace :: "(string \<Rightarrow> string) \<Rightarrow> memory_store \<Rightarrow> pagination \<Rightarrow> string \<Rightarrow> realm_rows" where
  "realm_trace lower m pg i =
     (let d = ms_directory m in
      \<lparr>rt_row = get_realm m i, rt_users = list_users lower m i [] pg, rt_sessions = list_sessions m i None pg,
       rt_clients = list_clients m i pg, rt_roles = list_roles d i pg, rt_groups = list_groups d i pg,
       rt_client_scopes = list_client_scopes d i pg,
       rt_assignments = list_client_scope_assignments d i,
       rt_default_scopes = list_realm_default_client_scopes d i,
       rt_providers = list_identity_providers m i, rt_flows = list_flow_configs m i\<rparr>)"

definition no_realm_trace :: realm_rows where
  "no_realm_trace =
     \<lparr>rt_row = None, rt_users = [], rt_sessions = [], rt_clients = [], rt_roles = [], rt_groups = [],
      rt_client_scopes = [], rt_assignments = (\<lambda>_. []), rt_default_scopes = [], rt_providers = [], rt_flows = []\<rparr>"

text \<open>A listing by a field of the row after rows were dropped by their keys.\<close>

lemma listing_emptied:
  assumes "wf_table fits rows" and "\<And>k v. fits k v \<Longrightarrow> P v \<Longrightarrow> \<not> Q k v"
  shows "filter P (map snd (retain_rows Q rows)) = []"
  using assms by (auto simp: filter_empty_conv wf_table_def set_retain_rows)

lemma listing_kept:
  assumes "wf_table fits rows" and "\<And>k v. fits k v \<Longrightarrow> P v \<Longrightarrow> Q k v"
  shows "filter P (map snd (retain_rows Q rows)) = filter P (map snd rows)"
proof -
  have "\<forall>(k, v) \<in> set rows. P v \<longrightarrow> Q k v"
    using assms by (auto simp: wf_table_def)
  then show ?thesis
    by (induction rows) (auto simp: retain_rows_def)
qed

lemma rows_emptied: "(\<And>k v. P k v \<Longrightarrow> \<not> Q k v) \<Longrightarrow> filter (\<lambda>(k, v). P k v) (retain_rows Q rows) = []"
  by (auto simp: filter_empty_conv set_retain_rows)

lemma rows_kept: "(\<And>k v. P k v \<Longrightarrow> Q k v) \<Longrightarrow> filter (\<lambda>(k, v). P k v) (retain_rows Q rows) = filter (\<lambda>(k, v). P k v) rows"
  by (induction rows) (auto simp: retain_rows_def)

lemma map_of_retain: "map_of (retain_rows (\<lambda>k _. Q k) rows) k = (if Q k then map_of rows k else None)"
  by (induction rows) (auto simp: retain_rows_def)

lemma page_Nil [simp]: "page pg [] = []"
  by (simp add: page_def)

lemma sessions_fit: "wf_store m \<Longrightarrow> wf_table (\<lambda>k s. k = (us_realm_id s, us_id s)) (ms_sessions m)"
  by (simp add: wf_store_def)

lemmas user_lookups = get_user_def list_sessions_def get_consents_def list_identity_provider_links_def
  list_user_realm_roles_def list_user_client_roles_def list_user_groups_def get_credentials_def
  or_default_def retain_map_def

lemma delete_user_tables [simp]:
  "ms_users (delete_user m realm i) = AList.delete (realm, i) (ms_users m)"
  "ms_credentials (delete_user m realm i) = retain_map (\<lambda>(r, u, ty). r \<noteq> realm \<or> u \<noteq> i) (ms_credentials m)"
  "ms_sessions (delete_user m realm i) = retain_rows (\<lambda>k v. fst k \<noteq> realm \<or> us_user_id v \<noteq> i) (ms_sessions m)"
  "ms_consents (delete_user m realm i) = retain_rows (\<lambda>k v. fst k \<noteq> realm \<or> fst (snd k) \<noteq> i) (ms_consents m)"
  "ms_links (delete_user m realm i) = retain_rows (\<lambda>k v. fst k \<noteq> realm \<or> ipl_user_id v \<noteq> i) (ms_links m)"
  "md_user_realm_roles (ms_directory (delete_user m realm i)) = (md_user_realm_roles (ms_directory m))((realm, i) := None)"
  "md_user_client_roles (ms_directory (delete_user m realm i)) = (md_user_client_roles (ms_directory m))((realm, i) := None)"
  "md_user_groups (ms_directory (delete_user m realm i)) = (md_user_groups (ms_directory m))((realm, i) := None)"
  by (simp_all add: delete_user_def)

lemma deleted_user_trace:
  assumes "wf_store m"
  shows "user_trace (delete_user m realm u) pg realm u = no_user_trace"
proof -
  have "filter (session_of realm (Some u)) (map snd (ms_sessions (delete_user m realm u))) = []"
    unfolding delete_user_tables
    by (rule listing_emptied [OF sessions_fit [OF assms]]) (auto simp: session_of_def)
  then show ?thesis
    by (simp add: user_trace_def no_user_trace_def user_lookups rows_emptied delete_conv')
qed

lemma other_user_trace:
  assumes "wf_store m" and "(r, v) \<noteq> (realm, u)"
  shows "user_trace (delete_user m realm u) pg r v = user_trace m pg r v"
proof -
  have "filter (session_of r (Some v)) (map snd (ms_sessions (delete_user m realm u)))
      = filter (session_of r (Some v)) (map snd (ms_sessions m))"
    unfolding delete_user_tables
    by (rule listing_kept [OF sessions_fit [OF assms(1)]]) (use assms(2) in \<open>auto simp: session_of_def\<close>)
  moreover have "filter (\<lambda>(k, _). fst k = r \<and> fst (snd k) = v) (ms_consents (delete_user m realm u))
      = filter (\<lambda>(k, _). fst k = r \<and> fst (snd k) = v) (ms_consents m)"
    unfolding delete_user_tables by (rule rows_kept) (use assms(2) in auto)
  moreover have "filter (\<lambda>(k, l). fst k = r \<and> ipl_user_id l = v) (ms_links (delete_user m realm u))
      = filter (\<lambda>(k, l). fst k = r \<and> ipl_user_id l = v) (ms_links m)"
    unfolding delete_user_tables by (rule rows_kept) (use assms(2) in auto)
  ultimately show ?thesis
    using assms(2) by (auto simp: user_trace_def user_lookups delete_conv' fun_eq_iff simp del: delete_user_tables(3-5))
qed

text \<open>The tables a realm's listings read.\<close>

lemma realm_tables:
  assumes "wf_store m"
  shows "wf_table (\<lambda>k u. k = (usr_realm_id u, usr_id u)) (ms_users m)"
    "wf_table (\<lambda>k c. k = (cli_realm_id c, cli_id c)) (ms_clients m)"
    "wf_table (\<lambda>k s. k = (us_realm_id s, us_id s)) (ms_sessions m)"
    "wf_table (\<lambda>k r. k = (role_realm_id r, role_id r)) (md_roles (ms_directory m))"
    "wf_table (\<lambda>k g. k = (grp_realm_id g, grp_id g)) (md_groups (ms_directory m))"
  using assms by (simp_all add: wf_store_def wf_directory_def wf_rows_table)

lemmas realm_lookups = get_realm_def list_users_def list_sessions_def list_clients_def list_roles_def list_groups_def
  list_client_scopes_def list_client_scope_assignments_def list_realm_default_client_scopes_def
  list_identity_providers_def list_flow_configs_def or_default_def retain_map_def

text \<open>Every listing of a realm after the deletion of one.\<close>

lemma realm_listing:
  assumes "wf_table fits rows" and "\<And>k v. fits k v \<Longrightarrow> P v \<Longrightarrow> fst k = r"
  shows "filter P (map snd (retain_rows (\<lambda>k _. fst k \<noteq> i) rows)) = (if r = i then [] else filter P (map snd rows))"
  using listing_emptied [OF assms(1), of P "\<lambda>k _. fst k \<noteq> i"] listing_kept [OF assms(1), of P "\<lambda>k _. fst k \<noteq> i"] assms(2)
  by auto

lemma realm_traces:
  assumes "wf_store m"
  shows "realm_trace lower (delete_realm m i) pg r = (if r = i then no_realm_trace else realm_trace lower m pg r)"
    and "user_trace (delete_realm m i) pg r u = (if r = i then no_user_trace else user_trace m pg r u)"
proof -
  let ?drop = "retain_rows (\<lambda>k _. fst k \<noteq> i)"
  note tables = realm_tables [OF assms]
  have listings:
    "filter (user_matches lower r q) (map snd (?drop (ms_users m))) = (if r = i then [] else filter (user_matches lower r q) (map snd (ms_users m)))"
    "filter (\<lambda>c. cli_realm_id c = r) (map snd (?drop (ms_clients m))) = (if r = i then [] else filter (\<lambda>c. cli_realm_id c = r) (map snd (ms_clients m)))"
    "filter (session_of r user) (map snd (?drop (ms_sessions m))) = (if r = i then [] else filter (session_of r user) (map snd (ms_sessions m)))"
    "filter (\<lambda>x. role_realm_id x = r) (map snd (?drop (md_roles (ms_directory m)))) = (if r = i then [] else filter (\<lambda>x. role_realm_id x = r) (map snd (md_roles (ms_directory m))))"
    "filter (\<lambda>g. grp_realm_id g = r) (map snd (?drop (md_groups (ms_directory m)))) = (if r = i then [] else filter (\<lambda>g. grp_realm_id g = r) (map snd (md_groups (ms_directory m))))" for q user
    by (rule realm_listing [OF tables(1)] realm_listing [OF tables(2)] realm_listing [OF tables(3)]
        realm_listing [OF tables(4)] realm_listing [OF tables(5)]; simp add: user_matches_def session_of_def)+
  show "realm_trace lower (delete_realm m i) pg r = (if r = i then no_realm_trace else realm_trace lower m pg r)"
    by (simp add: realm_trace_def no_realm_trace_def realm_lookups delete_realm_def Let_def listings rows_emptied rows_kept delete_conv' fun_eq_iff)
  have "filter (\<lambda>(k, _). fst k = r \<and> fst (snd k) = u) (?drop (ms_consents m))
      = (if r = i then [] else filter (\<lambda>(k, _). fst k = r \<and> fst (snd k) = u) (ms_consents m))"
    "filter (\<lambda>(k, l). fst k = r \<and> ipl_user_id l = u) (?drop (ms_links m))
      = (if r = i then [] else filter (\<lambda>(k, l). fst k = r \<and> ipl_user_id l = u) (ms_links m))"
    by (auto intro!: rows_emptied rows_kept)
  then show "user_trace (delete_realm m i) pg r u = (if r = i then no_user_trace else user_trace m pg r u)"
    by (simp add: user_trace_def no_user_trace_def user_lookups delete_realm_def Let_def listings map_of_retain)
qed

section \<open>Properties\<close>


definition stored_user :: "string \<Rightarrow> user" where
  "stored_user i =
     \<lparr>usr_id = i, usr_realm_id = ''r'', usr_username = ''user-'' @ i, usr_email = None, usr_email_verified = False,
      usr_first_name = None, usr_last_name = None, usr_enabled = True, usr_federation_link = None,
      usr_attributes = Map.empty, usr_required_actions = [], usr_created_at = 0, usr_updated_at = 0\<rparr>"

definition stored_link :: "string \<Rightarrow> string \<Rightarrow> identity_provider_link" where
  "stored_link i subject =
     \<lparr>ipl_user_id = i, ipl_provider_alias = ''idp'', ipl_external_subject = subject, ipl_external_username = None,
      ipl_stored_refresh_token = None, ipl_created_at = 0\<rparr>"

definition example_store :: memory_store where
  "example_store = fold store_step
     [CreateUser (stored_user ''1''), CreateUser (stored_user ''2''), CreateLink ''r'' (stored_link ''1'' ''a''),
      CreateLink ''r'' (stored_link ''2'' ''b''), CreateLink ''r'' (stored_link ''1'' ''c''),
      OnDirectory (AddRealmRole ''r'' ''1'' ''admin'')] memory_store_new"

lemma reachable_fold: "store_reachable m \<Longrightarrow> store_reachable (fold store_step ops m)"
  by (induction ops arbitrary: m) (simp_all add: store_reachable.step)

lemma example_store_reachable: "store_reachable example_store"
  unfolding example_store_def by (rule reachable_fold [OF store_reachable.new])


text \<open>(C20) Deletions cascade and stay in bounds.  After the deletion of a user no lookup or listing
  returns anything of that user (row, credentials, sessions, consents, account links, roles,
  groups), and everything of every other user is as before; after the deletion of a realm nothing
  of the realm or of its users is left, and everything of every other realm is as before.\<close>

theorem deletion_leaves_nothing:
  assumes "store_reachable m"
  shows "user_trace (delete_user m realm u) pg r v = (if (r, v) = (realm, u) then no_user_trace else user_trace m pg r v)
    \<and> realm_trace lower (delete_realm m realm) pg r = (if r = realm then no_realm_trace else realm_trace lower m pg r)
    \<and> user_trace (delete_realm m realm) pg r v = (if r = realm then no_user_trace else user_trace m pg r v)"
  using deleted_user_trace other_user_trace realm_traces store_reachable_wf [OF assms] by auto

theorem deletion_leaves_nothing_witness:
  "user_trace (delete_user example_store ''r'' ''1'') pagination_default ''r'' ''1'' = no_user_trace
   \<and> user_trace (delete_user example_store ''r'' ''1'') pagination_default ''r'' ''2''
       = user_trace example_store pagination_default ''r'' ''2''
   \<and> ut_links (user_trace example_store pagination_default ''r'' ''2'') = [stored_link ''2'' ''b'']"
proof -
  have "ut_links (user_trace example_store pagination_default ''r'' ''2'') = [stored_link ''2'' ''b'']"
    by code_simp
  then show ?thesis
    using deletion_leaves_nothing [OF example_store_reachable, of "''r''" "''1''" pagination_default "''r''" "''1''"]
      deletion_leaves_nothing [OF example_store_reachable, of "''r''" "''1''" pagination_default "''r''" "''2''"]
    by simp
qed

end
