(* ===== verification/Spec2Isabelle.thy ===== *)
theory Spec2Isabelle
  imports Glob Roles Refresh_Flow Device_Races Flow_Success Memory_Invariant
begin

text \<open>
  A verification development of issuerd, an OpenID Connect identity provider.

  \<^bold>\<open>The program.\<close>  issuerd is a set of Rust crates.  \<open>issuerd-core\<close> holds the data of realms,
  clients, users, roles and sessions, the validated text types, scopes and the traits of storage
  and cache; \<open>issuerd-protocol\<close> parses and validates the requests of the OAuth 2.0 and OpenID
  Connect endpoints; \<open>issuerd-cluster\<close> and \<open>issuerd-storage\<close> implement cache and storage;
  \<open>issuerd-auth-flow\<close> authenticates users and counts their failures; \<open>issuerd-token\<close> issues and
  validates tokens; \<open>issuerd-server\<close> has the HTTP handlers that compose all of it.  An
  authorization request is validated, the user logs in, an authorization code is stored in the
  cache, and the token endpoint redeems it for tokens.

  \<^bold>\<open>How it is modelled.\<close>  A Rust \<open>String\<close> is its UTF-8 bytes; \<open>Result\<close> is a sum with the error on
  the left; \<open>u32\<close> and \<open>u64\<close> are words; instants are nanoseconds.  Structs are records, enums are
  datatypes, trait objects are records of operations, and each function is a definition of the
  same name where HOL allows it.  Code outside the repository (URL parsing, JSON, hashes,
  signatures, serialization) is a parameter in a record; theorems that rely on it name the
  documented behaviour as a hypothesis.  Stateful code passes the state explicitly.  A request
  that awaits between cache calls is a process that stops at each call, so that any interleaving
  of requests is a sequence of steps.

  \<^bold>\<open>The theories.\<close>
  \<^item> \<open>Issuerd_Prelude\<close>, \<open>Rust_Text\<close>: results, lists, maps; the text functions of the standard
    library (\<open>trim\<close>, \<open>split_whitespace\<close>, number formatting).
  \<^item> \<open>Errors\<close>, \<open>Scopes\<close>, \<open>External\<close>, \<open>Validated\<close>, \<open>Entities\<close>, \<open>Client_Scopes\<close>, \<open>Redirect_Uris\<close>:
    the data of \<open>issuerd-core\<close> with its constructors and checks.
  \<^item> \<open>Protocol_Utils\<close>, \<open>Authorization\<close>, \<open>Token_Endpoint\<close>, \<open>Backchannel\<close>: the requests of
    \<open>issuerd-protocol\<close>.  The properties say what an accepted request has: a registered redirect
    target, a proof key for public clients, assigned scopes only, supported authorization details,
    the credentials of its grant type, exactly one user hint.
  \<^item> \<open>Cache\<close>, \<open>Cache_Spec\<close>, \<open>Glob\<close>: the cache trait, the in-memory cache with lazy expiry and
    sweeping, its key scans.  The locale \<open>distributed_cache\<close> is the contract the clients rely on;
    the in-memory cache refines a map of expiring entries.
  \<^item> \<open>Login_Failures\<close>, \<open>Interleaving\<close>, \<open>Cache_Races\<close>, \<open>Otp_Race\<close>: failure counters, lockouts and
    one-time-code reservations, and their races.
  \<^item> \<open>Directory\<close>, \<open>Roles\<close>: roles, groups, client scopes and memberships of the in-memory storage
    with their invariant, and the composite closure of the effective roles.
  \<^item> \<open>Builtin_Flows\<close>, \<open>Memory_Store\<close>, \<open>Memory_Invariant\<close>: the built-in flows and the other tables of the
    in-memory storage of \<open>issuerd-storage\<close> (realms, users, clients, sessions, consents, identity
    providers, account links, flows) with the seeding of a new realm.  In every store the calls can
    produce each row is filed once under what it carries and account links are one to one; a
    deletion leaves nothing and touches nothing else.
  \<^item> \<open>Realm_Urls\<close>: realm issuers and back.
  \<^item> \<open>Grant_Base\<close>, \<open>Code_Grant\<close>, \<open>Code_Flow\<close>, \<open>Code_Reuse\<close>: the token endpoint's shared steps and
    the authorization code grant of \<open>routes/oidc.rs\<close>, composed with the authorization request.
  \<^item> \<open>Jwt_Validation\<close>: which tokens \<open>issuerd-token\<close> accepts as refresh, access and session tokens;
    the signature library is a parameter with the laws \<open>jwt_laws\<close>.
  \<^item> \<open>Refresh_Grant\<close>, \<open>Refresh_Flow\<close>: the refresh token grant as a process with one program point per
    cache call.  A token is rotated at most once before its expiry, whatever interleaves; a replay
    ends the session; two examples show where the revocation marker does not hold.
  \<^item> \<open>Totp_Codes\<close>, \<open>Second_Factor\<close>, \<open>Password_Grant\<close>: one-time codes with their base32 codec, the
    credentials of the in-memory storage, the second factor outside the browser and the password
    grant that uses them.  The codec loses nothing, a code is accepted exactly in its window, a
    time step is claimed once, and tokens need every factor the account has.
  \<^item> \<open>Device_Grant\<close>, \<open>Device_Flow\<close>, \<open>Device_Races\<close>: the device flow, its three handlers as processes.
    Tokens need a request, an approval with every factor and the right client in every
    interleaving; two examples show what overlapping polls undo.
  \<^item> \<open>Flow_Executor\<close>, \<open>Flow_Validation\<close>, \<open>Flow_Success\<close>: the executor of authentication flows and
    the validation of saved flows of \<open>issuerd-auth-flow\<close>.  Validation ends and decides its
    specification; a validated flow resolves its references; a flow that succeeds earned it stage
    by stage.  Two examples show where alternatives are not alternatives and where an accepted
    flow is nested too deep to run.
  \<^item> \<open>Samples\<close>, \<open>Sample_Codec\<close>: concrete inputs and library functions for the examples.

  \<^bold>\<open>Bounds.\<close>  The glob matcher runs with fuel that is proved to be enough for every pattern and
  key.  The composite expansion and the framing of samples terminate by a measure.  Role listings
  ask for \<open>i32::MAX\<close> rows, hence the bound on the number of roles in the statements on effective
  roles.

  \<^bold>\<open>Not modelled.\<close>  SQL, file and Redis backends, HTTP routing, page rendering, mail, logging,
  metrics, cryptography and the exchanges with external identity providers are I/O or wrappers of
  libraries.  The admin API, the browser flows and the MCP server are left out.
\<close>

end
